(* ===== verification/Prelude.thy ===== *)
theory Prelude
  imports Main "HOL-Library.Sublist" "HOL-Library.Signed_Division" "HOL-Library.Multiset"
    "HOL-Library.AList" "HOL-Library.Word"
begin

text \<open>
  The Go fragment that every component uses: outcomes of code that can panic, 64-bit \<open>int\<close>
  arithmetic (two's complement wrap-around, division truncated towards zero), the functions of
  package \<open>strings\<close> and the \<open>%d\<close> verb of package \<open>fmt\<close>, and the generic lemmas and fact
  collections of the development.
\<close>

named_theorems guard_defs \<open>definitions of validation guards\<close>
named_theorems world_defs \<open>definitions that thread the world\<close>

section \<open>Outcomes\<close>

text \<open>
  A Go function that may panic has an outcome: \<open>Ret v\<close> when it returns, \<open>Panic m\<close> when it
  panics, \<open>Hang\<close> when it blocks forever. Errors that the code returns are ordinary values, an
  \<open>option\<close> whose \<open>None\<close> is \<open>nil\<close>.
\<close>

datatype 'a go = Ret 'a | Panic string | Hang

type_synonym err = string

primrec go_bind :: "'a go \<Rightarrow> ('a \<Rightarrow> 'b go) \<Rightarrow> 'b go" where
  "go_bind (Ret x) f = f x"
| "go_bind (Panic m) f = Panic m"
| "go_bind Hang f = Hang"

primrec panics :: "'a go \<Rightarrow> bool" where
  "panics (Ret x) = False"
| "panics (Panic m) = True"
| "panics Hang = False"

primrec returns :: "'a go \<Rightarrow> bool" where
  "returns (Ret x) = True"
| "returns (Panic m) = False"
| "returns Hang = False"

lemma go_bind_eq_Ret: "go_bind x f = Ret y \<longleftrightarrow> (\<exists>z. x = Ret z \<and> f z = Ret y)"
  by (cases x) auto

lemma returns_go_bind [simp]: "returns (go_bind x f) \<longleftrightarrow> (\<exists>z. x = Ret z \<and> returns (f z))"
  by (cases x) auto

lemma panics_go_bind [simp]: "panics (go_bind x f) \<longleftrightarrow> panics x \<or> (\<exists>z. x = Ret z \<and> panics (f z))"
  by (cases x) auto

lemma returns_iff: "returns x \<longleftrightarrow> (\<exists>y. x = Ret y)"
  by (cases x) auto

text \<open>Sequencing of steps that thread a world and may not return.\<close>

definition io_bind :: "'a go \<times> 'w \<Rightarrow> ('a \<Rightarrow> 'w \<Rightarrow> 'b go \<times> 'w) \<Rightarrow> 'b go \<times> 'w" where
  "io_bind m f = (case m of (Ret x, w) \<Rightarrow> f x w | (Panic e, w) \<Rightarrow> (Panic e, w) | (Hang, w) \<Rightarrow> (Hang, w))"

lemma io_bind_simps [simp]:
  "io_bind (Ret x, w) f = f x w"
  "io_bind (Panic e, w) f = (Panic e, w)"
  "io_bind (Hang, w) f = (Hang, w)"
  by (simp_all add: io_bind_def)

lemma io_bind_eq_Ret:
  "io_bind m f = (Ret y, w') \<longleftrightarrow> (\<exists>x w. m = (Ret x, w) \<and> f x w = (Ret y, w'))"
  by (auto simp: io_bind_def split: prod.splits go.splits)

lemma io_bindE:
  assumes "io_bind m f = (Ret y, w')"
  obtains x w where "m = (Ret x, w)" and "f x w = (Ret y, w')"
  using assms by (auto simp: io_bind_eq_Ret)

section \<open>64-bit integers\<close>

definition wrap64 :: "int \<Rightarrow> int" where
  "wrap64 x = (x + 2 ^ 63) mod 2 ^ 64 - 2 ^ 63"

definition int64_range :: "int \<Rightarrow> bool" where
  "int64_range x \<longleftrightarrow> - (2 ^ 63) \<le> x \<and> x < 2 ^ 63"

lemma wrap64_range: "int64_range (wrap64 x)"
  by (simp add: wrap64_def int64_range_def)

lemma wrap64_id: "int64_range x \<Longrightarrow> wrap64 x = x"
  by (simp add: wrap64_def int64_range_def)

lemma wrap64_small [simp]: "- (2 ^ 63) \<le> x \<Longrightarrow> x < 2 ^ 63 \<Longrightarrow> wrap64 x = x"
  by (simp add: wrap64_def)

definition go_add :: "int \<Rightarrow> int \<Rightarrow> int" where
  "go_add a b = wrap64 (a + b)"

definition go_sub :: "int \<Rightarrow> int \<Rightarrow> int" where
  "go_sub a b = wrap64 (a - b)"

definition go_mul :: "int \<Rightarrow> int \<Rightarrow> int" where
  "go_mul a b = wrap64 (a * b)"

text \<open>Integer division truncates towards zero and panics on a zero divisor.\<close>

definition go_div :: "int \<Rightarrow> int \<Rightarrow> int go" where
  "go_div a b = (if b = 0 then Panic ''runtime error: integer divide by zero''
                 else Ret (wrap64 (a sdiv b)))"

lemma sdiv_pos: "0 \<le> a \<Longrightarrow> 0 < b \<Longrightarrow> (a::int) sdiv b = a div b"
  by (simp add: signed_divide_int_def sgn_if)

lemma sdiv_minus_one: "2 \<le> b \<Longrightarrow> (-1::int) sdiv b = 0"
  by (simp add: signed_divide_int_def)

section \<open>Strings\<close>

text \<open>
  Go strings are byte sequences, as HOL's \<open>string\<close> is. Case mapping is the ASCII mapping of
  \<open>strings.ToLower\<close> and \<open>strings.ToUpper\<close>.
\<close>

definition lower_char :: "char \<Rightarrow> char" where
  "lower_char c = (let n = (of_char c :: nat) in if 65 \<le> n \<and> n \<le> 90 then char_of (n + 32) else c)"

definition upper_char :: "char \<Rightarrow> char" where
  "upper_char c = (let n = (of_char c :: nat) in if 97 \<le> n \<and> n \<le> 122 then char_of (n - 32) else c)"

definition ToLower :: "string \<Rightarrow> string" where
  "ToLower s = map lower_char s"

definition ToUpper :: "string \<Rightarrow> string" where
  "ToUpper s = map upper_char s"

definition HasSuffix :: "string \<Rightarrow> string \<Rightarrow> bool" where
  "HasSuffix s suf \<longleftrightarrow> suffix suf s"

definition Contains :: "string \<Rightarrow> string \<Rightarrow> bool" where
  "Contains s sub \<longleftrightarrow> sublist sub s"

lemma lower_char_idem [simp]: "lower_char (lower_char c) = lower_char c"
  by (auto simp: lower_char_def Let_def)

lemma ToLower_idem [simp]: "ToLower (ToLower s) = ToLower s"
  by (simp add: ToLower_def)

lemma ToLower_Nil [simp]: "ToLower s = [] \<longleftrightarrow> s = []"
  by (simp add: ToLower_def)

lemma ToLower_length [simp]: "length (ToLower s) = length s"
  by (simp add: ToLower_def)

text \<open>The decimal rendering of \<open>%d\<close> (and of \<open>%v\<close> on an integer).\<close>

fun show_nat :: "nat \<Rightarrow> string" where
  "show_nat n = (if n < 10 then [char_of (48 + n)] else show_nat (n div 10) @ [char_of (48 + n mod 10)])"

declare show_nat.simps [simp del]

definition show_int :: "int \<Rightarrow> string" where
  "show_int i = (if i < 0 then CHR ''-'' # show_nat (nat (- i)) else show_nat (nat i))"

section \<open>Lists and maps\<close>

text \<open>A key present in an association list, as Go's \<open>_, ok := m[k]\<close>.\<close>

definition has_key :: "('k \<times> 'v) list \<Rightarrow> 'k \<Rightarrow> bool" where
  "has_key m k \<longleftrightarrow> map_of m k \<noteq> None"

lemma has_key_iff: "has_key m k \<longleftrightarrow> k \<in> fst ` set m"
  by (auto simp: has_key_def map_of_eq_None_iff)

text \<open>A counting loop is the length of a filter; counts do not depend on the iteration order.\<close>

fun count_if :: "('a \<Rightarrow> bool) \<Rightarrow> 'a list \<Rightarrow> int" where
  "count_if P [] = 0"
| "count_if P (x # xs) = (if P x then 1 else 0) + count_if P xs"

lemma count_if_filter: "count_if P xs = int (length (filter P xs))"
  by (induction xs) auto

lemma count_if_bounds: "0 \<le> count_if P xs" "count_if P xs \<le> int (length xs)"
  by (simp_all add: count_if_filter)

lemma count_if_mset: "mset xs = mset ys \<Longrightarrow> count_if P xs = count_if P ys"
  by (metis count_if_filter mset_filter size_mset)

lemma count_if_Not: "count_if (\<lambda>x. \<not> P x) xs = int (length xs) - count_if P xs"
  by (induction xs) auto

end
