(* ===== verification/Json.thy ===== *)
theory Json
  imports Prelude
begin

text \<open>
  What the program uses of package \<open>encoding/json\<close>: the syntax check and the value that
  \<open>json.Unmarshal\<close> sees, and decoding of a value into Go data. A syntax error leaves the
  target as it was; a type mismatch is reported as an error after the rest of the value has been
  decoded (the target keeps every field that did match), as the package documents. Error texts
  of the package are abbreviated, invalid UTF-8 is passed through, and the nesting limit of 10000
  is not modelled. Numbers keep their literal; an integer target reads it with the rules of
  \<open>strconv.ParseInt\<close>.
\<close>

datatype json =
    JNull
  | JBool bool
  | JNum string
  | JStr string
  | JArr "json list"
  | JObj "(string \<times> json) list"

section \<open>Lexical elements\<close>

definition is_ws :: "char \<Rightarrow> bool" where
  "is_ws c \<longleftrightarrow> (let n = (of_char c :: nat) in n = 32 \<or> n = 9 \<or> n = 10 \<or> n = 13)"

definition is_digit :: "char \<Rightarrow> bool" where
  "is_digit c \<longleftrightarrow> (let n = (of_char c :: nat) in 48 \<le> n \<and> n \<le> 57)"

definition skip_ws :: "string \<Rightarrow> string" where
  "skip_ws s = dropWhile is_ws s"

definition hex_digit :: "char \<Rightarrow> nat option" where
  "hex_digit c = (let n = (of_char c :: nat) in
     if 48 \<le> n \<and> n \<le> 57 then Some (n - 48)
     else if 97 \<le> n \<and> n \<le> 102 then Some (n - 87)
     else if 65 \<le> n \<and> n \<le> 70 then Some (n - 55)
     else None)"

fun hex_value :: "nat \<Rightarrow> string \<Rightarrow> nat option" where
  "hex_value acc [] = Some acc"
| "hex_value acc (c # cs) =
     (case hex_digit c of None \<Rightarrow> None | Some d \<Rightarrow> hex_value (16 * acc + d) cs)"

definition utf8 :: "nat \<Rightarrow> string" where
  "utf8 n = (if n < 128 then [char_of n]
     else if n < 2048 then [char_of (192 + n div 64), char_of (128 + n mod 64)]
     else if n < 65536 then
       [char_of (224 + n div 4096), char_of (128 + (n div 64) mod 64), char_of (128 + n mod 64)]
     else [char_of (240 + n div 262144), char_of (128 + (n div 4096) mod 64),
       char_of (128 + (n div 64) mod 64), char_of (128 + n mod 64)])"

definition escape_char :: "char \<Rightarrow> char option" where
  "escape_char e = map_of (zip (''bfnrt/'' @ [char_of (34::nat), char_of (92::nat)])
     [char_of (8::nat), char_of (12::nat), char_of (10::nat), char_of (13::nat), char_of (9::nat),
      CHR ''/'', char_of (34::nat), char_of (92::nat)]) e"

text \<open>
  The body of a string literal after its opening quote: the decoded bytes and the rest of the
  input. \<open>high\<close> is a high surrogate waiting for its low half; without one it decodes to
  U+FFFD.
\<close>

definition surrogate :: "nat option \<Rightarrow> string" where
  "surrogate high = (case high of None \<Rightarrow> [] | Some _ \<Rightarrow> utf8 65533)"

fun parse_chars :: "nat option \<Rightarrow> string \<Rightarrow> (string \<times> string) option" where
  "parse_chars high [] = None"
| "parse_chars high (c # cs) =
    (if c = char_of (34::nat) then Some (surrogate high, cs)
     else if c = char_of (92::nat) then
       (case cs of
          [] \<Rightarrow> None
        | e # cs' \<Rightarrow>
            if e = CHR ''u'' then
              (case cs' of
                 a # b # x # y # cs'' \<Rightarrow>
                   (case hex_value 0 [a, b, x, y] of
                      None \<Rightarrow> None
                    | Some n \<Rightarrow>
                        if 55296 \<le> n \<and> n < 56320 then
                          map_option (apfst ((@) (surrogate high))) (parse_chars (Some n) cs'')
                        else if 56320 \<le> n \<and> n < 57344 then
                          map_option (apfst ((@) (case high of
                              None \<Rightarrow> utf8 65533
                            | Some h \<Rightarrow> utf8 (65536 + (h - 55296) * 1024 + (n - 56320)))))
                            (parse_chars None cs'')
                        else map_option (apfst ((@) (surrogate high @ utf8 n))) (parse_chars None cs''))
               | _ \<Rightarrow> None)
            else (case escape_char e of
                    None \<Rightarrow> None
                  | Some d \<Rightarrow> map_option (apfst ((@) (surrogate high @ [d]))) (parse_chars None cs')))
     else if (of_char c :: nat) < 32 then None
     else map_option (apfst ((@) (surrogate high @ [c]))) (parse_chars None cs))"

definition digits_of :: "string \<Rightarrow> (string \<times> string) option" where
  "digits_of s = (let ds = takeWhile is_digit s in
     if ds = [] then None else Some (ds, dropWhile is_digit s))"

definition int_part :: "string \<Rightarrow> (string \<times> string) option" where
  "int_part s = (case s of
     [] \<Rightarrow> None
   | c # cs \<Rightarrow> if c = CHR ''0'' then Some (''0'', cs) else digits_of s)"

definition frac_part :: "string \<Rightarrow> (string \<times> string) option" where
  "frac_part s = (case s of
     [] \<Rightarrow> Some ([], [])
   | c # cs \<Rightarrow> if c = CHR ''.'' then map_option (apfst (Cons c)) (digits_of cs) else Some ([], s))"

definition exp_part :: "string \<Rightarrow> (string \<times> string) option" where
  "exp_part s = (case s of
     [] \<Rightarrow> Some ([], [])
   | c # cs \<Rightarrow>
       if c = CHR ''e'' \<or> c = CHR ''E'' then
         (case cs of
            [] \<Rightarrow> None
          | d # ds \<Rightarrow>
              if d = CHR ''+'' \<or> d = CHR ''-'' then map_option (apfst (\<lambda>x. c # d # x)) (digits_of ds)
              else map_option (apfst (Cons c)) (digits_of cs))
       else Some ([], s))"

definition parse_number :: "string \<Rightarrow> (json \<times> string) option" where
  "parse_number s =
     (let (sg, s0) = (case s of [] \<Rightarrow> ([], s) | c # cs \<Rightarrow> if c = CHR ''-'' then ([c], cs) else ([], s))
      in case int_part s0 of
           None \<Rightarrow> None
         | Some (i, s1) \<Rightarrow>
             (case frac_part s1 of
                None \<Rightarrow> None
              | Some (f, s2) \<Rightarrow>
                  (case exp_part s2 of
                     None \<Rightarrow> None
                   | Some (e, s3) \<Rightarrow> Some (JNum (sg @ i @ f @ e), s3))))"

definition keyword :: "string \<Rightarrow> json \<Rightarrow> string \<Rightarrow> (json \<times> string) option" where
  "keyword k v s = (if prefix k s then Some (v, drop (length k) s) else None)"

lemma length_skip_ws [simp]: "length (skip_ws s) \<le> length s"
  by (simp add: skip_ws_def length_dropWhile_le)

lemma skip_ws_Cons_length: "skip_ws s = c # r \<Longrightarrow> length r < length s"
  by (metis Suc_le_eq length_Cons length_skip_ws)

section \<open>Values\<close>

text \<open>
  The comparisons of lengths hold whenever they are evaluated; they let the recursion
  terminate by the length of the input alone, so there is no bound on the size of a document.
\<close>

function (sequential)
  parse_value :: "string \<Rightarrow> (json \<times> string) option" and
  parse_elems :: "string \<Rightarrow> (json list \<times> string) option" and
  parse_members :: "string \<Rightarrow> ((string \<times> json) list \<times> string) option" where
  "parse_value s =
    (case skip_ws s of
       [] \<Rightarrow> None
     | c # r \<Rightarrow>
         if c = CHR ''{'' then
           (case skip_ws r of
              [] \<Rightarrow> None
            | d # r' \<Rightarrow> if d = CHR ''}'' then Some (JObj [], r') else map_option (apfst JObj) (parse_members r))
         else if c = CHR ''['' then
           (case skip_ws r of
              [] \<Rightarrow> None
            | d # r' \<Rightarrow> if d = CHR '']'' then Some (JArr [], r') else map_option (apfst JArr) (parse_elems r))
         else if c = char_of (34::nat) then map_option (apfst JStr) (parse_chars None r)
         else if c = CHR ''t'' then keyword ''rue'' (JBool True) r
         else if c = CHR ''f'' then keyword ''alse'' (JBool False) r
         else if c = CHR ''n'' then keyword ''ull'' JNull r
         else parse_number (c # r))"
| "parse_elems s =
    (case parse_value s of
       None \<Rightarrow> None
     | Some (v, r) \<Rightarrow>
         (case skip_ws r of
            [] \<Rightarrow> None
          | c # r' \<Rightarrow>
              if c = CHR '','' \<and> length r' < length s then map_option (apfst (Cons v)) (parse_elems r')
              else if c = CHR '']'' then Some ([v], r')
              else None))"
| "parse_members s =
    (case skip_ws s of
       [] \<Rightarrow> None
     | q # r \<Rightarrow>
         if q \<noteq> char_of (34::nat) then None
         else (case parse_chars None r of
                 None \<Rightarrow> None
               | Some (k, r1) \<Rightarrow>
                   (case skip_ws r1 of
                      [] \<Rightarrow> None
                    | c # r2 \<Rightarrow>
                        if c = CHR '':'' \<and> length r2 < length s then
                          (case parse_value r2 of
                             None \<Rightarrow> None
                           | Some (v, r3) \<Rightarrow>
                               (case skip_ws r3 of
                                  [] \<Rightarrow> None
                                | d # r4 \<Rightarrow>
                                    if d = CHR '','' \<and> length r4 < length s
                                    then map_option (apfst (Cons (k, v))) (parse_members r4)
                                    else if d = CHR ''}'' then Some ([(k, v)], r4)
                                    else None))
                        else None)))"
  by pat_completeness auto
termination
  by (relation "measure (case_sum (\<lambda>s. 2 * length s)
        (case_sum (\<lambda>s. 2 * length s + 1) (\<lambda>s. 2 * length s + 1)))")
     (auto dest: skip_ws_Cons_length)

declare parse_value.simps [simp del] parse_elems.simps [simp del] parse_members.simps [simp del]

text \<open>A document is one value with nothing but white space after it.\<close>

definition parse_json :: "string \<Rightarrow> json option" where
  "parse_json s = (case parse_value s of
     None \<Rightarrow> None
   | Some (v, r) \<Rightarrow> if skip_ws r = [] then Some v else None)"

section \<open>Decoding into Go data\<close>

text \<open>
  A decoder maps a value and the old contents of the target to the new contents and whether the
  value (or a part of it) had the wrong type.
\<close>

type_synonym 'a dec = "json \<Rightarrow> 'a \<Rightarrow> 'a \<times> bool"

definition dec_string :: "string dec" where
  "dec_string v old = (case v of JStr s \<Rightarrow> (s, False) | JNull \<Rightarrow> (old, False) | _ \<Rightarrow> (old, True))"

definition dec_bool :: "bool dec" where
  "dec_bool v old = (case v of JBool b \<Rightarrow> (b, False) | JNull \<Rightarrow> (old, False) | _ \<Rightarrow> (old, True))"

definition parse_dec :: "string \<Rightarrow> int option" where
  "parse_dec s = (if s \<noteq> [] \<and> list_all is_digit s
     then Some (int (foldl (\<lambda>n c. 10 * n + (of_char c - 48)) 0 s)) else None)"

definition literal_int :: "string \<Rightarrow> int option" where
  "literal_int s = (case s of
     [] \<Rightarrow> None
   | c # cs \<Rightarrow> if c = CHR ''-'' then map_option uminus (parse_dec cs) else parse_dec s)"

definition dec_int :: "int dec" where
  "dec_int v old = (case v of
     JNum l \<Rightarrow> (case literal_int l of
                  Some i \<Rightarrow> if int64_range i then (i, False) else (old, True)
                | None \<Rightarrow> (old, True))
   | JNull \<Rightarrow> (old, False)
   | _ \<Rightarrow> (old, True))"

definition dec_uint8 :: "(8 word) dec" where
  "dec_uint8 v old = (case v of
     JNum l \<Rightarrow> (case parse_dec l of
                  Some i \<Rightarrow> if i < 256 then (word_of_int i, False) else (old, True)
                | None \<Rightarrow> (old, True))
   | JNull \<Rightarrow> (old, False)
   | _ \<Rightarrow> (old, True))"

text \<open>
  The value of a decimal literal, as its digits and the power of ten they are scaled by; and
  whether it is out of range for a binary float with \<open>p\<close> bits of precision and exponents below
  \<open>hi\<close>: rounding to nearest gives infinity from halfway between the largest finite value and
  \<open>2 ^ hi\<close> on. A literal too small for the type becomes zero and is no error.
\<close>

definition dec_value :: "string \<Rightarrow> int" where
  "dec_value s = foldl (\<lambda>n c. 10 * n + (of_char c - 48)) 0 s"

definition exp_value :: "string \<Rightarrow> int" where
  "exp_value s = (case s of
     [] \<Rightarrow> 0
   | c # cs \<Rightarrow> if c = CHR ''-'' then - dec_value cs
       else if c = CHR ''+'' then dec_value cs else dec_value s)"

definition decimal :: "string \<Rightarrow> int \<times> int" where
  "decimal l =
     (let s = (if take 1 l = ''-'' then drop 1 l else l);
          r = dropWhile is_digit s;
          f = (if take 1 r = ''.'' then takeWhile is_digit (drop 1 r) else []);
          e = (if take 1 r = ''.'' then dropWhile is_digit (drop 1 r) else r)
      in (dec_value (takeWhile is_digit s @ f), exp_value (drop 1 e) - int (length f)))"

definition float_range_error :: "nat \<Rightarrow> nat \<Rightarrow> string \<Rightarrow> bool" where
  "float_range_error p hi l =
     (let (m, e) = decimal l; limit = 2 ^ hi - 2 ^ (hi - p - 1)
      in if 0 \<le> e then limit \<le> m * 10 ^ nat e else limit * 10 ^ nat (- e) \<le> m)"

text \<open>A \<open>float32\<close> target is kept as the literal that was read into it.\<close>

definition dec_float :: "string dec" where
  "dec_float v old = (case v of
     JNum l \<Rightarrow> if float_range_error 24 128 l then (old, True) else (l, False)
   | JNull \<Rightarrow> (old, False)
   | _ \<Rightarrow> (old, True))"

text \<open>
  An \<open>interface{}\<close> target takes any value, but a number in it must be in the range of \<open>float64\<close>:
  one that is not is an error, and \<open>nil\<close> where it stands inside an array or an object.
  An \<open>error\<close> target takes only \<open>null\<close>.
\<close>

fun any_json :: "json \<Rightarrow> json \<times> bool" and any_jsons :: "json list \<Rightarrow> json list \<times> bool"
  and any_members :: "(string \<times> json) list \<Rightarrow> (string \<times> json) list \<times> bool" where
  "any_json (JNum l) = (if float_range_error 53 1024 l then (JNull, True) else (JNum l, False))"
| "any_json (JArr vs) = apfst JArr (any_jsons vs)"
| "any_json (JObj m) = apfst JObj (any_members m)"
| "any_json v = (v, False)"
| "any_jsons [] = ([], False)"
| "any_jsons (v # vs) =
     (let (v', bad) = any_json v; (vs', bad') = any_jsons vs in (v' # vs', bad \<or> bad'))"
| "any_members [] = ([], False)"
| "any_members ((k, v) # m) =
     (let (v', bad) = any_json v; (m', bad') = any_members m in ((k, v') # m', bad \<or> bad'))"

definition dec_any :: "json dec" where
  "dec_any v old = (case v of
     JNum l \<Rightarrow> if float_range_error 53 1024 l then (old, True) else (v, False)
   | _ \<Rightarrow> any_json v)"

definition dec_error :: "err option dec" where
  "dec_error v old = (case v of JNull \<Rightarrow> (None, False) | _ \<Rightarrow> (old, True))"

definition dec_ptr :: "'a \<Rightarrow> 'a dec \<Rightarrow> 'a option dec" where
  "dec_ptr zero d v old = (case v of
     JNull \<Rightarrow> (None, False)
   | _ \<Rightarrow> apfst Some (d v (case old of None \<Rightarrow> zero | Some x \<Rightarrow> x)))"

definition dec_slice :: "'a \<Rightarrow> 'a dec \<Rightarrow> 'a list dec" where
  "dec_slice zero d v old = (case v of
     JNull \<Rightarrow> ([], False)
   | JArr vs \<Rightarrow> (map (\<lambda>x. fst (d x zero)) vs, list_ex (\<lambda>x. snd (d x zero)) vs)
   | _ \<Rightarrow> (old, True))"

text \<open>A slice whose \<open>nil\<close> differs from an empty one, as an option.\<close>

definition dec_slice_opt :: "'a \<Rightarrow> 'a dec \<Rightarrow> 'a list option dec" where
  "dec_slice_opt zero d v old = (case v of
     JNull \<Rightarrow> (None, False)
   | JArr vs \<Rightarrow> apfst Some (dec_slice zero d v [])
   | _ \<Rightarrow> (old, True))"

fun dec_entries :: "'a \<Rightarrow> 'a dec \<Rightarrow> (string \<times> json) list \<Rightarrow> (string \<times> 'a) list \<Rightarrow> (string \<times> 'a) list \<times> bool" where
  "dec_entries zero d [] m = (m, False)"
| "dec_entries zero d ((k, v) # kvs) m =
     (let (x, bad) = d v zero; (m', bad') = dec_entries zero d kvs (AList.update k x m)
      in (m', bad \<or> bad'))"

definition dec_map :: "'a \<Rightarrow> 'a dec \<Rightarrow> (string \<times> 'a) list dec" where
  "dec_map zero d v old = (case v of
     JNull \<Rightarrow> ([], False)
   | JObj kvs \<Rightarrow> dec_entries zero d kvs old
   | _ \<Rightarrow> (old, True))"

text \<open>A struct field matches a key exactly, or failing that up to case.\<close>

definition find_field :: "(string \<times> 'f) list \<Rightarrow> string \<Rightarrow> 'f option" where
  "find_field fs k = (case map_of fs k of
     Some f \<Rightarrow> Some f
   | None \<Rightarrow> map_of (map (apfst ToLower) fs) (ToLower k))"

fun dec_fields :: "(string \<times> 's dec) list \<Rightarrow> (string \<times> json) list \<Rightarrow> 's \<Rightarrow> 's \<times> bool" where
  "dec_fields fs [] s = (s, False)"
| "dec_fields fs ((k, v) # kvs) s =
     (let (s', bad) = (case find_field fs k of None \<Rightarrow> (s, False) | Some f \<Rightarrow> f v s);
          (s'', bad') = dec_fields fs kvs s'
      in (s'', bad \<or> bad'))"

definition dec_struct :: "(string \<times> 's dec) list \<Rightarrow> 's dec" where
  "dec_struct fs v old = (case v of
     JNull \<Rightarrow> (old, False)
   | JObj kvs \<Rightarrow> dec_fields fs kvs old
   | _ \<Rightarrow> (old, True))"

text \<open>A field given by its tag, selector, update function and decoder.\<close>

definition json_field :: "string \<Rightarrow> ('s \<Rightarrow> 'a) \<Rightarrow> (('a \<Rightarrow> 'a) \<Rightarrow> 's \<Rightarrow> 's) \<Rightarrow> 'a dec \<Rightarrow> string \<times> 's dec" where
  "json_field tag sel upd d = (tag, \<lambda>v s. apfst (\<lambda>x. upd (\<lambda>_. x) s) (d v (sel s)))"

definition Unmarshal :: "'a dec \<Rightarrow> string \<Rightarrow> 'a \<Rightarrow> 'a \<times> err option" where
  "Unmarshal d body old = (case parse_json body of
     None \<Rightarrow> (old, Some ''invalid JSON'')
   | Some v \<Rightarrow> (let (x, bad) = d v old in (x, if bad then Some ''json: cannot unmarshal'' else None)))"

text \<open>\<open>json.NewDecoder(f).Decode\<close> takes the first value of the stream and ignores the rest.\<close>

definition Decode :: "'a dec \<Rightarrow> string \<Rightarrow> 'a \<Rightarrow> 'a \<times> err option" where
  "Decode d body old = (case parse_value body of
     None \<Rightarrow> (old, Some ''invalid JSON'')
   | Some (v, r) \<Rightarrow> (let (x, bad) = d v old in (x, if bad then Some ''json: cannot unmarshal'' else None)))"

text \<open>
  Reading a decoded \<open>map[string]interface{}\<close>: of a repeated key the last value counts.
  \<open>as_map\<close> and \<open>as_str\<close> and \<open>as_list\<close> are the type assertions with the \<open>ok\<close> result.
\<close>

definition obj_get :: "(string \<times> json) list \<Rightarrow> string \<Rightarrow> json option" where
  "obj_get m k = map_of (rev m) k"

definition as_map :: "json \<Rightarrow> (string \<times> json) list option" where
  "as_map v = (case v of JObj m \<Rightarrow> Some m | _ \<Rightarrow> None)"

definition as_list :: "json \<Rightarrow> json list option" where
  "as_list v = (case v of JArr vs \<Rightarrow> Some vs | _ \<Rightarrow> None)"

definition as_str :: "json \<Rightarrow> string option" where
  "as_str v = (case v of JStr s \<Rightarrow> Some s | _ \<Rightarrow> None)"

definition dec_obj :: "(string \<times> json) list dec" where
  "dec_obj v old = (case v of
     JNull \<Rightarrow> ([], False)
   | JObj m \<Rightarrow> (let (m', bad) = any_members m in (old @ m', bad))
   | _ \<Rightarrow> (old, True))"

section \<open>Facts about decoding\<close>

lemma dec_int_range: "int64_range old \<Longrightarrow> int64_range (fst (dec_int v old))"
  by (auto simp: dec_int_def split: json.splits option.splits)

lemma distinct_dec_entries:
  "distinct (map fst m) \<Longrightarrow> distinct (map fst (fst (dec_entries zero d kvs m)))"
  by (induction zero d kvs m rule: dec_entries.induct) (auto simp: distinct_update split: prod.splits)

lemma distinct_dec_map: "distinct (map fst old) \<Longrightarrow> distinct (map fst (fst (dec_map zero d v old)))"
  by (auto simp: dec_map_def distinct_dec_entries split: json.splits)

lemma dec_error_never_set: "fst (dec_error v None) = None"
  by (auto simp: dec_error_def split: json.splits)

lemma set_update_subset: "set (AList.update k v m) \<subseteq> insert (k, v) (set m)"
  by (induction m) auto

lemma dec_entries_range:
  assumes d: "\<And>x. P (fst (d x zero))"
  shows "\<forall>e\<in>set m. P (snd e) \<Longrightarrow> \<forall>e\<in>set (fst (dec_entries zero d kvs m)). P (snd e)"
proof (induction kvs arbitrary: m)
  case (Cons kv kvs)
  obtain k v where kv: "kv = (k, v)" by (cases kv)
  have "\<forall>e\<in>set (AList.update k (fst (d v zero)) m). P (snd e)"
    using Cons.prems d [of v] set_update_subset [of k "fst (d v zero)" m] by fastforce
  from Cons.IH [OF this] show ?case by (simp add: kv split: prod.splits)
qed simp

text \<open>A struct decoder keeps whatever every field decoder keeps.\<close>

lemma find_field_in:
  assumes "find_field fs k = Some f"
  shows "f \<in> snd ` set fs"
proof (cases "map_of fs k")
  case None
  with assms have "map_of (map (apfst ToLower) fs) (ToLower k) = Some f" by (simp add: find_field_def)
  then have "(ToLower k, f) \<in> apfst ToLower ` set fs" using map_of_SomeD by fastforce
  then show ?thesis by force
next
  case (Some g)
  with assms have "(k, f) \<in> set fs" by (simp add: find_field_def map_of_SomeD)
  then show ?thesis by force
qed

lemma dec_fields_inv:
  assumes "\<And>f v s. f \<in> snd ` set fs \<Longrightarrow> I s \<Longrightarrow> I (fst (f v s))"
  shows "I s \<Longrightarrow> I (fst (dec_fields fs kvs s))"
proof (induction kvs arbitrary: s)
  case (Cons kv kvs)
  obtain k v where kv: "kv = (k, v)" by (cases kv)
  have "I (fst (case find_field fs k of None \<Rightarrow> (s, False) | Some f \<Rightarrow> f v s))"
  proof (cases "find_field fs k")
    case (Some f)
    from assms [OF find_field_in [OF Some] Cons.prems] Some show ?thesis by simp
  qed (use Cons.prems in simp)
  from Cons.IH [OF this] show ?case by (simp add: kv case_prod_beta Let_def)
qed simp

lemma dec_struct_inv:
  assumes "\<And>f v s. f \<in> snd ` set fs \<Longrightarrow> I s \<Longrightarrow> I (fst (f v s))" and "I s"
  shows "I (fst (dec_struct fs v s))"
proof -
  have "I (fst (dec_fields fs kvs s))" for kvs
    by (rule dec_fields_inv) (use assms in auto)
  with assms(2) show ?thesis by (auto simp: dec_struct_def split: json.splits)
qed

end
