(* ===== verification/World.thy ===== *)
theory World
  imports Json
begin

text \<open>
  Everything the program reaches outside its own code, as a record of functions over a state of
  the world: HTTP servers, child processes, the Docker daemon, the file system, random numbers,
  time. The record is an argument of the operations that use it, so every theorem holds for every
  such environment; what the code relies on is stated where it is used. Also the data of packages
  \<open>net/http\<close> and \<open>crypto/tls\<close> that the program builds.
\<close>

section \<open>Data of the standard library\<close>

text \<open>A certificate pool: whether it started from the system pool, and the PEM files appended.\<close>

type_synonym cert_pool = "bool \<times> string list"

datatype client_auth = NoClientCert | RequireAndVerifyClientCert

record tls_config =
  tc_Certificates :: "string list"
  tc_MinVersion :: "16 word"
  tc_CurvePreferences :: "16 word list"
  tc_CipherSuites :: "16 word list"
  tc_PreferServerCipherSuites :: bool
  tc_ClientCAs :: "cert_pool option"
  tc_ClientAuth :: client_auth
  tc_InsecureSkipVerify :: bool
  tc_RootCAs :: "cert_pool option"

definition zero_tls_config :: tls_config where
  "zero_tls_config = \<lparr>tc_Certificates = [], tc_MinVersion = 0, tc_CurvePreferences = [],
     tc_CipherSuites = [], tc_PreferServerCipherSuites = False, tc_ClientCAs = None,
     tc_ClientAuth = NoClientCert, tc_InsecureSkipVerify = False, tc_RootCAs = None\<rparr>"

text \<open>An entry of \<open>tls.CipherSuites()\<close>.\<close>

record cipher_suite =
  cs_Name :: string
  cs_ID :: "16 word"
  cs_Insecure :: bool

text \<open>Durations are in nanoseconds, as \<open>time.Duration\<close> is.\<close>

definition Second :: int where
  "Second = 1000000000"

definition Millisecond :: int where
  "Millisecond = 1000000"

record http_client =
  hc_DialTimeout :: int
  hc_TLSHandshakeTimeout :: int
  hc_TLSClientConfig :: "tls_config option"
  hc_Timeout :: int

record http_request =
  hq_Method :: string
  hq_Url :: string
  hq_ContentType :: string
  hq_Body :: string

record http_response =
  hr_StatusCode :: int
  hr_Status :: string
  hr_Body :: string

section \<open>The environment\<close>

text \<open>
  \<^item> \<open>new_request\<close>: the error of \<open>http.NewRequest\<close> for a method and a URL, if any;
  \<^item> \<open>client_do\<close>: \<open>http.Client.Do\<close> with the whole response body, or its error; it always
    answers, since every client of the program has a request timeout (\<open>NewHttpClient\<close>);
  \<^item> \<open>cmd_run\<close>: \<open>exec.Command(name, args...).Run()\<close> on a command line. It waits for the
    command without a time limit: \<open>None\<close> is a command that never ends, \<open>Some\<close> the error it
    ended with, if any;
  \<^item> \<open>docker_client\<close>: the error of constructing a Docker client, if any; \<open>container_stop\<close>,
    \<open>container_start\<close>: the calls to the daemon, under \<open>context.Background()\<close>, so without a
    time limit either: \<open>None\<close> is a call that is never answered;
  \<^item> \<open>rand_intn\<close>: \<open>rand.Intn\<close> after seeding; \<open>sleep\<close>: \<open>time.Sleep\<close>;
  \<^item> \<open>url_parse\<close>: the error of \<open>url.Parse\<close>, if any;
  \<^item> \<open>load_key_pair\<close>, \<open>read_file\<close>, \<open>system_pool_ok\<close>: key pair files, other files, and
    whether the system certificate pool loads;
  \<^item> \<open>read_config\<close>: reading a configuration file, which others may rewrite between two reads;
  \<^item> \<open>cipher_suites\<close>: \<open>tls.CipherSuites()\<close>;
  \<^item> \<open>arrival_order\<close>: the order in which \<open>n\<close> goroutines run, \<open>first_first\<close>: of a pair of
    goroutines, whether the one started first runs first.
\<close>

record 'w env =
  new_request :: "string \<Rightarrow> string \<Rightarrow> err option"
  client_do :: "http_client \<Rightarrow> http_request \<Rightarrow> 'w \<Rightarrow> (err + http_response) \<times> 'w"
  cmd_run :: "string list \<Rightarrow> 'w \<Rightarrow> err option option \<times> 'w"
  docker_client :: "'w \<Rightarrow> err option \<times> 'w"
  container_stop :: "string \<Rightarrow> 'w \<Rightarrow> err option option \<times> 'w"
  container_start :: "string \<Rightarrow> 'w \<Rightarrow> err option option \<times> 'w"
  rand_intn :: "int \<Rightarrow> 'w \<Rightarrow> int \<times> 'w"
  sleep :: "int \<Rightarrow> 'w \<Rightarrow> 'w"
  url_parse :: "string \<Rightarrow> err option"
  load_key_pair :: "string \<Rightarrow> string \<Rightarrow> 'w \<Rightarrow> err + string"
  read_file :: "string \<Rightarrow> 'w \<Rightarrow> err + string"
  read_config :: "string \<Rightarrow> 'w \<Rightarrow> (err + string) \<times> 'w"
  system_pool_ok :: "'w \<Rightarrow> bool"
  cipher_suites :: "cipher_suite list"
  arrival_order :: "nat \<Rightarrow> 'w \<Rightarrow> nat list"
  first_first :: "'w \<Rightarrow> bool"

text \<open>The documented range of \<open>rand.Intn(n)\<close>.\<close>

definition rand_ok :: "'w env \<Rightarrow> bool" where
  "rand_ok env \<longleftrightarrow> (\<forall>n w. 0 < n \<longrightarrow> 0 \<le> fst (rand_intn env n w) \<and> fst (rand_intn env n w) < n)"

lemma rand_okD: "rand_ok env \<Longrightarrow> 0 < n \<Longrightarrow> rand_intn env n w = (r, w') \<Longrightarrow> 0 \<le> r \<and> r < n"
  by (metis fst_conv rand_ok_def)

text \<open>
  The outcome of a call without a time limit; and the environments in which every such call
  ends, which nothing in the program enforces.
\<close>

definition awaited :: "'a option \<Rightarrow> 'a go" where
  "awaited r = (case r of None \<Rightarrow> Hang | Some x \<Rightarrow> Ret x)"

lemma awaited_simps [simp]: "awaited None = Hang" "awaited (Some x) = Ret x"
  by (simp_all add: awaited_def)

lemma awaited_eq [simp]:
  "awaited r = Ret x \<longleftrightarrow> r = Some x" "awaited r = Hang \<longleftrightarrow> r = None" "awaited r \<noteq> Panic m"
  by (cases r, simp_all)+

definition calls_return :: "'w env \<Rightarrow> bool" where
  "calls_return env \<longleftrightarrow> (\<forall>c w. fst (cmd_run env c w) \<noteq> None) \<and>
     (\<forall>i w. fst (container_stop env i w) \<noteq> None) \<and> (\<forall>i w. fst (container_start env i w) \<noteq> None)"

lemma calls_returnD:
  assumes "calls_return env"
  shows "cmd_run env c w \<noteq> (None, w')" "container_stop env i w \<noteq> (None, w')"
    "container_start env i w \<noteq> (None, w')"
  using assms by (metis calls_return_def fst_conv)+

text \<open>A schedule runs every goroutine once.\<close>

definition sched_ok :: "'w env \<Rightarrow> bool" where
  "sched_ok env \<longleftrightarrow> (\<forall>n w. mset (arrival_order env n w) = mset [0..<n])"

definition scheduled :: "'w env \<Rightarrow> 'w \<Rightarrow> 'a list \<Rightarrow> 'a list" where
  "scheduled env w xs = map ((!) xs) (arrival_order env (length xs) w)"

lemma mset_scheduled: "sched_ok env \<Longrightarrow> mset (scheduled env w xs) = mset xs"
proof -
  assume "sched_ok env"
  then have "mset (map ((!) xs) (arrival_order env (length xs) w)) = mset (map ((!) xs) [0..<length xs])"
    by (simp add: sched_ok_def)
  then show ?thesis by (simp add: scheduled_def map_nth)
qed

section \<open>A scripted environment\<close>

text \<open>
  A concrete environment for closed examples: the world is the list of outcomes of the calls
  still to come, each taken by the next call of any kind; with no outcome left every call fails.
  \<open>NoReply\<close> is a command that never ends, or an HTTP request that times out.
  Random numbers are 0, files other than configuration files are empty, goroutines run in the
  order they were started.
\<close>

datatype outcome = Ok200 string | HttpStatus int string | CallErr err | CallOk | NoReply

type_synonym script = "outcome list"

fun script_http :: "script \<Rightarrow> (err + http_response) \<times> script" where
  "script_http [] = (Inl ''connection refused'', [])"
| "script_http (Ok200 b # s) = (Inr \<lparr>hr_StatusCode = 200, hr_Status = ''200 OK'', hr_Body = b\<rparr>, s)"
| "script_http (HttpStatus c b # s) = (Inr \<lparr>hr_StatusCode = c, hr_Status = show_int c, hr_Body = b\<rparr>, s)"
| "script_http (CallErr e # s) = (Inl e, s)"
| "script_http (CallOk # s) = (Inl ''EOF'', s)"
| "script_http (NoReply # s) = (Inl ''request canceled'', s)"

fun script_read :: "script \<Rightarrow> (err + string) \<times> script" where
  "script_read [] = (Inl ''no such file'', [])"
| "script_read (Ok200 b # s) = (Inr b, s)"
| "script_read (_ # s) = (Inl ''no such file'', s)"

fun script_call :: "script \<Rightarrow> err option option \<times> script" where
  "script_call [] = (Some (Some ''exit status 1''), [])"
| "script_call (CallOk # s) = (Some None, s)"
| "script_call (CallErr e # s) = (Some (Some e), s)"
| "script_call (NoReply # s) = (None, s)"
| "script_call (_ # s) = (Some (Some ''exit status 1''), s)"

definition script_env :: "script env" where
  "script_env = \<lparr>new_request = (\<lambda>m u. None), client_do = (\<lambda>c q. script_http),
     cmd_run = (\<lambda>c. script_call), docker_client = (\<lambda>w. (None, w)),
     container_stop = (\<lambda>c. script_call), container_start = (\<lambda>c. script_call),
     rand_intn = (\<lambda>n w. (0, w)), sleep = (\<lambda>d w. w), url_parse = (\<lambda>u. None),
     load_key_pair = (\<lambda>c k w. Inr (c @ k)), read_file = (\<lambda>f w. Inr []),
     read_config = (\<lambda>f. script_read), system_pool_ok = (\<lambda>w. True), cipher_suites = [],
     arrival_order = (\<lambda>n w. [0..<n]), first_first = (\<lambda>w. True)\<rparr>"

lemma script_env_simps [simp]:
  "new_request script_env m u = None"
  "client_do script_env c q = script_http"
  "cmd_run script_env a = script_call"
  "docker_client script_env w = (None, w)"
  "container_stop script_env i = script_call"
  "container_start script_env i = script_call"
  "rand_intn script_env n w = (0, w)"
  "sleep script_env d w = w"
  "url_parse script_env u = None"
  "load_key_pair script_env cf kf w = Inr (cf @ kf)"
  "read_file script_env f w = Inr []"
  "system_pool_ok script_env w = True"
  "read_config script_env f = script_read"
  "cipher_suites script_env = []"
  "arrival_order script_env k w = [0..<k]"
  "first_first script_env w = True"
  by (simp_all add: script_env_def)

lemma rand_ok_script_env: "rand_ok script_env"
  by (simp add: rand_ok_def)

lemma sched_ok_script_env: "sched_ok script_env"
  by (simp add: sched_ok_def)

lemma scheduled_script_env [simp]: "scheduled script_env w xs = xs"
  by (simp add: scheduled_def map_nth)

end
