(* ===== verification/Core.thy ===== *)
theory Core
  imports World
begin

text \<open>
  Package \<open>core\<close>: the client and node statuses (\<open>core/status.go\<close>), the fixed parameters and
  messages (\<open>core/params.go\<close>, \<open>core/errors.go\<close>), and the HTTP and JSON-RPC calls
  (\<open>core/util.go\<close>).
\<close>

section \<open>Statuses\<close>

type_synonym ClientStatus = "8 word"

definition Up :: ClientStatus where [simp]: "Up = 1"
definition Down :: ClientStatus where [simp]: "Down = 2"

type_synonym NodeStatus = "8 word"

definition ShutdownInprogress :: NodeStatus where [simp]: "ShutdownInprogress = 1"
definition StartupInprogress :: NodeStatus where [simp]: "StartupInprogress = 2"
definition ConsensusWait :: NodeStatus where [simp]: "ConsensusWait = 3"
definition OK :: NodeStatus where [simp]: "OK = 4"

section \<open>Parameters and errors\<close>

definition HttpClientRequestTimeout :: int where "HttpClientRequestTimeout = 10 * Second"
definition HttpClientRequestDialerTimeout :: int where "HttpClientRequestDialerTimeout = 10 * Second"
definition TLSHandshakeTimeout :: int where "TLSHandshakeTimeout = 10 * Second"

definition NodeIsBeingShutdown :: err where
  "NodeIsBeingShutdown = ''node is being shutdown, try after sometime''"
definition NodeIsBeingStarted :: err where
  "NodeIsBeingStarted = ''node is being started, try after sometime''"
definition SomeParticipantsDown :: err where
  "SomeParticipantsDown = ''Some participant nodes are down''"
definition NodeIsNotReadyToAcceptRequest :: err where
  "NodeIsNotReadyToAcceptRequest = ''node is not ready to accept request''"

definition ErrNodeDown :: err where
  "ErrNodeDown = ''node is not up''"

section \<open>Calls\<close>

definition NewHttpClient :: "tls_config option \<Rightarrow> http_client" where
  "NewHttpClient tls = \<lparr>hc_DialTimeout = HttpClientRequestDialerTimeout,
     hc_TLSHandshakeTimeout = TLSHandshakeTimeout, hc_TLSClientConfig = tls,
     hc_Timeout = HttpClientRequestTimeout\<rparr>"

definition defaultClient :: http_client where
  "defaultClient = NewHttpClient None"

definition RandomInt :: "'w env \<Rightarrow> int \<Rightarrow> int \<Rightarrow> 'w \<Rightarrow> int go \<times> 'w" where
  "RandomInt env lo hi w =
     (let n = go_add (go_sub hi lo) 1 in
      if n \<le> 0 then (Panic ''invalid argument to Intn'', w)
      else (let (r, w1) = rand_intn env n w in (Ret (go_add r lo), w1)))"

definition httpRequest ::
  "'w env \<Rightarrow> http_client option \<Rightarrow> string \<Rightarrow> string \<Rightarrow> string \<Rightarrow> 'a dec \<Rightarrow> 'a \<Rightarrow> bool \<Rightarrow> 'w
   \<Rightarrow> (string \<times> err option \<times> 'a) \<times> 'w" where
  "httpRequest env client rpcUrl meth rpcReq dec resData returnRaw w =
     (let client1 = (case client of None \<Rightarrow> defaultClient | Some c \<Rightarrow> c) in
      case new_request env meth rpcUrl of
        Some e \<Rightarrow> (('''', Some (''CallRPC - creating request failed err='' @ e), resData), w)
      | None \<Rightarrow>
          (let req = \<lparr>hq_Method = meth, hq_Url = rpcUrl, hq_ContentType = ''application/json'', hq_Body = rpcReq\<rparr>;
               (r, w1) = client_do env client1 req w
           in case r of
                Inl e \<Rightarrow> (('''', Some (''CallRPC - do req failed err='' @ e), resData), w1)
              | Inr resp \<Rightarrow>
                  if hr_StatusCode resp \<noteq> 200 then
                    (('''', Some (''CallRPC - response status failed, not OK, status='' @ hr_Status resp), resData), w1)
                  else if returnRaw then ((hr_Body resp, None, resData), w1)
                  else (let (x, e) = Unmarshal dec (hr_Body resp) resData in (('''', e, x), w1))))"

definition CallRPC :: "'w env \<Rightarrow> http_client option \<Rightarrow> string \<Rightarrow> string \<Rightarrow> 'a dec \<Rightarrow> 'a \<Rightarrow> 'w
    \<Rightarrow> (err option \<times> 'a) \<times> 'w" where
  "CallRPC env client rpcUrl rpcReq dec resData w =
     (let ((_, e, x), w1) = httpRequest env client rpcUrl ''POST'' rpcReq dec resData False w in ((e, x), w1))"

definition CallREST :: "'w env \<Rightarrow> http_client option \<Rightarrow> string \<Rightarrow> string \<Rightarrow> string \<Rightarrow> 'w
    \<Rightarrow> (string \<times> err option) \<times> 'w" where
  "CallREST env client rpcUrl meth rpcReq w =
     (let ((s, e, _), w1) = httpRequest env client rpcUrl meth rpcReq dec_any JNull True w in ((s, e), w1))"

record RpcError =
  re_Code :: int
  re_Message :: string
  re_Data :: json

definition zero_RpcError :: RpcError where
  "zero_RpcError = \<lparr>re_Code = 0, re_Message = '''', re_Data = JNull\<rparr>"

definition dec_RpcError :: "RpcError dec" where
  "dec_RpcError = dec_struct
     [json_field ''code'' re_Code re_Code_update dec_int,
      json_field ''message'' re_Message re_Message_update dec_string,
      json_field ''data'' re_Data re_Data_update dec_any]"

text \<open>The text of an RPC error, given how \<open>%v\<close> prints its data.\<close>

fun show_json :: "json \<Rightarrow> string" and show_jsons :: "json list \<Rightarrow> string"
  and show_members :: "(string \<times> json) list \<Rightarrow> string" where
  "show_json JNull = ''<nil>''"
| "show_json (JBool b) = (if b then ''true'' else ''false'')"
| "show_json (JNum l) = l"
| "show_json (JStr s) = s"
| "show_json (JArr vs) = ''['' @ show_jsons vs @ '']''"
| "show_json (JObj m) = ''map['' @ show_members m @ '']''"
| "show_jsons [] = []"
| "show_jsons [v] = show_json v"
| "show_jsons (v # vs) = show_json v @ '' '' @ show_jsons vs"
| "show_members [] = []"
| "show_members [(k, v)] = k @ '':'' @ show_json v"
| "show_members ((k, v) # m) = k @ '':'' @ show_json v @ '' '' @ show_members m"

definition RpcError_Error :: "RpcError \<Rightarrow> string" where
  "RpcError_Error e = ''code = '' @ show_int (re_Code e) @ '', message = '' @ re_Message e
     @ '', data = '' @ show_json (re_Data e)"

text \<open>
  The answers of the JSON-RPC methods all have the shape \<open>{"result": R, "error": RpcError}\<close>, one
  Go struct for each \<open>R\<close>, and every getter has the same body: the call's error, else the
  answer's error, else the result.
\<close>

record 'a rpc_resp =
  resp_Result :: 'a
  resp_Error :: "RpcError option"

definition dec_resp :: "'a dec \<Rightarrow> 'a rpc_resp dec" where
  "dec_resp d = dec_struct
     [json_field ''result'' resp_Result resp_Result_update d,
      json_field ''error'' resp_Error resp_Error_update (dec_ptr zero_RpcError dec_RpcError)]"

definition rpc_get :: "'w env \<Rightarrow> http_client option \<Rightarrow> string \<Rightarrow> string \<Rightarrow> 'a dec \<Rightarrow> 'a \<Rightarrow> 'w
    \<Rightarrow> ('a \<times> err option) \<times> 'w" where
  "rpc_get env client url req d zero w =
     (let ((e, r), w1) = CallRPC env client url req (dec_resp d) \<lparr>resp_Result = zero, resp_Error = None\<rparr> w
      in case e of
           Some x \<Rightarrow> ((zero, Some x), w1)
         | None \<Rightarrow> (case resp_Error r of
                      Some x \<Rightarrow> ((zero, Some (RpcError_Error x)), w1)
                    | None \<Rightarrow> ((resp_Result r, None), w1)))"

section \<open>Facts\<close>

text \<open>\<open>RandomInt\<close> stays within its bounds.\<close>

lemma RandomInt_bounds:
  assumes "rand_ok env" "lo \<le> hi" "0 \<le> lo" "hi < 2 ^ 62" "RandomInt env lo hi w = (r, w')"
  shows "\<exists>k. r = Ret k \<and> lo \<le> k \<and> k \<le> hi"
proof -
  have n: "go_add (go_sub hi lo) 1 = hi - lo + 1"
    using assms by (simp add: go_add_def go_sub_def)
  obtain q w1 where q: "rand_intn env (hi - lo + 1) w = (q, w1)" by fastforce
  with rand_okD [OF assms(1) _ q] assms(2) have "0 \<le> q" "q \<le> hi - lo" by auto
  with assms n q show ?thesis by (auto simp: RandomInt_def go_add_def)
qed

text \<open>A call that reports no error got a 200 response whose body decoded without a mismatch.\<close>

lemma CallRPC_ok:
  assumes "CallRPC env c url req dec x w = ((None, y), w')"
  obtains resp where "client_do env (case c of None \<Rightarrow> defaultClient | Some c' \<Rightarrow> c')
      \<lparr>hq_Method = ''POST'', hq_Url = url, hq_ContentType = ''application/json'', hq_Body = req\<rparr> w = (Inr resp, w')"
    and "hr_StatusCode resp = 200" and "Unmarshal dec (hr_Body resp) x = (y, None)"
  using assms by (auto simp: CallRPC_def httpRequest_def Let_def split: prod.splits option.splits sum.splits if_splits)

lemma CallRPC_script:
  "CallRPC script_env c url req dec x (Ok200 b # s) = (prod.swap (Unmarshal dec b x), s)"
  "CallRPC script_env c url req dec x (CallErr e # s) = ((Some (''CallRPC - do req failed err='' @ e), x), s)"
  by (simp_all add: CallRPC_def httpRequest_def Let_def split: prod.splits)

end
