(* ===== verification/Config_Base.thy ===== *)
theory Config_Base
  imports Core
begin

text \<open>
  Package \<open>config\<close>, first part: validation errors (\<open>config/error.go\<close>), TLS settings
  (\<open>config/tls.go\<close>), up checks (\<open>config/upcheck.go\<close>) and managed processes
  (\<open>config/process.go\<close>). A method with a pointer receiver that sets \<open>TlsCfg\<close> returns the
  updated struct.
\<close>

section \<open>Field errors\<close>

datatype cfg_err =
    ErrText string
  | FieldErr string cfg_err
  | ArrFieldErr string int cfg_err

definition isEmptyErr :: cfg_err where "isEmptyErr = ErrText ''is empty''"
definition isNotUniqueErr :: cfg_err where "isNotUniqueErr = ErrText ''must be unique''"
definition isNotGreaterThanZeroErr :: cfg_err where "isNotGreaterThanZeroErr = ErrText ''must be > 0''"

definition newFieldErr :: "string \<Rightarrow> cfg_err \<Rightarrow> cfg_err" where
  "newFieldErr field cause = FieldErr field cause"

definition newArrFieldErr :: "string \<Rightarrow> int \<Rightarrow> cfg_err \<Rightarrow> cfg_err" where
  "newArrFieldErr field i cause = ArrFieldErr field i cause"

fun is_field_err :: "cfg_err \<Rightarrow> bool" where
  "is_field_err (ErrText t) = False"
| "is_field_err _ = True"

fun Error :: "cfg_err \<Rightarrow> string" where
  "Error (ErrText t) = t"
| "Error (FieldErr field cause) =
     (if is_field_err cause then field @ ''.'' @ Error cause else field @ '' '' @ Error cause)"
| "Error (ArrFieldErr field i cause) =
     (if is_field_err cause then field @ ''['' @ show_int i @ ''].'' @ Error cause
      else field @ ''['' @ show_int i @ ''] '' @ Error cause)"

section \<open>TLS\<close>

record ServerTLS =
  st_KeyFile :: string
  st_CertFile :: string
  st_ClientCaCertFile :: string
  st_CipherSuites :: "string list option"
  st_TlsCfg :: "tls_config option"

record ClientTLS =
  ct_CertFile :: string
  ct_KeyFile :: string
  ct_CACertFile :: string
  ct_InsecureSkipVerify :: bool
  ct_CipherSuites :: "string list option"
  ct_TlsCfg :: "tls_config option"

definition defaultCipherSuites :: "string list" where
  "defaultCipherSuites =
     [''TLS_ECDHE_RSA_WITH_AES_256_GCM_SHA384'',
      ''TLS_ECDHE_ECDSA_WITH_AES_256_GCM_SHA384'',
      ''TLS_ECDHE_RSA_WITH_AES_256_CBC_SHA'',
      ''TLS_ECDHE_ECDSA_WITH_AES_256_CBC_SHA'']"

text \<open>The two nested loops append the ID of every secure supported suite with the wanted name.\<close>

fun suites_named :: "string \<Rightarrow> cipher_suite list \<Rightarrow> 16 word list" where
  "suites_named n [] = []"
| "suites_named n (cc # ccs) =
     (if cs_Name cc = n \<and> \<not> cs_Insecure cc then cs_ID cc # suites_named n ccs else suites_named n ccs)"

fun suites_loop :: "string list \<Rightarrow> cipher_suite list \<Rightarrow> 16 word list \<Rightarrow> 16 word list" where
  "suites_loop [] ccs acc = acc"
| "suites_loop (n # ns) ccs acc = suites_loop ns ccs (acc @ suites_named n ccs)"

definition cipherSuitesOrDefault :: "cipher_suite list \<Rightarrow> string list option \<Rightarrow> 16 word list" where
  "cipherSuitesOrDefault supported configured =
     (let names = (case configured of Some ns \<Rightarrow> ns | None \<Rightarrow> defaultCipherSuites)
      in suites_loop names supported [])"

definition client_ca_pool :: "'w env \<Rightarrow> 'w \<Rightarrow> string \<Rightarrow> cert_pool" where
  "client_ca_pool env w caPem = (system_pool_ok env w, [caPem])"

definition ServerTLS_TLSConfig :: "'w env \<Rightarrow> 'w \<Rightarrow> ServerTLS \<Rightarrow> err + tls_config" where
  "ServerTLS_TLSConfig env w c =
     (case load_key_pair env (st_CertFile c) (st_KeyFile c) w of
        Inl e \<Rightarrow> Inl e
      | Inr cert \<Rightarrow>
          (let cfg = zero_tls_config\<lparr>tc_Certificates := [cert], tc_MinVersion := 0x0303,
                 tc_CurvePreferences := [25, 24, 23, 29],
                 tc_CipherSuites := cipherSuitesOrDefault (cipher_suites env) (st_CipherSuites c),
                 tc_PreferServerCipherSuites := True\<rparr>;
               caPem = (if st_ClientCaCertFile c \<noteq> '''' then read_file env (st_ClientCaCertFile c) w
                        else Inr '''')
           in case caPem of
                Inl e \<Rightarrow> Inl e
              | Inr pem \<Rightarrow>
                  if length pem \<noteq> 0 then
                    Inr (cfg\<lparr>tc_ClientCAs := Some (client_ca_pool env w pem),
                             tc_ClientAuth := RequireAndVerifyClientCert\<rparr>)
                  else Inr cfg))"

definition ServerTLS_SetTLSConfig :: "'w env \<Rightarrow> 'w \<Rightarrow> ServerTLS \<Rightarrow> err option \<times> ServerTLS" where
  "ServerTLS_SetTLSConfig env w c = (case ServerTLS_TLSConfig env w c of
     Inl e \<Rightarrow> (Some e, c\<lparr>st_TlsCfg := None\<rparr>)
   | Inr t \<Rightarrow> (None, c\<lparr>st_TlsCfg := Some t\<rparr>))"

definition ServerTLS_IsValid :: "'w env \<Rightarrow> 'w \<Rightarrow> ServerTLS \<Rightarrow> cfg_err option \<times> ServerTLS" where
  "ServerTLS_IsValid env w c =
     (if st_CertFile c = '''' then (Some (newFieldErr ''certificateFile'' isEmptyErr), c)
      else if st_KeyFile c = '''' then (Some (newFieldErr ''keyFile'' isEmptyErr), c)
      else (case ServerTLS_SetTLSConfig env w c of
              (Some e, c') \<Rightarrow> (Some (ErrText e), c')
            | (None, c') \<Rightarrow> (None, c')))"

definition ClientTLS_TLSConfig :: "'w env \<Rightarrow> 'w \<Rightarrow> ClientTLS \<Rightarrow> err + tls_config" where
  "ClientTLS_TLSConfig env w c =
     (let cfg = zero_tls_config\<lparr>tc_InsecureSkipVerify := ct_InsecureSkipVerify c,
            tc_CipherSuites := cipherSuitesOrDefault (cipher_suites env) (ct_CipherSuites c)\<rparr>
      in if ct_InsecureSkipVerify c then Inr cfg
         else
           (let withCert = (if ct_CertFile c \<noteq> '''' \<and> ct_KeyFile c \<noteq> '''' then
                  (case load_key_pair env (ct_CertFile c) (ct_KeyFile c) w of
                     Inl e \<Rightarrow> Inl e
                   | Inr cert \<Rightarrow> Inr (cfg\<lparr>tc_Certificates := [cert]\<rparr>))
                else Inr cfg)
            in case withCert of
                 Inl e \<Rightarrow> Inl e
               | Inr cfg1 \<Rightarrow>
                   (case (if ct_CACertFile c \<noteq> '''' then read_file env (ct_CACertFile c) w else Inr '''') of
                      Inl e \<Rightarrow> Inl e
                    | Inr pem \<Rightarrow>
                        if length pem \<noteq> 0 then Inr (cfg1\<lparr>tc_RootCAs := Some (client_ca_pool env w pem)\<rparr>)
                        else Inr cfg1)))"

definition ClientTLS_SetTLSConfig :: "'w env \<Rightarrow> 'w \<Rightarrow> ClientTLS \<Rightarrow> err option \<times> ClientTLS" where
  "ClientTLS_SetTLSConfig env w c = (case ClientTLS_TLSConfig env w c of
     Inl e \<Rightarrow> (Some e, c\<lparr>ct_TlsCfg := None\<rparr>)
   | Inr t \<Rightarrow> (None, c\<lparr>ct_TlsCfg := Some t\<rparr>))"

definition ClientTLS_IsValid :: "'w env \<Rightarrow> 'w \<Rightarrow> ClientTLS \<Rightarrow> cfg_err option \<times> ClientTLS" where
  "ClientTLS_IsValid env w c =
     (if \<not> ct_InsecureSkipVerify c \<and> ct_CACertFile c = '''' then
        (Some (newFieldErr ''caCertificateFile'' isEmptyErr), c)
      else if ct_CertFile c \<noteq> '''' \<and> ct_KeyFile c = '''' then
        (Some (newFieldErr ''keyFile'' (ErrText ''must be set as certificateFile is set'')), c)
      else if ct_KeyFile c \<noteq> '''' \<and> ct_CertFile c = '''' then
        (Some (newFieldErr ''certificateFile'' (ErrText ''must be set as keyFile is set'')), c)
      else (case ClientTLS_SetTLSConfig env w c of
              (Some e, c') \<Rightarrow> (Some (ErrText e), c')
            | (None, c') \<Rightarrow> (None, c')))"

section \<open>Up checks\<close>

record Upcheck =
  up_UpcheckUrl :: string
  up_ReturnType :: string
  up_Method :: string
  up_Body :: string
  up_Expected :: string

definition IsRpcResult :: "Upcheck \<Rightarrow> bool" where
  "IsRpcResult c \<longleftrightarrow> up_ReturnType c = ''rpcresult''"

definition IsStringResult :: "Upcheck \<Rightarrow> bool" where
  "IsStringResult c \<longleftrightarrow> up_ReturnType c = ''string''"

text \<open>The receiver is a value: the lower-cased return type and the method are of a local copy.\<close>

definition Upcheck_IsValid :: "Upcheck \<Rightarrow> cfg_err option" where
  "Upcheck_IsValid c0 =
     (if up_UpcheckUrl c0 = '''' then Some (newFieldErr ''url'' isEmptyErr)
      else (let c = c0\<lparr>up_ReturnType := ToLower (up_ReturnType c0)\<rparr> in
        if \<not> IsRpcResult c \<and> \<not> IsStringResult c then
          Some (newFieldErr ''returnType'' (ErrText ''must be rpcresult or string''))
        else (let c' = c\<lparr>up_Method := ToUpper (up_Method c)\<rparr> in
          if up_Method c' \<noteq> ''GET'' \<and> up_Method c' \<noteq> ''POST'' then
            Some (newFieldErr ''method'' (ErrText ''must be POST or GET''))
          else if IsStringResult c' \<and> up_Expected c' = '''' then
            Some (newFieldErr ''expected'' (ErrText ''must be set as returnType is string''))
          else None)))"

section \<open>Processes\<close>

record Process =
  pr_Name :: string
  pr_ControlType :: string
  pr_ContainerId :: string
  pr_StopCommand :: "string list"
  pr_StartCommand :: "string list"
  pr_UpcheckCfg :: "Upcheck option"

definition IsShell :: "Process \<Rightarrow> bool" where
  "IsShell c \<longleftrightarrow> ToLower (pr_ControlType c) = ''shell''"

definition IsDocker :: "Process \<Rightarrow> bool" where
  "IsDocker c \<longleftrightarrow> ToLower (pr_ControlType c) = ''docker''"

definition IsBcClient :: "Process \<Rightarrow> bool" where
  "IsBcClient c \<longleftrightarrow> ToLower (pr_Name c) = ''bcclnt''"

definition IsPrivacyManager :: "Process \<Rightarrow> bool" where
  "IsPrivacyManager c \<longleftrightarrow> ToLower (pr_Name c) = ''privman''"

definition Process_IsValid :: "Process \<Rightarrow> cfg_err option" where
  "Process_IsValid c =
     (if \<not> IsDocker c \<and> \<not> IsShell c then
        Some (newFieldErr ''controlType'' (ErrText ''must be shell or docker''))
      else if \<not> IsBcClient c \<and> \<not> IsPrivacyManager c then
        Some (newFieldErr ''name'' (ErrText ''must be bcclnt or privman''))
      else if IsDocker c \<and> pr_ContainerId c = '''' then
        Some (newFieldErr ''containerId'' (ErrText ''must be set as controlType is docker''))
      else if IsShell c \<and> length (pr_StartCommand c) = 0 then
        Some (newFieldErr ''startCommand'' (ErrText ''must be set as controlType is shell''))
      else if IsShell c \<and> length (pr_StopCommand c) = 0 then
        Some (newFieldErr ''stopCommand'' (ErrText ''must be set as controlType is shell''))
      else (case pr_UpcheckCfg c of
              None \<Rightarrow> Some (newFieldErr ''upcheckConfig'' isEmptyErr)
            | Some u \<Rightarrow> (case Upcheck_IsValid u of
                Some e \<Rightarrow> Some (newFieldErr ''upcheckConfig'' e)
              | None \<Rightarrow> None)))"

section \<open>Facts\<close>

text \<open>The suites in use are exactly the secure supported ones with a wanted name.\<close>

lemma set_suites_named: "set (suites_named n ccs) = {cs_ID cc |cc. cc \<in> set ccs \<and> cs_Name cc = n \<and> \<not> cs_Insecure cc}"
  by (induction ccs) auto

lemma suites_loop_concat: "suites_loop ns ccs acc = acc @ concat (map (\<lambda>n. suites_named n ccs) ns)"
  by (induction ns arbitrary: acc) auto

lemma set_cipherSuitesOrDefault:
  "set (cipherSuitesOrDefault ccs conf) =
     {cs_ID cc |cc. cc \<in> set ccs \<and> \<not> cs_Insecure cc
        \<and> cs_Name cc \<in> set (case conf of Some ns \<Rightarrow> ns | None \<Rightarrow> defaultCipherSuites)}"
  by (auto simp: cipherSuitesOrDefault_def Let_def suites_loop_concat set_suites_named split: option.splits)

lemma ServerTLS_IsValid_None:
  "ServerTLS_IsValid env w c = (None, c') \<Longrightarrow>
     st_CertFile c \<noteq> '''' \<and> st_KeyFile c \<noteq> '''' \<and>
     (\<exists>t. ServerTLS_TLSConfig env w c = Inr t \<and> c' = c\<lparr>st_TlsCfg := Some t\<rparr>)"
  by (auto simp: ServerTLS_IsValid_def ServerTLS_SetTLSConfig_def split: if_splits sum.splits)

lemma ClientTLS_IsValid_None:
  "ClientTLS_IsValid env w c = (None, c') \<Longrightarrow>
     (ct_InsecureSkipVerify c \<or> ct_CACertFile c \<noteq> '''') \<and> (ct_CertFile c = '''' \<longleftrightarrow> ct_KeyFile c = '''') \<and>
     (\<exists>t. ClientTLS_TLSConfig env w c = Inr t \<and> c' = c\<lparr>ct_TlsCfg := Some t\<rparr>)"
  by (auto simp: ClientTLS_IsValid_def ClientTLS_SetTLSConfig_def split: if_splits sum.splits)

lemma Process_IsValid_None_iff:
  "Process_IsValid c = None \<longleftrightarrow>
     (IsBcClient c \<or> IsPrivacyManager c) \<and>
     (IsDocker c \<and> pr_ContainerId c \<noteq> '''' \<or>
      IsShell c \<and> pr_StartCommand c \<noteq> [] \<and> pr_StopCommand c \<noteq> []) \<and>
     (\<exists>u. pr_UpcheckCfg c = Some u \<and> Upcheck_IsValid u = None)"
proof -
  have "\<not> (IsDocker c \<and> IsShell c)" by (auto simp: IsDocker_def IsShell_def)
  then show ?thesis by (auto simp: Process_IsValid_def split: option.splits)
qed

lemma Upcheck_IsValid_None_iff:
  "Upcheck_IsValid c = None \<longleftrightarrow>
     up_UpcheckUrl c \<noteq> '''' \<and> ToUpper (up_Method c) \<in> {''GET'', ''POST''} \<and>
     (ToLower (up_ReturnType c) = ''rpcresult'' \<or>
      ToLower (up_ReturnType c) = ''string'' \<and> up_Expected c \<noteq> '''')"
  by (auto simp: Upcheck_IsValid_def IsRpcResult_def IsStringResult_def Let_def)

end
