(* ===== verification/Config.thy ===== *)
theory Config
  imports Config_Base
begin

text \<open>
  Package \<open>config\<close>, second part: the RPC server (\<open>config/rpc.go\<close>), the blockchain client and
  the privacy manager (\<open>config/client.go\<close>), proxies (\<open>config/proxy.go\<close>), peers
  (\<open>config/peers.go\<close>) and the whole configuration (\<open>config/basic.go\<close>). Pointers to structs
  are options, and slices of pointers are lists of options: validating a \<open>nil\<close> element panics.
  Validation sets the TLS settings behind the pointers, so it returns the updated configuration.
\<close>

section \<open>RPC server\<close>

record RPCServer =
  rs_RPCAddr :: string
  rs_RPCCorsList :: "string list"
  rs_RPCVHosts :: "string list"
  rs_TLSConfig :: "ServerTLS option"

definition RPCServer_IsValid :: "'w env \<Rightarrow> 'w \<Rightarrow> RPCServer \<Rightarrow> cfg_err option \<times> RPCServer" where
  "RPCServer_IsValid env w c =
     (if rs_RPCAddr c = '''' then (Some (newFieldErr ''rpcAddress'' isEmptyErr), c)
      else (case rs_TLSConfig c of
              None \<Rightarrow> (None, c)
            | Some t \<Rightarrow> (let (e, t') = ServerTLS_IsValid env w t
                in (map_option (newFieldErr ''tlsConfig'') e, c\<lparr>rs_TLSConfig := Some t'\<rparr>))))"

section \<open>Blockchain client and privacy manager\<close>

record BlockchainClient =
  bc_ClientType :: string
  bc_Consensus :: string
  bc_BcClntRpcUrl :: string
  bc_BcClntTLSConfig :: "ClientTLS option"
  bc_BcClntProcess :: "Process option"

record PrivacyManager =
  pm_PrivManKey :: string
  pm_PrivManTLSConfig :: "ClientTLS option"
  pm_PrivManProcess :: "Process option"

definition IsRaft :: "BlockchainClient \<Rightarrow> bool" where
  "IsRaft c \<longleftrightarrow> ToLower (bc_Consensus c) = ''raft''"

definition IsIstanbul :: "BlockchainClient \<Rightarrow> bool" where
  "IsIstanbul c \<longleftrightarrow> ToLower (bc_Consensus c) = ''istanbul''"

definition IsClique :: "BlockchainClient \<Rightarrow> bool" where
  "IsClique c \<longleftrightarrow> ToLower (bc_Consensus c) = ''clique''"

definition IsGoQuorumClient :: "BlockchainClient \<Rightarrow> bool" where
  "IsGoQuorumClient c \<longleftrightarrow> ToLower (bc_ClientType c) = ''goquorum''"

definition IsBesuClient :: "BlockchainClient \<Rightarrow> bool" where
  "IsBesuClient c \<longleftrightarrow> ToLower (bc_ClientType c) = ''besu''"

definition BlockchainClient_IsValid ::
  "'w env \<Rightarrow> 'w \<Rightarrow> BlockchainClient \<Rightarrow> cfg_err option \<times> BlockchainClient" where
  "BlockchainClient_IsValid env w c =
     (if bc_Consensus c = '''' then (Some (newFieldErr ''consensus'' isEmptyErr), c)
      else if bc_ClientType c = '''' then (Some (newFieldErr ''type'' isEmptyErr), c)
      else if \<not> IsGoQuorumClient c \<and> \<not> IsBesuClient c then
        (Some (newFieldErr ''type'' (ErrText ''must be goquorum or besu'')), c)
      else if IsGoQuorumClient c \<and> \<not> IsRaft c \<and> \<not> IsClique c \<and> \<not> IsIstanbul c then
        (Some (newFieldErr ''consensus'' (ErrText ''must be raft, istanbul, or clique'')), c)
      else if IsBesuClient c \<and> \<not> IsClique c then
        (Some (newFieldErr ''consensus'' (ErrText ''must be clique'')), c)
      else if bc_BcClntRpcUrl c = '''' then (Some (newFieldErr ''rpcUrl'' isEmptyErr), c)
      else (case bc_BcClntProcess c of
              None \<Rightarrow> (Some (newFieldErr ''process'' isEmptyErr), c)
            | Some p \<Rightarrow>
                (case Process_IsValid p of
                   Some e \<Rightarrow> (Some (newFieldErr ''process'' e), c)
                 | None \<Rightarrow>
                     (case bc_BcClntTLSConfig c of
                        None \<Rightarrow> (None, c)
                      | Some t \<Rightarrow> (let (e, t') = ClientTLS_IsValid env w t
                          in (map_option (newFieldErr ''tlsConfig'') e, c\<lparr>bc_BcClntTLSConfig := Some t'\<rparr>))))))"

definition PrivacyManager_IsValid ::
  "'w env \<Rightarrow> 'w \<Rightarrow> PrivacyManager \<Rightarrow> cfg_err option \<times> PrivacyManager" where
  "PrivacyManager_IsValid env w c =
     (if pm_PrivManKey c = '''' then (Some (newFieldErr ''publicKey'' isEmptyErr), c)
      else (case pm_PrivManProcess c of
              None \<Rightarrow> (Some (newFieldErr ''process'' isEmptyErr), c)
            | Some p \<Rightarrow>
                (case Process_IsValid p of
                   Some e \<Rightarrow> (Some (newFieldErr ''process'' e), c)
                 | None \<Rightarrow>
                     (case pm_PrivManTLSConfig c of
                        None \<Rightarrow> (None, c)
                      | Some t \<Rightarrow> (let (e, t') = ClientTLS_IsValid env w t
                          in (map_option (newFieldErr ''tlsConfig'') e, c\<lparr>pm_PrivManTLSConfig := Some t'\<rparr>))))))"

section \<open>Proxies\<close>

record Proxy =
  px_Name :: string
  px_Type :: string
  px_ProxyAddr :: string
  px_UpstreamAddr :: string
  px_ProxyPaths :: "string list"
  px_IgnorePathsForActivity :: "string list"
  px_ReadTimeout :: int
  px_WriteTimeout :: int
  px_ProxyServerTLSConfig :: "ServerTLS option"
  px_ClientTLSConfig :: "ClientTLS option"

definition IsHttp :: "Proxy \<Rightarrow> bool" where
  "IsHttp c \<longleftrightarrow> ToLower (px_Type c) = ''http''"

definition IsWS :: "Proxy \<Rightarrow> bool" where
  "IsWS c \<longleftrightarrow> ToLower (px_Type c) = ''ws''"

text \<open>The checks before the TLS settings, and the two TLS checks in their order.\<close>

definition Proxy_fields_err :: "'w env \<Rightarrow> Proxy \<Rightarrow> cfg_err option" where
  "Proxy_fields_err env c =
     (if px_Name c = '''' then Some (newFieldErr ''name'' isEmptyErr)
      else if \<not> IsWS c \<and> \<not> IsHttp c then Some (newFieldErr ''type'' (ErrText ''must be http or ws''))
      else if px_ProxyAddr c = '''' then Some (newFieldErr ''proxyAddress'' isEmptyErr)
      else if px_UpstreamAddr c = '''' then Some (newFieldErr ''upstreamAddress'' isEmptyErr)
      else (case url_parse env (px_UpstreamAddr c) of
              Some e \<Rightarrow> Some (newFieldErr ''upstreamAddress'' (ErrText e))
            | None \<Rightarrow>
                if length (px_ProxyPaths c) = 0 then Some (newFieldErr ''proxyPaths'' isEmptyErr)
                else if px_ReadTimeout c = 0 then Some (newFieldErr ''readTimeout'' isNotGreaterThanZeroErr)
                else if px_WriteTimeout c = 0 then Some (newFieldErr ''writeTimeout'' isNotGreaterThanZeroErr)
                else None))"

definition Proxy_client_tls_check :: "'w env \<Rightarrow> 'w \<Rightarrow> Proxy \<Rightarrow> cfg_err option \<times> Proxy" where
  "Proxy_client_tls_check env w c = (case px_ClientTLSConfig c of
     None \<Rightarrow> (None, c)
   | Some t \<Rightarrow> (let (e, t') = ClientTLS_IsValid env w t
       in (map_option (newFieldErr ''clientTlsConfig'') e, c\<lparr>px_ClientTLSConfig := Some t'\<rparr>)))"

definition Proxy_IsValid :: "'w env \<Rightarrow> 'w \<Rightarrow> Proxy \<Rightarrow> cfg_err option \<times> Proxy" where
  "Proxy_IsValid env w c =
     (case Proxy_fields_err env c of
        Some e \<Rightarrow> (Some e, c)
      | None \<Rightarrow>
          (case px_ProxyServerTLSConfig c of
             None \<Rightarrow> Proxy_client_tls_check env w c
           | Some t \<Rightarrow>
               (let (e, t') = ServerTLS_IsValid env w t; c' = c\<lparr>px_ProxyServerTLSConfig := Some t'\<rparr>
                in case e of
                     Some x \<Rightarrow> (Some (newFieldErr ''proxyTlsConfig'' x), c')
                   | None \<Rightarrow> Proxy_client_tls_check env w c')))"

section \<open>Peers\<close>

record Peer =
  peer_Name :: string
  peer_PrivManKey :: string
  peer_RpcUrl :: string
  peer_TLSConfig :: "ClientTLS option"

definition Peer_IsValid :: "'w env \<Rightarrow> 'w \<Rightarrow> Peer \<Rightarrow> cfg_err option \<times> Peer" where
  "Peer_IsValid env w c =
     (if peer_Name c = '''' then (Some (newFieldErr ''name'' isEmptyErr), c)
      else if peer_RpcUrl c = '''' then (Some (newFieldErr ''rpcUrl'' isEmptyErr), c)
      else (case url_parse env (peer_RpcUrl c) of
              Some e \<Rightarrow> (Some (newFieldErr ''rpcUrl'' (ErrText e)), c)
            | None \<Rightarrow>
                (case peer_TLSConfig c of
                   None \<Rightarrow> (None, c)
                 | Some t \<Rightarrow> (let (e, t') = ClientTLS_IsValid env w t
                     in (map_option (newFieldErr ''tlsConfig'') e, c\<lparr>peer_TLSConfig := Some t'\<rparr>)))))"

text \<open>
  The loop of \<open>PeerArr.IsValid\<close> with its set of names seen; it returns the validated peers,
  none of which is \<open>nil\<close>.
\<close>

fun PeerArr_loop ::
  "'w env \<Rightarrow> 'w \<Rightarrow> int \<Rightarrow> (string \<times> bool) list \<Rightarrow> Peer option list \<Rightarrow> (cfg_err + Peer list) go" where
  "PeerArr_loop env w i nameList [] = Ret (Inr [])"
| "PeerArr_loop env w i nameList (None # ps) = Panic ''nil pointer dereference''"
| "PeerArr_loop env w i nameList (Some c # ps) =
     (if has_key nameList (peer_Name c) then
        Ret (Inl (newArrFieldErr ''peers'' i (newFieldErr ''name'' isNotUniqueErr)))
      else (case Peer_IsValid env w c of
              (Some e, c') \<Rightarrow> Ret (Inl (newArrFieldErr ''peers'' i e))
            | (None, c') \<Rightarrow>
                go_bind (PeerArr_loop env w (i + 1) ((peer_Name c, True) # nameList) ps)
                  (\<lambda>r. Ret (case r of Inl e \<Rightarrow> Inl e | Inr ps' \<Rightarrow> Inr (c' # ps')))))"

definition PeerArr_IsValid :: "'w env \<Rightarrow> 'w \<Rightarrow> Peer option list \<Rightarrow> (cfg_err + Peer list) go" where
  "PeerArr_IsValid env w a = PeerArr_loop env w 0 [] a"

section \<open>The whole configuration\<close>

record Basic =
  b_Name :: string
  b_DisableStrictMode :: bool
  b_UpchkPollingInterval :: int
  b_PeersConfigFile :: string
  b_InactivityTime :: int
  b_ResyncTime :: int
  b_BlockchainClient :: "BlockchainClient option"
  b_PrivacyManager :: "PrivacyManager option"
  b_Server :: "RPCServer option"
  b_Proxies :: "Proxy option list"

definition IsResyncTimerSet :: "Basic \<Rightarrow> bool" where
  "IsResyncTimerSet c \<longleftrightarrow> b_ResyncTime c \<noteq> 0"

text \<open>The checks of the scalar fields, in order.\<close>

definition Basic_fields_err :: "Basic \<Rightarrow> cfg_err option" where
  "Basic_fields_err c =
     (if b_Name c = '''' then Some (newFieldErr ''name'' isEmptyErr)
      else if b_PeersConfigFile c = '''' then Some (newFieldErr ''peersConfigFile'' isEmptyErr)
      else if b_UpchkPollingInterval c \<le> 0 then Some (newFieldErr ''upcheckPollingInterval'' isNotGreaterThanZeroErr)
      else if b_InactivityTime c < 60 then Some (newFieldErr ''inactivityTime'' (ErrText ''must be >= 60''))
      else if IsResyncTimerSet c \<and> b_ResyncTime c < b_InactivityTime c then
        Some (newFieldErr ''resyncTime'' (ErrText ''must be >= inactivityTime''))
      else None)"

fun proxies_loop :: "'w env \<Rightarrow> 'w \<Rightarrow> int \<Rightarrow> Proxy option list \<Rightarrow> (cfg_err option \<times> Proxy option list) go" where
  "proxies_loop env w i [] = Ret (None, [])"
| "proxies_loop env w i (None # ps) = Panic ''nil pointer dereference''"
| "proxies_loop env w i (Some n # ps) =
     (case Proxy_IsValid env w n of
        (Some e, n') \<Rightarrow> Ret (Some (newArrFieldErr ''proxies'' i e), Some n' # ps)
      | (None, n') \<Rightarrow> go_bind (proxies_loop env w (i + 1) ps) (\<lambda>(e, ps'). Ret (e, Some n' # ps')))"

definition Basic_proxies_check :: "'w env \<Rightarrow> 'w \<Rightarrow> Basic \<Rightarrow> (cfg_err option \<times> Basic) go" where
  "Basic_proxies_check env w c =
     (if length (b_Proxies c) = 0 then Ret (Some (newFieldErr ''proxies'' isEmptyErr), c)
      else go_bind (proxies_loop env w 0 (b_Proxies c)) (\<lambda>(e, ps). Ret (e, c\<lparr>b_Proxies := ps\<rparr>)))"

definition Basic_privman_check :: "'w env \<Rightarrow> 'w \<Rightarrow> Basic \<Rightarrow> (cfg_err option \<times> Basic) go" where
  "Basic_privman_check env w c =
     (case b_PrivacyManager c of
        None \<Rightarrow> Basic_proxies_check env w c
      | Some p \<Rightarrow>
          (let (e, p') = PrivacyManager_IsValid env w p; c' = c\<lparr>b_PrivacyManager := Some p'\<rparr>
           in case e of
                Some x \<Rightarrow> Ret (Some (newFieldErr ''privacyManager'' x), c')
              | None \<Rightarrow> Basic_proxies_check env w c'))"

definition Basic_client_check :: "'w env \<Rightarrow> 'w \<Rightarrow> Basic \<Rightarrow> (cfg_err option \<times> Basic) go" where
  "Basic_client_check env w c =
     (case b_BlockchainClient c of
        None \<Rightarrow> Ret (Some (newFieldErr ''blockchainClient'' isEmptyErr), c)
      | Some b \<Rightarrow>
          (let (e, b') = BlockchainClient_IsValid env w b; c' = c\<lparr>b_BlockchainClient := Some b'\<rparr>
           in case e of
                Some x \<Rightarrow> Ret (Some (newFieldErr ''blockchainClient'' x), c')
              | None \<Rightarrow> Basic_privman_check env w c'))"

definition Basic_IsValid :: "'w env \<Rightarrow> 'w \<Rightarrow> Basic \<Rightarrow> (cfg_err option \<times> Basic) go" where
  "Basic_IsValid env w c =
     (case Basic_fields_err c of
        Some e \<Rightarrow> Ret (Some e, c)
      | None \<Rightarrow>
          (case b_Server c of
             None \<Rightarrow> Ret (Some (newFieldErr ''server'' isEmptyErr), c)
           | Some s \<Rightarrow>
               (let (e, s') = RPCServer_IsValid env w s; c' = c\<lparr>b_Server := Some s'\<rparr>
                in case e of
                     Some x \<Rightarrow> Ret (Some (newFieldErr ''server'' x), c')
                   | None \<Rightarrow> Basic_client_check env w c')))"

end
