(* ===== verification/Config_Spec.thy ===== *)
theory Config_Spec
  imports Config
begin

text \<open>
  What a configuration accepted by \<open>Basic.IsValid\<close> and a peers file accepted by
  \<open>PeerArr.IsValid\<close> satisfy: declarative specifications that do not mention the order of the
  checks, and the equivalence of the validators with them.
\<close>

section \<open>Specifications\<close>

definition ServerTLS_ok :: "'w env \<Rightarrow> 'w \<Rightarrow> ServerTLS \<Rightarrow> bool" where
  "ServerTLS_ok env w t \<longleftrightarrow> st_CertFile t \<noteq> '''' \<and> st_KeyFile t \<noteq> '''' \<and> \<not> isl (ServerTLS_TLSConfig env w t)"

definition ClientTLS_ok :: "'w env \<Rightarrow> 'w \<Rightarrow> ClientTLS \<Rightarrow> bool" where
  "ClientTLS_ok env w t \<longleftrightarrow>
     (ct_InsecureSkipVerify t \<or> ct_CACertFile t \<noteq> '''') \<and> (ct_CertFile t = '''' \<longleftrightarrow> ct_KeyFile t = '''')
     \<and> \<not> isl (ClientTLS_TLSConfig env w t)"

definition Process_ok :: "Process \<Rightarrow> bool" where
  "Process_ok p \<longleftrightarrow>
     (IsBcClient p \<or> IsPrivacyManager p) \<and>
     (IsDocker p \<and> pr_ContainerId p \<noteq> '''' \<or> IsShell p \<and> pr_StartCommand p \<noteq> [] \<and> pr_StopCommand p \<noteq> []) \<and>
     (case pr_UpcheckCfg p of None \<Rightarrow> False | Some u \<Rightarrow>
        up_UpcheckUrl u \<noteq> '''' \<and> ToUpper (up_Method u) \<in> {''GET'', ''POST''} \<and>
        (ToLower (up_ReturnType u) = ''rpcresult'' \<or>
         ToLower (up_ReturnType u) = ''string'' \<and> up_Expected u \<noteq> ''''))"

text \<open>The client and consensus pairs the program supports.\<close>

definition supported_pair :: "BlockchainClient \<Rightarrow> bool" where
  "supported_pair b \<longleftrightarrow>
     IsGoQuorumClient b \<and> (IsRaft b \<or> IsIstanbul b \<or> IsClique b) \<or> IsBesuClient b \<and> IsClique b"

definition BlockchainClient_ok :: "'w env \<Rightarrow> 'w \<Rightarrow> BlockchainClient \<Rightarrow> bool" where
  "BlockchainClient_ok env w b \<longleftrightarrow>
     supported_pair b \<and> bc_BcClntRpcUrl b \<noteq> '''' \<and>
     pred_option Process_ok (bc_BcClntProcess b) \<and> bc_BcClntProcess b \<noteq> None \<and>
     pred_option (ClientTLS_ok env w) (bc_BcClntTLSConfig b)"

definition PrivacyManager_ok :: "'w env \<Rightarrow> 'w \<Rightarrow> PrivacyManager \<Rightarrow> bool" where
  "PrivacyManager_ok env w p \<longleftrightarrow>
     pm_PrivManKey p \<noteq> '''' \<and>
     pred_option Process_ok (pm_PrivManProcess p) \<and> pm_PrivManProcess p \<noteq> None \<and>
     pred_option (ClientTLS_ok env w) (pm_PrivManTLSConfig p)"

definition Proxy_ok :: "'w env \<Rightarrow> 'w \<Rightarrow> Proxy \<Rightarrow> bool" where
  "Proxy_ok env w x \<longleftrightarrow>
     px_Name x \<noteq> '''' \<and> (IsHttp x \<or> IsWS x) \<and> px_ProxyAddr x \<noteq> '''' \<and> px_UpstreamAddr x \<noteq> '''' \<and>
     url_parse env (px_UpstreamAddr x) = None \<and> px_ProxyPaths x \<noteq> [] \<and>
     px_ReadTimeout x \<noteq> 0 \<and> px_WriteTimeout x \<noteq> 0 \<and>
     pred_option (ServerTLS_ok env w) (px_ProxyServerTLSConfig x) \<and>
     pred_option (ClientTLS_ok env w) (px_ClientTLSConfig x)"

definition RPCServer_ok :: "'w env \<Rightarrow> 'w \<Rightarrow> RPCServer \<Rightarrow> bool" where
  "RPCServer_ok env w s \<longleftrightarrow> rs_RPCAddr s \<noteq> '''' \<and> pred_option (ServerTLS_ok env w) (rs_TLSConfig s)"

definition Peer_ok :: "'w env \<Rightarrow> 'w \<Rightarrow> Peer \<Rightarrow> bool" where
  "Peer_ok env w p \<longleftrightarrow>
     peer_Name p \<noteq> '''' \<and> peer_RpcUrl p \<noteq> '''' \<and> url_parse env (peer_RpcUrl p) = None \<and>
     pred_option (ClientTLS_ok env w) (peer_TLSConfig p)"

definition Basic_ok :: "'w env \<Rightarrow> 'w \<Rightarrow> Basic \<Rightarrow> bool" where
  "Basic_ok env w c \<longleftrightarrow>
     b_Name c \<noteq> '''' \<and> b_PeersConfigFile c \<noteq> '''' \<and> 0 < b_UpchkPollingInterval c \<and>
     60 \<le> b_InactivityTime c \<and> (b_ResyncTime c = 0 \<or> b_InactivityTime c \<le> b_ResyncTime c) \<and>
     b_Server c \<noteq> None \<and> pred_option (RPCServer_ok env w) (b_Server c) \<and>
     b_BlockchainClient c \<noteq> None \<and> pred_option (BlockchainClient_ok env w) (b_BlockchainClient c) \<and>
     pred_option (PrivacyManager_ok env w) (b_PrivacyManager c) \<and>
     b_Proxies c \<noteq> [] \<and> (\<forall>x\<in>set (b_Proxies c). \<exists>p. x = Some p \<and> Proxy_ok env w p)"

section \<open>Each validator accepts exactly what its specification allows\<close>

lemma ServerTLS_valid: "fst (ServerTLS_IsValid env w t) = None \<longleftrightarrow> ServerTLS_ok env w t"
  by (auto simp: ServerTLS_IsValid_def ServerTLS_SetTLSConfig_def ServerTLS_ok_def split: sum.splits)

lemma ClientTLS_valid: "fst (ClientTLS_IsValid env w t) = None \<longleftrightarrow> ClientTLS_ok env w t"
  by (auto simp: ClientTLS_IsValid_def ClientTLS_SetTLSConfig_def ClientTLS_ok_def split: sum.splits)

lemma Process_valid: "Process_IsValid p = None \<longleftrightarrow> Process_ok p"
  by (auto simp: Process_IsValid_None_iff Process_ok_def Upcheck_IsValid_None_iff split: option.splits)

lemma not_goquorum_and_besu: "\<not> (IsGoQuorumClient b \<and> IsBesuClient b)"
  by (auto simp: IsGoQuorumClient_def IsBesuClient_def)

lemma supported_pair_nonempty: "supported_pair b \<Longrightarrow> bc_Consensus b \<noteq> '''' \<and> bc_ClientType b \<noteq> ''''"
  by (auto simp: supported_pair_def IsGoQuorumClient_def IsBesuClient_def IsRaft_def IsIstanbul_def
      IsClique_def ToLower_def)

lemma BlockchainClient_valid:
  "fst (BlockchainClient_IsValid env w b) = None \<longleftrightarrow> BlockchainClient_ok env w b"
proof -
  have pair: "supported_pair b \<longleftrightarrow>
      bc_Consensus b \<noteq> '''' \<and> bc_ClientType b \<noteq> '''' \<and> (IsGoQuorumClient b \<or> IsBesuClient b) \<and>
      (IsGoQuorumClient b \<longrightarrow> IsRaft b \<or> IsClique b \<or> IsIstanbul b) \<and> (IsBesuClient b \<longrightarrow> IsClique b)"
    using supported_pair_nonempty [of b] not_goquorum_and_besu [of b] by (auto simp: supported_pair_def)
  show ?thesis
    unfolding BlockchainClient_ok_def pair BlockchainClient_IsValid_def
    by (auto simp: Process_valid [symmetric] ClientTLS_valid [symmetric] split: option.splits prod.splits)
qed

lemma PrivacyManager_valid:
  "fst (PrivacyManager_IsValid env w p) = None \<longleftrightarrow> PrivacyManager_ok env w p"
  unfolding PrivacyManager_ok_def PrivacyManager_IsValid_def
  by (auto simp: Process_valid [symmetric] ClientTLS_valid [symmetric] split: option.splits prod.splits)

lemma RPCServer_valid: "fst (RPCServer_IsValid env w s) = None \<longleftrightarrow> RPCServer_ok env w s"
  unfolding RPCServer_ok_def RPCServer_IsValid_def
  by (auto simp: ServerTLS_valid [symmetric] split: option.splits prod.splits)

lemma Peer_valid: "fst (Peer_IsValid env w p) = None \<longleftrightarrow> Peer_ok env w p"
  unfolding Peer_ok_def Peer_IsValid_def
  by (auto simp: ClientTLS_valid [symmetric] split: option.splits prod.splits)

lemma Proxy_fields_valid:
  "Proxy_fields_err env x = None \<longleftrightarrow>
     px_Name x \<noteq> '''' \<and> (IsHttp x \<or> IsWS x) \<and> px_ProxyAddr x \<noteq> '''' \<and> px_UpstreamAddr x \<noteq> '''' \<and>
     url_parse env (px_UpstreamAddr x) = None \<and> px_ProxyPaths x \<noteq> [] \<and> px_ReadTimeout x \<noteq> 0 \<and>
     px_WriteTimeout x \<noteq> 0"
  by (auto simp: Proxy_fields_err_def split: option.splits)

lemma Proxy_client_tls_valid:
  "fst (Proxy_client_tls_check env w x) = None \<longleftrightarrow> pred_option (ClientTLS_ok env w) (px_ClientTLSConfig x)"
  by (auto simp: Proxy_client_tls_check_def ClientTLS_valid [symmetric] split: option.splits prod.splits)

lemma Proxy_ok_alt:
  "Proxy_ok env w x \<longleftrightarrow> Proxy_fields_err env x = None \<and>
     pred_option (ServerTLS_ok env w) (px_ProxyServerTLSConfig x) \<and>
     pred_option (ClientTLS_ok env w) (px_ClientTLSConfig x)"
  by (auto simp: Proxy_ok_def Proxy_fields_valid)

lemma Proxy_valid: "fst (Proxy_IsValid env w x) = None \<longleftrightarrow> Proxy_ok env w x"
  by (auto simp: Proxy_ok_alt Proxy_IsValid_def Proxy_client_tls_valid Let_def
      ServerTLS_valid [symmetric] split: option.splits prod.splits)

lemmas validators = ServerTLS_valid ClientTLS_valid Process_valid BlockchainClient_valid
  PrivacyManager_valid RPCServer_valid Peer_valid Proxy_valid

section \<open>Loops\<close>

lemma proxies_loop_valid:
  "(\<exists>qs. proxies_loop env w i ps = Ret (None, qs)) \<longleftrightarrow> (\<forall>x\<in>set ps. \<exists>p. x = Some p \<and> Proxy_ok env w p)"
proof (induction ps arbitrary: i)
  case (Cons x ps)
  show ?case
  proof (cases x)
    case (Some p)
    show ?thesis
    proof (cases "Proxy_IsValid env w p")
      case (Pair e p')
      have e: "e = None \<longleftrightarrow> Proxy_ok env w p" using Proxy_valid [of env w p] Pair by simp
      show ?thesis
      proof (cases e)
        case None
        with Some Pair e Cons.IH [of "i + 1"] show ?thesis by (auto simp: go_bind_eq_Ret)
      qed (use Some Pair e in auto)
    qed
  qed simp
qed simp

lemma Basic_fields_valid:
  "Basic_fields_err c = None \<longleftrightarrow>
     b_Name c \<noteq> '''' \<and> b_PeersConfigFile c \<noteq> '''' \<and> 0 < b_UpchkPollingInterval c \<and>
     60 \<le> b_InactivityTime c \<and> (b_ResyncTime c = 0 \<or> b_InactivityTime c \<le> b_ResyncTime c)"
  by (auto simp: Basic_fields_err_def IsResyncTimerSet_def)

lemma Basic_proxies_valid:
  "(\<exists>c'. Basic_proxies_check env w c = Ret (None, c')) \<longleftrightarrow>
     b_Proxies c \<noteq> [] \<and> (\<forall>x\<in>set (b_Proxies c). \<exists>p. x = Some p \<and> Proxy_ok env w p)"
proof -
  have "(\<exists>c'. Basic_proxies_check env w c = Ret (None, c')) \<longleftrightarrow>
      b_Proxies c \<noteq> [] \<and> (\<exists>qs. proxies_loop env w 0 (b_Proxies c) = Ret (None, qs))"
    by (auto simp: Basic_proxies_check_def go_bind_eq_Ret split: prod.splits)
  then show ?thesis by (simp only: proxies_loop_valid)
qed

lemma Basic_privman_valid:
  "(\<exists>c'. Basic_privman_check env w c = Ret (None, c')) \<longleftrightarrow>
     pred_option (PrivacyManager_ok env w) (b_PrivacyManager c) \<and>
     (\<exists>c'. Basic_proxies_check env w c = Ret (None, c'))"
  by (auto simp: Basic_privman_check_def Basic_proxies_valid PrivacyManager_valid [symmetric] Let_def
      split: option.splits prod.splits)

lemma Basic_client_valid:
  "(\<exists>c'. Basic_client_check env w c = Ret (None, c')) \<longleftrightarrow>
     b_BlockchainClient c \<noteq> None \<and> pred_option (BlockchainClient_ok env w) (b_BlockchainClient c) \<and>
     (\<exists>c'. Basic_privman_check env w c = Ret (None, c'))"
  by (auto simp: Basic_client_check_def Basic_privman_valid Basic_proxies_valid
      BlockchainClient_valid [symmetric] Let_def split: option.splits prod.splits)

lemma Basic_valid: "(\<exists>c'. Basic_IsValid env w c = Ret (None, c')) \<longleftrightarrow> Basic_ok env w c"
proof -
  have "(\<exists>c'. Basic_IsValid env w c = Ret (None, c')) \<longleftrightarrow> Basic_fields_err c = None \<and>
      b_Server c \<noteq> None \<and> pred_option (RPCServer_ok env w) (b_Server c) \<and>
      (\<exists>c'. Basic_client_check env w c = Ret (None, c'))"
    by (auto simp: Basic_IsValid_def Basic_client_valid Basic_privman_valid Basic_proxies_valid
        RPCServer_valid [symmetric] Let_def split: option.splits prod.splits)
  then show ?thesis
    by (auto simp: Basic_ok_def Basic_fields_valid Basic_client_valid Basic_privman_valid Basic_proxies_valid)
qed

text \<open>A loop without \<open>nil\<close> elements does not panic.\<close>

lemma proxies_loop_no_panic: "None \<notin> set ps \<Longrightarrow> \<not> panics (proxies_loop env w i ps)"
proof (induction ps arbitrary: i)
  case (Cons x ps)
  then obtain p where x: "x = Some p" by (cases x) auto
  from Cons have "\<not> panics (proxies_loop env w (i + 1) ps)" by simp
  with x show ?case by (auto split: prod.splits option.splits)
qed simp

lemma PeerArr_loop_accepts:
  "PeerArr_loop env w i seen ps = Ret (Inr qs) \<longleftrightarrow>
     (\<exists>as. ps = map Some as \<and> distinct (map peer_Name as) \<and> fst ` set seen \<inter> peer_Name ` set as = {} \<and>
        (\<forall>a\<in>set as. Peer_ok env w a) \<and> qs = map (\<lambda>a. snd (Peer_IsValid env w a)) as)"
proof (induction ps arbitrary: i seen qs)
  case (Cons x ps)
  show ?case
  proof (cases x)
    case (Some a)
    obtain e a' where v: "Peer_IsValid env w a = (e, a')" by fastforce
    have e: "e = None \<longleftrightarrow> Peer_ok env w a" using Peer_valid [of env w a] v by simp
    show ?thesis
    proof (cases "has_key seen (peer_Name a) \<or> e \<noteq> None")
      case True
      with Some v e show ?thesis by (auto simp: has_key_iff Cons_eq_map_conv split: option.splits)
    next
      case False
      then have "PeerArr_loop env w i seen (x # ps) = Ret (Inr qs) \<longleftrightarrow>
          (\<exists>rs. PeerArr_loop env w (i + 1) ((peer_Name a, True) # seen) ps = Ret (Inr rs) \<and> qs = a' # rs)"
        using Some v by (auto simp: go_bind_eq_Ret split: sum.split_asm)
      with False Some v e show ?thesis
        unfolding Cons.IH by (fastforce simp: Cons_eq_map_conv has_key_iff)
    qed
  qed auto
qed auto

section \<open>Error texts\<close>

text \<open>The fields that lead to the cause of an error, outermost first, and the text of the cause.\<close>

fun err_path :: "cfg_err \<Rightarrow> string list" where
  "err_path (ErrText t) = []"
| "err_path (FieldErr f c) = f # err_path c"
| "err_path (ArrFieldErr f i c) = (f @ ''['' @ show_int i @ '']'') # err_path c"

fun err_cause :: "cfg_err \<Rightarrow> string" where
  "err_cause (ErrText t) = t"
| "err_cause (FieldErr f c) = err_cause c"
| "err_cause (ArrFieldErr f i c) = err_cause c"

fun dotted :: "string list \<Rightarrow> string" where
  "dotted [] = ''''"
| "dotted [f] = f"
| "dotted (f # fs) = f @ ''.'' @ dotted fs"

lemma is_field_err_path: "is_field_err e \<longleftrightarrow> err_path e \<noteq> []"
  by (cases e) simp_all

lemma dotted_Cons: "fs \<noteq> [] \<Longrightarrow> dotted (f # fs) = f @ ''.'' @ dotted fs"
  by (cases fs) simp_all

lemma Error_text: "Error e = (if err_path e = [] then err_cause e else dotted (err_path e) @ '' '' @ err_cause e)"
  by (induction e) (simp_all add: is_field_err_path dotted_Cons)

end
