(* ===== verification/Config_Node.thy ===== *)
theory Config_Node
  imports Config_Spec
begin

text \<open>
  \<open>config/node.go\<close>: the configuration of a node hibernator with its peers, and the check that
  the configured consensus is the one the client runs; and the methods of \<open>config/basic.go\<close>
  that reach through the client pointer, which panic when it is \<open>nil\<close>.
\<close>

record Node =
  nd_BasicConfig :: Basic
  nd_Peers :: "Peer list"

definition the_client :: "Basic \<Rightarrow> BlockchainClient go" where
  "the_client c = (case b_BlockchainClient c of
     None \<Rightarrow> Panic ''nil pointer dereference'' | Some b \<Rightarrow> Ret b)"

definition Basic_IsRaft :: "Basic \<Rightarrow> bool go" where
  "Basic_IsRaft c = go_bind (the_client c) (\<lambda>b. Ret (IsRaft b))"

definition Basic_IsIstanbul :: "Basic \<Rightarrow> bool go" where
  "Basic_IsIstanbul c = go_bind (the_client c) (\<lambda>b. Ret (IsIstanbul b))"

definition Basic_IsClique :: "Basic \<Rightarrow> bool go" where
  "Basic_IsClique c = go_bind (the_client c) (\<lambda>b. Ret (IsClique b))"

definition Basic_IsGoQuorumClient :: "Basic \<Rightarrow> bool go" where
  "Basic_IsGoQuorumClient c = go_bind (the_client c) (\<lambda>b. Ret (IsGoQuorumClient b))"

definition Basic_IsBesuClient :: "Basic \<Rightarrow> bool go" where
  "Basic_IsBesuClient c = go_bind (the_client c) (\<lambda>b. Ret (IsBesuClient b))"

definition adminInfoReq :: string where
  \<open>adminInfoReq = ''{"jsonrpc":"2.0", "method":"admin_nodeInfo", "params":[], "id":67}''\<close>

text \<open>The judgement on the answer of \<open>admin_nodeInfo\<close>.\<close>

definition eth_consensus :: "BlockchainClient \<Rightarrow> (string \<times> json) list \<Rightarrow> err option go" where
  "eth_consensus b protocols =
     (case Option.bind (obj_get protocols ''eth'') as_map of
        None \<Rightarrow> Panic ''interface conversion''
      | Some eth \<Rightarrow>
          (case obj_get eth ''consensus'' of
             None \<Rightarrow> Ret (Some ''IsConsensusValid - consensus key missing in node info api output'')
           | Some v \<Rightarrow>
               (case as_str v of
                  None \<Rightarrow> Panic ''interface conversion''
                | Some expected \<Rightarrow>
                    if expected = bc_Consensus b then Ret None
                    else Ret (Some (''IsConsensusValid - consensus mismatch. expected:'' @ expected
                                    @ '', have:'' @ bc_Consensus b)))))"

definition nodeInfo_consensus :: "BlockchainClient \<Rightarrow> (string \<times> json) list \<Rightarrow> err option go" where
  "nodeInfo_consensus b resp =
     (case Option.bind (obj_get resp ''result'') as_map of
        None \<Rightarrow> Panic ''interface conversion''
      | Some resMap \<Rightarrow>
          if obj_get resMap ''protocols'' \<in> {None, Some JNull} then
            Ret (Some ''IsConsensusValid - no consensus info found'')
          else
            (case Option.bind (obj_get resMap ''protocols'') as_map of
               None \<Rightarrow> Ret (Some ''IsConsensusValid - invalid consensus info found'')
             | Some protocols \<Rightarrow>
                 if obj_get protocols ''istanbul'' \<notin> {None, Some JNull} then
                   (if IsIstanbul b then Ret None
                    else Ret (Some ''IsConsensusValid - invalid consensus. it should be istanbul''))
                 else eth_consensus b protocols))"

definition IsConsensusValid :: "'w env \<Rightarrow> http_client option \<Rightarrow> Node \<Rightarrow> 'w \<Rightarrow> err option go \<times> 'w" where
  "IsConsensusValid env client c w =
     (case the_client (nd_BasicConfig c) of
        Panic m \<Rightarrow> (Panic m, w)
      | Hang \<Rightarrow> (Hang, w)
      | Ret b \<Rightarrow>
          if IsBesuClient b then (Ret None, w)
          else (let ((e, resp), w1) = CallRPC env client (bc_BcClntRpcUrl b) adminInfoReq dec_obj [] w
                in case e of
                     Some _ \<Rightarrow> (Ret None, w1)
                   | None \<Rightarrow> (nodeInfo_consensus b resp, w1)))"

section \<open>Facts\<close>

text \<open>A node whose answer names no \<open>istanbul\<close> protocol is accepted only under its own name.\<close>

lemma eth_consensus_accepts:
  "eth_consensus b ps = Ret None \<Longrightarrow>
     \<exists>eth. obj_get ps ''eth'' = Some (JObj eth) \<and> obj_get eth ''consensus'' = Some (JStr (bc_Consensus b))"
  by (auto simp: eth_consensus_def as_map_def as_str_def bind_eq_Some_conv
      split: option.splits if_splits json.splits)

lemma Basic_ok_client:
  assumes "Basic_ok env w c"
  obtains b where "the_client c = Ret b" and "b_BlockchainClient c = Some b" and "BlockchainClient_ok env w b"
  using assms by (auto simp: Basic_ok_def the_client_def)

end
