(* ===== verification/Consensus_Core.thy ===== *)
theory Consensus_Core
  imports Config_Node
begin

text \<open>
  \<open>consensus/core.go\<close>: the interface \<open>Consensus\<close>, with the promise that its comments make.
  An engine reports whether the node takes part in consensus, and answers an error when the node
  must not go down. Its view of the network is a number of nodes that are down and a total; its
  budget is the number of nodes that may be down.
\<close>

type_synonym verdict = "(bool \<times> err option) go"

locale consensus_engine =
  fixes validate :: "'w \<Rightarrow> verdict \<times> 'w"
    and member :: "'w \<Rightarrow> bool"
    and view :: "'w \<Rightarrow> (int \<times> int) option"
    and budget :: "int \<Rightarrow> int"
  assumes reports_member: "validate w = (Ret (b, None), w') \<Longrightarrow> b = member w"
    and within_budget: "validate w = (Ret (True, None), w') \<Longrightarrow>
          \<exists>d n. view w = Some (d, n) \<and> 0 \<le> d \<and> d + 1 \<le> budget n"
begin

text \<open>A member never gets a free pass: without an error there is a view that leaves room for it.\<close>

lemma member_needs_room:
  assumes "validate w = (Ret (b, None), w')" and "member w"
  shows "\<exists>d n. view w = Some (d, n) \<and> d + 1 \<le> budget n"
  using assms reports_member [OF assms(1)] within_budget [of w w'] by auto

text \<open>A full budget is an error for every member.\<close>

lemma full_budget_refused:
  assumes "validate w = (Ret (True, e), w')" and "view w = Some (d, n)" and "budget n \<le> d"
  shows "e \<noteq> None"
proof
  assume "e = None"
  with assms(1) within_budget [of w w'] obtain d' n' where "view w = Some (d', n')" "d' + 1 \<le> budget n'"
    by auto
  with assms(2,3) show False by simp
qed

end

text \<open>Engines whose budget keeps a majority up, and those that keep more than two thirds up.\<close>

locale majority_engine = consensus_engine +
  assumes budget_half: "0 < budget n \<Longrightarrow> 2 * budget n < n"
begin

lemma keeps_majority:
  assumes "validate w = (Ret (True, None), w')"
  shows "\<exists>d n. view w = Some (d, n) \<and> n < 2 * (n - (d + 1))"
proof -
  from within_budget [OF assms] obtain d n where v: "view w = Some (d, n)" "0 \<le> d" "d + 1 \<le> budget n"
    by blast
  with budget_half [of n] show ?thesis by fastforce
qed

end

locale bft_engine = consensus_engine +
  assumes budget_third: "0 < budget n \<Longrightarrow> 3 * budget n < n"
begin

lemma keeps_two_thirds:
  assumes "validate w = (Ret (True, None), w')"
  shows "\<exists>d n. view w = Some (d, n) \<and> 2 * n < 3 * (n - (d + 1))"
proof -
  from within_budget [OF assms] obtain d n where v: "view w = Some (d, n)" "0 \<le> d" "d + 1 \<le> budget n"
    by blast
  with budget_third [of n] show ?thesis by fastforce
qed

end

sublocale bft_engine \<subseteq> majority_engine
proof
  fix n assume "0 < budget n"
  with budget_third [of n] show "2 * budget n < n" by simp
qed

end
