(* ===== verification/Consensus_Quorum.thy ===== *)
theory Consensus_Quorum
  imports Consensus_Core
begin

text \<open>
  Package \<open>consensus/quorum\<close>: the shutdown checks of GoQuorum's Raft (\<open>raft.go\<close>), Istanbul
  BFT (\<open>istanbul.go\<close>) and Clique (\<open>clique.go\<close>). Maps decoded from JSON objects are association
  lists with distinct keys; every use of them is a count or a maximum.
\<close>

section \<open>Raft\<close>

record RaftClusterEntry =
  rc_Hostname :: string
  rc_NodeActive :: bool
  rc_NodeId :: string
  rc_P2pPort :: int
  rc_RaftId :: int
  rc_Role :: string

definition zero_RaftClusterEntry :: RaftClusterEntry where
  "zero_RaftClusterEntry = \<lparr>rc_Hostname = '''', rc_NodeActive = False, rc_NodeId = '''',
     rc_P2pPort = 0, rc_RaftId = 0, rc_Role = ''''\<rparr>"

definition dec_RaftClusterEntry :: "RaftClusterEntry dec" where
  "dec_RaftClusterEntry = dec_struct
     [json_field ''hostName'' rc_Hostname rc_Hostname_update dec_string,
      json_field ''nodeActive'' rc_NodeActive rc_NodeActive_update dec_bool,
      json_field ''nodeId'' rc_NodeId rc_NodeId_update dec_string,
      json_field ''p2pPort'' rc_P2pPort rc_P2pPort_update dec_int,
      json_field ''raftId'' rc_RaftId rc_RaftId_update dec_int,
      json_field ''role'' rc_Role rc_Role_update dec_string]"

definition MINTER :: string where "MINTER = ''minter''"
definition LEARNER :: string where "LEARNER = ''learner''"

definition RaftRoleReq :: string where
  \<open>RaftRoleReq = ''{"jsonrpc":"2.0", "method":"raft_role", "params":[], "id":67}''\<close>

definition RaftClusterReq :: string where
  \<open>RaftClusterReq = ''{"jsonrpc":"2.0", "method":"raft_cluster", "params":[], "id":67}''\<close>

definition getRole :: "'w env \<Rightarrow> http_client option \<Rightarrow> string \<Rightarrow> 'w \<Rightarrow> (string \<times> err option) \<times> 'w" where
  "getRole env client rpcUrl = rpc_get env client rpcUrl RaftRoleReq dec_string ''''"

definition getRaftClusterInfo ::
  "'w env \<Rightarrow> http_client option \<Rightarrow> string \<Rightarrow> 'w \<Rightarrow> (RaftClusterEntry list \<times> err option) \<times> 'w" where
  "getRaftClusterInfo env client rpcUrl =
     rpc_get env client rpcUrl RaftClusterReq (dec_slice zero_RaftClusterEntry dec_RaftClusterEntry) []"

definition raft_quorum_check :: "RaftClusterEntry list \<Rightarrow> err option" where
  "raft_quorum_check cluster =
     (let activeNodes = count_if rc_NodeActive cluster;
          totalNodes = int (length cluster);
          minActiveNodes = totalNodes sdiv 2 + 1
      in if activeNodes \<le> minActiveNodes then
           Some (''raft quorum failed, activeNodes='' @ show_int activeNodes
                 @ '' minimumActiveNodesRequired='' @ show_int minActiveNodes @ '' cannot be shutdown'')
         else None)"

definition Raft_ValidateShutdown :: "'w env \<Rightarrow> http_client option \<Rightarrow> string \<Rightarrow> 'w \<Rightarrow> verdict \<times> 'w" where
  "Raft_ValidateShutdown env client url w =
     (let ((role, err), w1) = getRole env client url w in
      case err of
        Some e \<Rightarrow> (Ret (False, Some (''unable to check raft role: '' @ e)), w1)
      | None \<Rightarrow>
          if role = LEARNER then (Ret (False, None), w1)
          else if role = MINTER then (Ret (True, Some ''minter node, cannot be shutdown''), w1)
          else (let ((cluster, err2), w2) = getRaftClusterInfo env client url w1 in
                case err2 of
                  Some e \<Rightarrow> (Ret (True, Some (''unable to check raft cluster info: '' @ e)), w2)
                | None \<Rightarrow> (Ret (True, raft_quorum_check cluster), w2)))"

section \<open>Istanbul\<close>

record IstanbulSealActivity =
  isa_NumBlocks :: int
  isa_SealerActivity :: "(string \<times> int) list"

definition zero_IstanbulSealActivity :: IstanbulSealActivity where
  "zero_IstanbulSealActivity = \<lparr>isa_NumBlocks = 0, isa_SealerActivity = []\<rparr>"

definition dec_IstanbulSealActivity :: "IstanbulSealActivity dec" where
  "dec_IstanbulSealActivity = dec_struct
     [json_field ''numBlocks'' isa_NumBlocks isa_NumBlocks_update dec_int,
      json_field ''sealerActivity'' isa_SealerActivity isa_SealerActivity_update (dec_map 0 dec_int)]"

definition IstanbulStatusReq :: string where
  \<open>IstanbulStatusReq = ''{"jsonrpc":"2.0", "method":"istanbul_status", "params":[], "id":67}''\<close>

definition IstanbulIsValidatorReq :: string where
  \<open>IstanbulIsValidatorReq = ''{"jsonrpc":"2.0", "method":"istanbul_isValidator", "params":[], "id":67}''\<close>

definition getIstanbulSealerActivity ::
  "'w env \<Rightarrow> http_client option \<Rightarrow> string \<Rightarrow> 'w \<Rightarrow> (IstanbulSealActivity \<times> err option) \<times> 'w" where
  "getIstanbulSealerActivity env client url =
     rpc_get env client url IstanbulStatusReq dec_IstanbulSealActivity zero_IstanbulSealActivity"

definition getIstanbulIsValidator :: "'w env \<Rightarrow> http_client option \<Rightarrow> string \<Rightarrow> 'w \<Rightarrow> (bool \<times> err option) \<times> 'w" where
  "getIstanbulIsValidator env client url = rpc_get env client url IstanbulIsValidatorReq dec_bool False"

definition max_sealed :: "(string \<times> int) list \<Rightarrow> int" where
  "max_sealed activity = foldl (\<lambda>m (_, numBlocks). if numBlocks > m then numBlocks else m) 0 activity"

definition istanbul_down :: "(string \<times> int) list \<Rightarrow> int" where
  "istanbul_down activity = (let m = max_sealed activity in count_if (\<lambda>(_, n). go_sub m n > 1) activity)"

text \<open>The text of the threshold errors, shared by Istanbul and the two Clique checks.\<close>

definition threshold_err :: "string \<Rightarrow> int \<Rightarrow> int \<Rightarrow> err" where
  "threshold_err engine allowed down = engine
     @ '' consensus check - the number of nodes currently down has reached threshold, numOfNodesThatCanBeDown:''
     @ show_int allowed @ '' numNodesDown:'' @ show_int down"

definition istanbul_check :: "IstanbulSealActivity \<Rightarrow> err option" where
  "istanbul_check activity =
     (if isa_NumBlocks activity = 0 then
        Some ''istanbul consensus check failed - block minting not started at network''
      else (let totalValidators = int (length (isa_SealerActivity activity));
                numNodesDown = istanbul_down (isa_SealerActivity activity);
                numOfNodesThatCanBeDown = (totalValidators - 1) sdiv 3
            in if numNodesDown \<ge> numOfNodesThatCanBeDown then
                 Some (threshold_err ''istanbul'' numOfNodesThatCanBeDown numNodesDown)
               else None))"

definition Istanbul_ValidateShutdown :: "'w env \<Rightarrow> http_client option \<Rightarrow> string \<Rightarrow> 'w \<Rightarrow> verdict \<times> 'w" where
  "Istanbul_ValidateShutdown env client url w =
     (let ((isValidator, err), w1) = getIstanbulIsValidator env client url w in
      case err of
        Some e \<Rightarrow> (Ret (isValidator, Some (''unable to check if istanbul validator: '' @ e)), w1)
      | None \<Rightarrow>
          if \<not> isValidator then (Ret (isValidator, None), w1)
          else (let ((activity, err2), w2) = getIstanbulSealerActivity env client url w1 in
                case err2 of
                  Some e \<Rightarrow> (Ret (isValidator, Some (''unable to check istanbul sealer status: '' @ e)), w2)
                | None \<Rightarrow> (Ret (isValidator, istanbul_check activity), w2)))"

section \<open>Clique\<close>

record CliqueStatus =
  cst_InTurnPercent :: string
  cst_NumBlocks :: int
  cst_SealerActivity :: "(string \<times> int) list"

definition zero_CliqueStatus :: CliqueStatus where
  "zero_CliqueStatus = \<lparr>cst_InTurnPercent = ''0'', cst_NumBlocks = 0, cst_SealerActivity = []\<rparr>"

definition dec_CliqueStatus :: "CliqueStatus dec" where
  "dec_CliqueStatus = dec_struct
     [json_field ''inTurnPercent'' cst_InTurnPercent cst_InTurnPercent_update dec_float,
      json_field ''numBlocks'' cst_NumBlocks cst_NumBlocks_update dec_int,
      json_field ''sealerActivity'' cst_SealerActivity cst_SealerActivity_update (dec_map 0 dec_int)]"

definition allowedSigningDiff :: int where "allowedSigningDiff = 2"

definition CliqueStatusReq :: string where
  \<open>CliqueStatusReq = ''{"jsonrpc":"2.0", "method":"clique_status", "params":[], "id":67}''\<close>

definition CoinBaseReq :: string where
  \<open>CoinBaseReq = ''{"jsonrpc":"2.0", "method":"eth_coinbase", "id":67}''\<close>

definition getCoinBaseAccount :: "'w env \<Rightarrow> http_client option \<Rightarrow> string \<Rightarrow> 'w \<Rightarrow> (string \<times> err option) \<times> 'w" where
  "getCoinBaseAccount env client url = rpc_get env client url CoinBaseReq dec_string ''''"

definition getConsensusStatus :: "'w env \<Rightarrow> http_client option \<Rightarrow> string \<Rightarrow> 'w \<Rightarrow> (CliqueStatus \<times> err option) \<times> 'w" where
  "getConsensusStatus env client url = rpc_get env client url CliqueStatusReq dec_CliqueStatus zero_CliqueStatus"

definition clique_down :: "int \<Rightarrow> (string \<times> int) list \<Rightarrow> int" where
  "clique_down maxSealingPerNode activity = count_if (\<lambda>(_, v). go_sub maxSealingPerNode v \<ge> allowedSigningDiff) activity"

definition clique_check :: "CliqueStatus \<Rightarrow> err option go" where
  "clique_check status =
     (let totalSealers = int (length (cst_SealerActivity status)) in
      go_bind (go_div (cst_NumBlocks status) totalSealers) (\<lambda>maxSealingPerNode.
        (let maxDownNodesAllowed = (totalSealers - 1) sdiv 2;
             potentialDownNodes = clique_down maxSealingPerNode (cst_SealerActivity status)
         in Ret (if potentialDownNodes \<ge> maxDownNodesAllowed then
                   Some (threshold_err ''clique'' maxDownNodesAllowed potentialDownNodes)
                 else None))))"

definition Clique_ValidateShutdown :: "'w env \<Rightarrow> http_client option \<Rightarrow> string \<Rightarrow> 'w \<Rightarrow> verdict \<times> 'w" where
  "Clique_ValidateShutdown env client url w =
     (let ((status, err), w1) = getConsensusStatus env client url w in
      case err of
        Some e \<Rightarrow> (Ret (False, Some e), w1)
      | None \<Rightarrow>
          (let ((coinbase, err2), w2) = getCoinBaseAccount env client url w1 in
           case err2 of
             Some e \<Rightarrow> (Ret (False, Some e), w2)
           | None \<Rightarrow>
               if \<not> has_key (cst_SealerActivity status) coinbase then (Ret (False, None), w2)
               else (go_bind (clique_check status) (\<lambda>e. Ret (True, e)), w2)))"

end
