(* ===== verification/Consensus_Besu.thy ===== *)
theory Consensus_Besu
  imports Consensus_Quorum
begin

text \<open>
  Package \<open>consensus/besu\<close>: the Clique shutdown check for Besu (\<open>consensus/besu/clique.go\<close>).
  Numbers come as hexadecimal strings: slicing off their first two bytes panics when they are
  shorter, and a number that does not parse is an error.
\<close>

record BesuCliqueStatus =
  bst_Address :: string
  bst_ProposedBlockCount :: string
  bst_LastProposedBlockNumber :: string

definition zero_BesuCliqueStatus :: BesuCliqueStatus where
  "zero_BesuCliqueStatus = \<lparr>bst_Address = '''', bst_ProposedBlockCount = '''', bst_LastProposedBlockNumber = ''''\<rparr>"

definition dec_BesuCliqueStatus :: "BesuCliqueStatus dec" where
  "dec_BesuCliqueStatus = dec_struct
     [json_field ''address'' bst_Address bst_Address_update dec_string,
      json_field ''proposedBlockCount'' bst_ProposedBlockCount bst_ProposedBlockCount_update dec_string,
      json_field ''lastProposedBlockNumber'' bst_LastProposedBlockNumber bst_LastProposedBlockNumber_update dec_string]"

definition BlockNumberReq :: string where
  \<open>BlockNumberReq = ''{"jsonrpc":"2.0", "method":"eth_blockNumber", "params":[], "id":67}''\<close>

definition CLiqueSigners :: string where
  \<open>CLiqueSigners = ''{"jsonrpc":"2.0", "method":"clique_getSigners", "params":[], "id":67}''\<close>

definition BesuCliqueStatusReq :: string where
  \<open>BesuCliqueStatusReq = ''{"jsonrpc":"2.0", "method":"clique_getSignerMetrics", "params":[], "id":67}''\<close>

text \<open>\<open>strconv.ParseInt(s, 16, 64)\<close>: an optional sign, hexadecimal digits, and the range check.\<close>

definition ParseInt16 :: "string \<Rightarrow> err + int" where
  "ParseInt16 s =
     (let (neg, ds) = (case s of [] \<Rightarrow> (False, []) | c # cs \<Rightarrow>
            if c = CHR ''+'' then (False, cs) else if c = CHR ''-'' then (True, cs) else (False, s))
      in if ds = [] then Inl (''strconv.ParseInt: parsing: invalid syntax'')
         else (case hex_value 0 ds of
                 None \<Rightarrow> Inl (''strconv.ParseInt: parsing: invalid syntax'')
               | Some n \<Rightarrow> (let i = (if neg then - int n else int n) in
                   if int64_range i then Inr i else Inl (''strconv.ParseInt: value out of range''))))"

definition from2 :: "string \<Rightarrow> string go" where
  "from2 s = (if length s < 2 then Panic ''slice bounds out of range'' else Ret (drop 2 s))"

definition getCurrentBlockNumber ::
  "'w env \<Rightarrow> http_client option \<Rightarrow> string \<Rightarrow> 'w \<Rightarrow> (int \<times> err option) go \<times> 'w" where
  "getCurrentBlockNumber env client url w =
     (let ((r, e), w1) = rpc_get env client url BlockNumberReq dec_string '''' w in
      case e of
        Some x \<Rightarrow> (Ret (0, Some x), w1)
      | None \<Rightarrow> (go_bind (from2 r) (\<lambda>h. Ret (case ParseInt16 h of Inl x \<Rightarrow> (0, Some x) | Inr n \<Rightarrow> (n, None))), w1))"

definition getSigners :: "'w env \<Rightarrow> http_client option \<Rightarrow> string \<Rightarrow> 'w \<Rightarrow> (string list \<times> err option) \<times> 'w" where
  "getSigners env client url = rpc_get env client url CLiqueSigners (dec_slice '''' dec_string) []"

definition Besu_getCoinBaseAccount ::
  "'w env \<Rightarrow> http_client option \<Rightarrow> string \<Rightarrow> 'w \<Rightarrow> (string \<times> err option) \<times> 'w" where
  "Besu_getCoinBaseAccount env client url = rpc_get env client url CoinBaseReq dec_string ''''"

definition Besu_getConsensusStatus ::
  "'w env \<Rightarrow> http_client option \<Rightarrow> string \<Rightarrow> 'w \<Rightarrow> (BesuCliqueStatus list \<times> err option) \<times> 'w" where
  "Besu_getConsensusStatus env client url =
     rpc_get env client url BesuCliqueStatusReq (dec_slice zero_BesuCliqueStatus dec_BesuCliqueStatus) []"

text \<open>The loop over the signer metrics: the number of nodes down, or the first parse error.\<close>

fun besu_down :: "int \<Rightarrow> int \<Rightarrow> BesuCliqueStatus list \<Rightarrow> int \<Rightarrow> (err + int) go" where
  "besu_down curBlockNum totalSigners [] nodesDown = Ret (Inr nodesDown)"
| "besu_down curBlockNum totalSigners (v # vs) nodesDown =
     go_bind (from2 (bst_LastProposedBlockNumber v)) (\<lambda>h.
       case ParseInt16 h of
         Inl e \<Rightarrow> Ret (Inl e)
       | Inr proposed \<Rightarrow>
           besu_down curBlockNum totalSigners vs
             (if go_sub curBlockNum proposed > totalSigners then nodesDown + 1 else nodesDown))"

definition besu_check :: "int \<Rightarrow> string list \<Rightarrow> BesuCliqueStatus list \<Rightarrow> err option go" where
  "besu_check curBlockNum signers status =
     (let totalSigners = int (length signers) in
      go_bind (besu_down curBlockNum totalSigners status 0) (\<lambda>r.
        case r of
          Inl e \<Rightarrow> Ret (Some e)
        | Inr nodesDown \<Rightarrow>
            (let allowedDownNodes = (totalSigners - 1) sdiv 2 in
             Ret (if nodesDown \<ge> allowedDownNodes then Some (threshold_err ''clique'' allowedDownNodes nodesDown)
                  else None))))"

definition Besu_ValidateShutdown :: "'w env \<Rightarrow> http_client option \<Rightarrow> string \<Rightarrow> 'w \<Rightarrow> verdict \<times> 'w" where
  "Besu_ValidateShutdown env client url w =
     (let ((coinbase, err), w1) = Besu_getCoinBaseAccount env client url w in
      case err of
        Some e \<Rightarrow> (Ret (False, Some e), w1)
      | None \<Rightarrow>
          (let ((signers, err2), w2) = getSigners env client url w1 in
           case err2 of
             Some e \<Rightarrow> (Ret (False, Some e), w2)
           | None \<Rightarrow>
               if coinbase \<notin> set signers then (Ret (False, None), w2)
               else (case getCurrentBlockNumber env client url w2 of
                       (Panic m, w3) \<Rightarrow> (Panic m, w3)
                     | (Hang, w3) \<Rightarrow> (Hang, w3)
                     | (Ret (curBlockNum, Some e), w3) \<Rightarrow> (Ret (True, Some e), w3)
                     | (Ret (curBlockNum, None), w3) \<Rightarrow>
                         (let ((status, err4), w4) = Besu_getConsensusStatus env client url w3 in
                          case err4 of
                            Some e \<Rightarrow> (Ret (True, Some e), w4)
                          | None \<Rightarrow> (go_bind (besu_check curBlockNum signers status) (\<lambda>e. Ret (True, e)), w4)))))"

end
