(* ===== verification/Consensus.thy ===== *)
theory Consensus
  imports Consensus_Besu
begin

text \<open>
  The shutdown checks meet the contract of \<open>Consensus_Core\<close>: views and budgets of the four
  engines, and the interpretations. A view is what the client reported: for Raft the inactive
  entries of the cluster, for the others the signers that have fallen behind.
\<close>

section \<open>Views and budgets\<close>

definition half_budget :: "int \<Rightarrow> int" where "half_budget n = (n - 1) div 2"
definition third_budget :: "int \<Rightarrow> int" where "third_budget n = (n - 1) div 3"

definition raft_member :: "'w env \<Rightarrow> http_client option \<Rightarrow> string \<Rightarrow> 'w \<Rightarrow> bool" where
  "raft_member env client url w = (let ((role, err), w1) = getRole env client url w in role \<noteq> LEARNER)"

definition raft_view :: "'w env \<Rightarrow> http_client option \<Rightarrow> string \<Rightarrow> 'w \<Rightarrow> (int \<times> int) option" where
  "raft_view env client url w =
     (let ((role, err), w1) = getRole env client url w;
          ((cluster, err2), w2) = getRaftClusterInfo env client url w1
      in if err = None \<and> err2 = None then
           Some (count_if (\<lambda>n. \<not> rc_NodeActive n) cluster, int (length cluster))
         else None)"

definition istanbul_member :: "'w env \<Rightarrow> http_client option \<Rightarrow> string \<Rightarrow> 'w \<Rightarrow> bool" where
  "istanbul_member env client url w = (let ((v, err), w1) = getIstanbulIsValidator env client url w in v)"

definition istanbul_view :: "'w env \<Rightarrow> http_client option \<Rightarrow> string \<Rightarrow> 'w \<Rightarrow> (int \<times> int) option" where
  "istanbul_view env client url w =
     (let ((v, err), w1) = getIstanbulIsValidator env client url w;
          ((activity, err2), w2) = getIstanbulSealerActivity env client url w1
      in if err = None \<and> err2 = None then
           Some (istanbul_down (isa_SealerActivity activity), int (length (isa_SealerActivity activity)))
         else None)"

definition clique_member :: "'w env \<Rightarrow> http_client option \<Rightarrow> string \<Rightarrow> 'w \<Rightarrow> bool" where
  "clique_member env client url w =
     (let ((status, err), w1) = getConsensusStatus env client url w;
          ((coinbase, err2), w2) = getCoinBaseAccount env client url w1
      in has_key (cst_SealerActivity status) coinbase)"

definition clique_view :: "'w env \<Rightarrow> http_client option \<Rightarrow> string \<Rightarrow> 'w \<Rightarrow> (int \<times> int) option" where
  "clique_view env client url w =
     (let ((status, err), w1) = getConsensusStatus env client url w;
          n = int (length (cst_SealerActivity status))
      in if err = None \<and> n \<noteq> 0 then
           Some (clique_down (wrap64 (cst_NumBlocks status sdiv n)) (cst_SealerActivity status), n)
         else None)"

definition besu_member :: "'w env \<Rightarrow> http_client option \<Rightarrow> string \<Rightarrow> 'w \<Rightarrow> bool" where
  "besu_member env client url w =
     (let ((coinbase, err), w1) = Besu_getCoinBaseAccount env client url w;
          ((signers, err2), w2) = getSigners env client url w1
      in coinbase \<in> set signers)"

definition besu_view :: "'w env \<Rightarrow> http_client option \<Rightarrow> string \<Rightarrow> 'w \<Rightarrow> (int \<times> int) option" where
  "besu_view env client url w =
     (let ((coinbase, err), w1) = Besu_getCoinBaseAccount env client url w;
          ((signers, err2), w2) = getSigners env client url w1;
          (cur, w3) = getCurrentBlockNumber env client url w2;
          ((status, err4), w4) = Besu_getConsensusStatus env client url w3
      in case cur of
           Panic m \<Rightarrow> None
         | Hang \<Rightarrow> None
         | Ret (n, e) \<Rightarrow>
             (case besu_down n (int (length signers)) status 0 of
                Ret (Inr d) \<Rightarrow> Some (d, int (length signers))
              | _ \<Rightarrow> None))"

section \<open>The checks leave room for the node\<close>

lemma raft_quorum_check_ok:
  assumes "raft_quorum_check c = None"
  shows "count_if (\<lambda>n. \<not> rc_NodeActive n) c + 1 \<le> half_budget (int (length c))"
proof -
  have "count_if rc_NodeActive c > int (length c) div 2 + 1"
    using assms by (auto simp: raft_quorum_check_def Let_def sdiv_pos split: if_splits)
  then show ?thesis by (simp add: count_if_Not half_budget_def)
qed

lemma istanbul_check_ok:
  assumes "istanbul_check a = None"
  shows "istanbul_down (isa_SealerActivity a) + 1 \<le> third_budget (int (length (isa_SealerActivity a)))"
proof (cases "isa_SealerActivity a = []")
  case True
  with assms show ?thesis
    by (auto simp: istanbul_check_def istanbul_down_def sdiv_pos split: if_splits)
next
  case False
  then have "0 \<le> int (length (isa_SealerActivity a)) - 1" by (cases "isa_SealerActivity a") auto
  with assms show ?thesis
    by (auto simp: istanbul_check_def third_budget_def sdiv_pos Let_def split: if_splits)
qed

lemma clique_check_ok:
  assumes "clique_check s = Ret None"
  defines "n \<equiv> int (length (cst_SealerActivity s))"
  shows "n \<noteq> 0"
    and "clique_down (wrap64 (cst_NumBlocks s sdiv n)) (cst_SealerActivity s) + 1 \<le> half_budget n"
proof -
  show n: "n \<noteq> 0" using assms by (auto simp: clique_check_def Let_def go_div_def)
  then have "0 \<le> n - 1" by (simp add: n_def)
  with assms n show "clique_down (wrap64 (cst_NumBlocks s sdiv n)) (cst_SealerActivity s) + 1 \<le> half_budget n"
    by (auto simp: clique_check_def Let_def go_div_def half_budget_def sdiv_pos split: if_splits)
qed

lemma besu_down_bounds:
  "besu_down cur t vs k = Ret (Inr d) \<Longrightarrow> k \<le> d \<and> d \<le> k + int (length vs)"
proof (induction vs arbitrary: k)
  case (Cons v vs)
  show ?case
  proof (cases "from2 (bst_LastProposedBlockNumber v)")
    case (Ret h)
    with Cons show ?thesis by (cases "ParseInt16 h") (fastforce split: if_splits)+
  qed (use Cons.prems in simp_all)
qed simp

lemma besu_check_ok:
  assumes "besu_check cur signers status = Ret None" and "signers \<noteq> []"
  obtains d where "besu_down cur (int (length signers)) status 0 = Ret (Inr d)"
    and "0 \<le> d" and "d + 1 \<le> half_budget (int (length signers))"
proof -
  have pos: "0 \<le> int (length signers) - 1" using assms(2) by (cases signers) auto
  from assms(1) obtain r where r: "besu_down cur (int (length signers)) status 0 = Ret r"
    by (auto simp: besu_check_def go_bind_eq_Ret Let_def)
  with assms(1) obtain d where d: "besu_down cur (int (length signers)) status 0 = Ret (Inr d)"
    and lt: "\<not> d \<ge> (int (length signers) - 1) sdiv 2"
    by (cases r) (auto simp: besu_check_def Let_def split: if_splits)
  from besu_down_bounds [OF d] pos lt show thesis
    by (intro that [OF d]) (auto simp: half_budget_def sdiv_pos)
qed

section \<open>The four engines\<close>

lemma half_budget_half: "0 < half_budget n \<Longrightarrow> 2 * half_budget n < n"
  by (simp add: half_budget_def)

lemma third_budget_third: "0 < third_budget n \<Longrightarrow> 3 * third_budget n < n"
  by (simp add: third_budget_def)

lemma count_if_nonneg: "0 \<le> count_if P xs"
  by (rule count_if_bounds)

interpretation raft: majority_engine "Raft_ValidateShutdown env client url" "raft_member env client url"
    "raft_view env client url" half_budget for env client url
proof
  fix w w' b
  assume "Raft_ValidateShutdown env client url w = (Ret (b, None), w')"
  then show "b = raft_member env client url w"
    by (auto simp: Raft_ValidateShutdown_def raft_member_def Let_def split: prod.splits option.splits if_splits)
next
  fix w w'
  assume a: "Raft_ValidateShutdown env client url w = (Ret (True, None), w')"
  then obtain role w1 cluster where r: "getRole env client url w = ((role, None), w1)"
    and c: "getRaftClusterInfo env client url w1 = ((cluster, None), w')"
    and q: "raft_quorum_check cluster = None"
    by (auto simp: Raft_ValidateShutdown_def Let_def split: prod.splits option.splits if_splits)
  from raft_quorum_check_ok [OF q] show
    "\<exists>d n. raft_view env client url w = Some (d, n) \<and> 0 \<le> d \<and> d + 1 \<le> half_budget n"
    by (simp add: raft_view_def r c count_if_nonneg)
qed (rule half_budget_half)

interpretation istanbul: bft_engine "Istanbul_ValidateShutdown env client url" "istanbul_member env client url"
    "istanbul_view env client url" third_budget for env client url
proof
  fix w w' b
  assume "Istanbul_ValidateShutdown env client url w = (Ret (b, None), w')"
  then show "b = istanbul_member env client url w"
    by (auto simp: Istanbul_ValidateShutdown_def istanbul_member_def Let_def
        split: prod.splits option.splits if_splits)
next
  fix w w'
  assume a: "Istanbul_ValidateShutdown env client url w = (Ret (True, None), w')"
  then obtain w1 act where r: "getIstanbulIsValidator env client url w = ((True, None), w1)"
    and c: "getIstanbulSealerActivity env client url w1 = ((act, None), w')"
    and q: "istanbul_check act = None"
    by (auto simp: Istanbul_ValidateShutdown_def Let_def split: prod.splits option.splits if_splits)
  from istanbul_check_ok [OF q] show
    "\<exists>d n. istanbul_view env client url w = Some (d, n) \<and> 0 \<le> d \<and> d + 1 \<le> third_budget n"
    by (simp add: istanbul_view_def r c count_if_nonneg istanbul_down_def)
qed (rule third_budget_third)

interpretation clique: majority_engine "Clique_ValidateShutdown env client url" "clique_member env client url"
    "clique_view env client url" half_budget for env client url
proof
  fix w w' b
  assume "Clique_ValidateShutdown env client url w = (Ret (b, None), w')"
  then show "b = clique_member env client url w"
    by (auto simp: Clique_ValidateShutdown_def clique_member_def go_bind_eq_Ret Let_def
        split: prod.splits option.splits if_splits)
next
  fix w w'
  assume a: "Clique_ValidateShutdown env client url w = (Ret (True, None), w')"
  then obtain status w1 where s: "getConsensusStatus env client url w = ((status, None), w1)"
    and q: "clique_check status = Ret None"
    by (auto simp: Clique_ValidateShutdown_def go_bind_eq_Ret Let_def split: prod.splits option.splits if_splits)
  from clique_check_ok [OF q] show
    "\<exists>d n. clique_view env client url w = Some (d, n) \<and> 0 \<le> d \<and> d + 1 \<le> half_budget n"
    by (simp add: clique_view_def s count_if_nonneg clique_down_def Let_def)
qed (rule half_budget_half)

interpretation besu: majority_engine "Besu_ValidateShutdown env client url" "besu_member env client url"
    "besu_view env client url" half_budget for env client url
proof
  fix w w' b
  assume "Besu_ValidateShutdown env client url w = (Ret (b, None), w')"
  then show "b = besu_member env client url w"
    by (auto simp: Besu_ValidateShutdown_def besu_member_def go_bind_eq_Ret Let_def
        split: prod.splits option.splits if_splits go.splits)
next
  fix w w'
  assume a: "Besu_ValidateShutdown env client url w = (Ret (True, None), w')"
  then obtain cb w1 sg w2 cur w3 st where
    r: "Besu_getCoinBaseAccount env client url w = ((cb, None), w1)"
       "getSigners env client url w1 = ((sg, None), w2)" "cb \<in> set sg"
       "getCurrentBlockNumber env client url w2 = (Ret (cur, None), w3)"
       "Besu_getConsensusStatus env client url w3 = ((st, None), w')"
    and q: "besu_check cur sg st = Ret None"
    by (auto simp: Besu_ValidateShutdown_def go_bind_eq_Ret Let_def
        split: prod.splits option.splits if_splits go.splits)
  from r(3) have "sg \<noteq> []" by auto
  with q obtain d where "besu_down cur (int (length sg)) st 0 = Ret (Inr d)" "0 \<le> d"
    "d + 1 \<le> half_budget (int (length sg))"
    by (rule besu_check_ok)
  with r show "\<exists>d n. besu_view env client url w = Some (d, n) \<and> 0 \<le> d \<and> d + 1 \<le> half_budget n"
    by (simp add: besu_view_def)
qed (rule half_budget_half)

section \<open>What the verdicts do not depend on\<close>

text \<open>Go iterates over maps in a random order: the verdicts on sealers do not depend on it.\<close>

lemma foldl_max: "foldl (\<lambda>m (_, n). if n > m then n else m) k xs = Max (insert k (snd ` set xs))"
  for k :: "'a::linorder"
proof (induction xs arbitrary: k)
  case (Cons x xs)
  obtain a b where x: "x = (a, b)" by fastforce
  have "foldl (\<lambda>m (_, n). if n > m then n else m) k (x # xs) = Max (insert (max k b) (snd ` set xs))"
    using Cons.IH by (simp add: x max_def not_less)
  also have "\<dots> = Max (insert k (insert b (snd ` set xs)))"
    by (cases "snd ` set xs = {}") (simp_all add: max.assoc)
  finally show ?case by (simp add: x)
qed simp

lemma max_sealed_set: "max_sealed xs = Max (insert 0 (snd ` set xs))"
  unfolding max_sealed_def by (rule foldl_max)

lemma istanbul_check_mset:
  assumes "mset xs = mset ys"
  shows "istanbul_check \<lparr>isa_NumBlocks = b, isa_SealerActivity = xs\<rparr> = istanbul_check \<lparr>isa_NumBlocks = b, isa_SealerActivity = ys\<rparr>"
proof -
  have "max_sealed xs = max_sealed ys" using mset_eq_setD [OF assms] by (simp add: max_sealed_set)
  then have "istanbul_down xs = istanbul_down ys"
    using count_if_mset [OF assms] by (simp add: istanbul_down_def Let_def)
  with mset_eq_length [OF assms] show ?thesis by (simp add: istanbul_check_def)
qed

lemma clique_check_mset:
  assumes "mset xs = mset ys"
  shows "clique_check \<lparr>cst_InTurnPercent = p, cst_NumBlocks = b, cst_SealerActivity = xs\<rparr> =
    clique_check \<lparr>cst_InTurnPercent = p, cst_NumBlocks = b, cst_SealerActivity = ys\<rparr>"
  using mset_eq_length [OF assms] count_if_mset [OF assms] by (simp add: clique_check_def clique_down_def)

text \<open>
  The GoQuorum checks always return. Clique divides by the number of sealers only after it has
  found the node among them.
\<close>

lemma Raft_ValidateShutdown_returns: "returns (fst (Raft_ValidateShutdown env client url w))"
  by (simp add: Raft_ValidateShutdown_def Let_def split: prod.split option.split)

lemma Istanbul_ValidateShutdown_returns: "returns (fst (Istanbul_ValidateShutdown env client url w))"
  by (simp add: Istanbul_ValidateShutdown_def Let_def split: prod.split option.split)

lemma clique_check_returns: "cst_SealerActivity s \<noteq> [] \<Longrightarrow> returns (clique_check s)"
  by (simp add: clique_check_def go_div_def Let_def)

lemma Clique_ValidateShutdown_returns: "returns (fst (Clique_ValidateShutdown env client url w))"
proof -
  have "\<exists>e. clique_check s = Ret e" if "has_key (cst_SealerActivity s) k" for s k
    using clique_check_returns [of s] that by (cases "cst_SealerActivity s") (auto simp: has_key_def returns_iff)
  then show ?thesis
    by (force simp: Clique_ValidateShutdown_def Let_def go_bind_eq_Ret returns_iff split: prod.split option.split)
qed

section \<open>Exactly when the checks pass\<close>

text \<open>A check passes exactly when what is up without the node is a majority, or more than two thirds.\<close>

lemma raft_quorum_check_iff:
  "raft_quorum_check c = None \<longleftrightarrow> int (length c) < 2 * (count_if rc_NodeActive c - 1)"
  by (auto simp: raft_quorum_check_def Let_def sdiv_pos)

lemma istanbul_check_iff:
  "istanbul_check a = None \<longleftrightarrow> isa_NumBlocks a \<noteq> 0 \<and>
     2 * int (length (isa_SealerActivity a))
       < 3 * (int (length (isa_SealerActivity a)) - (istanbul_down (isa_SealerActivity a) + 1))"
proof (cases "isa_SealerActivity a = []")
  case True
  then show ?thesis by (simp add: istanbul_check_def istanbul_down_def Let_def signed_divide_int_def)
next
  case False
  then have "0 \<le> int (length (isa_SealerActivity a)) - 1" by (cases "isa_SealerActivity a") auto
  then show ?thesis by (auto simp: istanbul_check_def Let_def sdiv_pos)
qed

lemma clique_check_iff:
  "clique_check s = Ret None \<longleftrightarrow> cst_SealerActivity s \<noteq> [] \<and>
     (let n = int (length (cst_SealerActivity s)) in
      n < 2 * (n - (clique_down (wrap64 (cst_NumBlocks s sdiv n)) (cst_SealerActivity s) + 1)))"
proof (cases "cst_SealerActivity s = []")
  case True
  then show ?thesis by (simp add: clique_check_def go_div_def)
next
  case False
  then have "0 \<le> int (length (cst_SealerActivity s)) - 1" by (cases "cst_SealerActivity s") auto
  with False show ?thesis by (auto simp: clique_check_def Let_def go_div_def sdiv_pos)
qed

lemma besu_check_iff:
  assumes "signers \<noteq> []"
  shows "besu_check cur signers status = Ret None \<longleftrightarrow>
    (\<exists>d. besu_down cur (int (length signers)) status 0 = Ret (Inr d) \<and>
       int (length signers) < 2 * (int (length signers) - (d + 1)))"
proof -
  have "0 \<le> int (length signers) - 1" using assms by (cases signers) auto
  then show ?thesis
    by (cases "besu_down cur (int (length signers)) status 0")
       (auto simp: besu_check_def Let_def sdiv_pos split: sum.splits)
qed

text \<open>The metric entries that a Besu node counts as down: those whose last block is too old.\<close>

definition besu_lags :: "int \<Rightarrow> int \<Rightarrow> BesuCliqueStatus \<Rightarrow> bool" where
  "besu_lags cur t v \<longleftrightarrow> (\<exists>p. ParseInt16 (drop 2 (bst_LastProposedBlockNumber v)) = Inr p \<and> t < go_sub cur p)"

lemma besu_down_count:
  "besu_down cur t vs k = Ret (Inr d) \<Longrightarrow> d = k + int (length (filter (besu_lags cur t) vs))"
proof (induction vs arbitrary: k)
  case (Cons v vs)
  then obtain p where "ParseInt16 (drop 2 (bst_LastProposedBlockNumber v)) = Inr p"
    and "besu_down cur t vs (if go_sub cur p > t then k + 1 else k) = Ret (Inr d)"
    by (auto simp: from2_def go_bind_eq_Ret split: if_split_asm sum.split_asm)
  with Cons.IH [of "if go_sub cur p > t then k + 1 else k"] show ?case by (simp add: besu_lags_def)
qed simp

end
