(* ===== verification/Process_Control.thy ===== *)
theory Process_Control
  imports Config_Node
begin

text \<open>
  Package \<open>process\<close>: the interface \<open>Process\<close> with the up check and the shell command
  (\<open>process/core.go\<close>), processes controlled by shell commands (\<open>process/shell.go\<close>) and Docker
  containers (\<open>process/docker.go\<close>). A controller holds its configuration with the up check
  behind its pointer: constructing one runs the up check, which panics without it. The mutex of a
  controller serialises \<open>Start\<close> and \<open>Stop\<close>; each is one operation here. Neither \<open>cmd.Run()\<close>
  nor a call to the Docker daemon has a time limit, so both operations may \<open>Hang\<close>.
\<close>

section \<open>Up checks and commands\<close>

definition IsProcessUp :: "'w env \<Rightarrow> http_client option \<Rightarrow> Upcheck \<Rightarrow> 'w \<Rightarrow> (bool \<times> err option) \<times> 'w" where
  "IsProcessUp env client cfg w =
     (if IsRpcResult cfg then
        (let ((e, resp), w1) = CallRPC env client (up_UpcheckUrl cfg) (up_Body cfg) (dec_resp dec_any)
               \<lparr>resp_Result = JNull, resp_Error = None\<rparr> w
         in if e \<noteq> None \<or> resp_Error resp \<noteq> None then ((False, Some ErrNodeDown), w1) else ((True, None), w1))
      else if IsStringResult cfg then
        (let ((resp, e), w1) = CallREST env client (up_UpcheckUrl cfg) (up_Method cfg) (up_Body cfg) w
         in if e \<noteq> None then ((False, Some ErrNodeDown), w1)
            else if resp = up_Expected cfg then ((True, None), w1)
            else ((False, Some ErrNodeDown), w1))
      else ((True, None), w))"

definition ExecuteShellCommand :: "'w env \<Rightarrow> string list \<Rightarrow> 'w \<Rightarrow> err option go \<times> 'w" where
  "ExecuteShellCommand env cmdArr w =
     (if cmdArr = [] then (Panic ''index out of range'', w)
      else (let (e, w1) = cmd_run env cmdArr w in (awaited e, w1)))"

text \<open>
  The bounded wait of \<open>WaitToComeUp\<close> and \<open>WaitToBeDown\<close>: update the status until it is the
  wanted one, with one second of sleep after every miss.
\<close>

fun poll_loop :: "('p \<Rightarrow> 'w \<Rightarrow> (bool \<times> 'p) \<times> 'w) \<Rightarrow> ('w \<Rightarrow> 'w) \<Rightarrow> bool \<Rightarrow> nat \<Rightarrow> 'p \<Rightarrow> 'w \<Rightarrow> (bool \<times> 'p) \<times> 'w" where
  "poll_loop upd slp want 0 p w = ((False, p), w)"
| "poll_loop upd slp want (Suc n) p w =
     (let ((s, p1), w1) = upd p w
      in if s = want then ((True, p1), w1) else poll_loop upd slp want n p1 (slp w1))"

definition retryCount :: nat where "retryCount = 30"

section \<open>Shell processes\<close>

record ShellProcessControl =
  sp_cfg :: Process
  sp_upcheck :: Upcheck
  sp_status :: bool
  sp_client :: "http_client option"

definition Shell_UpdateStatus :: "'w env \<Rightarrow> ShellProcessControl \<Rightarrow> 'w \<Rightarrow> (bool \<times> ShellProcessControl) \<times> 'w" where
  "Shell_UpdateStatus env sp w =
     (let ((s, err), w1) = IsProcessUp env (sp_client sp) (sp_upcheck sp) w;
          sp' = (if err \<noteq> None then sp\<lparr>sp_status := False\<rparr> else sp\<lparr>sp_status := s\<rparr>)
      in ((sp_status sp', sp'), w1))"

definition NewShellProcess ::
  "'w env \<Rightarrow> http_client option \<Rightarrow> Process \<Rightarrow> bool \<Rightarrow> 'w \<Rightarrow> ShellProcessControl go \<times> 'w" where
  "NewShellProcess env c p s w =
     (case pr_UpcheckCfg p of
        None \<Rightarrow> (Panic ''nil pointer dereference'', w)
      | Some u \<Rightarrow>
          (let ((_, sp), w1) = Shell_UpdateStatus env
                 \<lparr>sp_cfg = p, sp_upcheck = u, sp_status = s, sp_client = c\<rparr> w
           in (Ret sp, w1)))"

definition Shell_WaitToComeUp :: "'w env \<Rightarrow> ShellProcessControl \<Rightarrow> 'w \<Rightarrow> (bool \<times> ShellProcessControl) \<times> 'w" where
  "Shell_WaitToComeUp env = poll_loop (Shell_UpdateStatus env) (sleep env Second) True retryCount"

definition Shell_WaitToBeDown :: "'w env \<Rightarrow> ShellProcessControl \<Rightarrow> 'w \<Rightarrow> (bool \<times> ShellProcessControl) \<times> 'w" where
  "Shell_WaitToBeDown env = poll_loop (Shell_UpdateStatus env) (sleep env Second) False retryCount"

definition Shell_Stop :: "'w env \<Rightarrow> ShellProcessControl \<Rightarrow> 'w \<Rightarrow> (err option go \<times> ShellProcessControl) \<times> 'w" where
  "Shell_Stop env sp w =
     (if \<not> sp_status sp then ((Ret None, sp), w)
      else (case ExecuteShellCommand env (pr_StopCommand (sp_cfg sp)) w of
              (Panic m, w1) \<Rightarrow> ((Panic m, sp), w1)
            | (Hang, w1) \<Rightarrow> ((Hang, sp), w1)
            | (Ret (Some e), w1) \<Rightarrow> ((Ret (Some e), sp), w1)
            | (Ret None, w1) \<Rightarrow>
                (let ((down, sp1), w2) = Shell_WaitToBeDown env sp w1 in
                 if down then ((Ret None, sp1\<lparr>sp_status := False\<rparr>), w2)
                 else ((Ret (Some (''Stop - '' @ pr_Name (sp_cfg sp) @ '' failed to stop'')),
                        sp1\<lparr>sp_status := True\<rparr>), w2))))"

definition Shell_Start :: "'w env \<Rightarrow> ShellProcessControl \<Rightarrow> 'w \<Rightarrow> (err option go \<times> ShellProcessControl) \<times> 'w" where
  "Shell_Start env sp w =
     (if sp_status sp then ((Ret None, sp), w)
      else (case ExecuteShellCommand env (pr_StartCommand (sp_cfg sp)) w of
              (Panic m, w1) \<Rightarrow> ((Panic m, sp), w1)
            | (Hang, w1) \<Rightarrow> ((Hang, sp), w1)
            | (Ret (Some e), w1) \<Rightarrow> ((Ret (Some e), sp), w1)
            | (Ret None, w1) \<Rightarrow>
                (let ((up, sp1), w2) = Shell_WaitToComeUp env sp w1 in
                 if up then ((Ret None, sp1\<lparr>sp_status := True\<rparr>), w2)
                 else ((Ret (Some (pr_Name (sp_cfg sp) @ '' failed to start'')),
                        sp1\<lparr>sp_status := False\<rparr>), w2))))"

section \<open>Docker containers\<close>

record DockerControl =
  dc_cfg :: Process
  dc_upcheck :: Upcheck
  dc_status :: bool
  dc_client :: "http_client option"

definition Docker_UpdateStatus :: "'w env \<Rightarrow> DockerControl \<Rightarrow> 'w \<Rightarrow> (bool \<times> DockerControl) \<times> 'w" where
  "Docker_UpdateStatus env dc w =
     (let ((s, err), w1) = IsProcessUp env (dc_client dc) (dc_upcheck dc) w;
          dc' = (if err \<noteq> None then dc\<lparr>dc_status := False\<rparr> else dc\<lparr>dc_status := s\<rparr>)
      in ((dc_status dc', dc'), w1))"

definition NewDockerProcess ::
  "'w env \<Rightarrow> http_client option \<Rightarrow> Process \<Rightarrow> bool \<Rightarrow> 'w \<Rightarrow> DockerControl go \<times> 'w" where
  "NewDockerProcess env c p s w =
     (case pr_UpcheckCfg p of
        None \<Rightarrow> (Panic ''nil pointer dereference'', w)
      | Some u \<Rightarrow>
          (let ((_, dc), w1) = Docker_UpdateStatus env
                 \<lparr>dc_cfg = p, dc_upcheck = u, dc_status = s, dc_client = c\<rparr> w
           in (Ret dc, w1)))"

definition Docker_WaitToComeUp :: "'w env \<Rightarrow> DockerControl \<Rightarrow> 'w \<Rightarrow> (bool \<times> DockerControl) \<times> 'w" where
  "Docker_WaitToComeUp env = poll_loop (Docker_UpdateStatus env) (sleep env Second) True retryCount"

definition Docker_WaitToBeDown :: "'w env \<Rightarrow> DockerControl \<Rightarrow> 'w \<Rightarrow> (bool \<times> DockerControl) \<times> 'w" where
  "Docker_WaitToBeDown env = poll_loop (Docker_UpdateStatus env) (sleep env Second) False retryCount"

definition Docker_Stop :: "'w env \<Rightarrow> DockerControl \<Rightarrow> 'w \<Rightarrow> (err option go \<times> DockerControl) \<times> 'w" where
  "Docker_Stop env dc w =
     (if \<not> dc_status dc then ((Ret None, dc), w)
      else (case docker_client env w of
              (Some e, w1) \<Rightarrow> ((Ret (Some e), dc), w1)
            | (None, w1) \<Rightarrow>
                (case container_stop env (pr_ContainerId (dc_cfg dc)) w1 of
                   (None, w2) \<Rightarrow> ((Hang, dc), w2)
                 | (Some None, w2) \<Rightarrow>
                     (let ((down, dc1), w3) = Docker_WaitToBeDown env dc w2 in
                      if down then ((Ret None, dc1\<lparr>dc_status := False\<rparr>), w3)
                      else ((Ret (Some (pr_Name (dc_cfg dc) @ '' failed to stop'')),
                             dc1\<lparr>dc_status := True\<rparr>), w3))
                 | (Some (Some e), w2) \<Rightarrow> ((Ret (Some e), dc\<lparr>dc_status := False\<rparr>), w2))))"

definition Docker_Start :: "'w env \<Rightarrow> DockerControl \<Rightarrow> 'w \<Rightarrow> (err option go \<times> DockerControl) \<times> 'w" where
  "Docker_Start env dc w =
     (if dc_status dc then ((Ret None, dc), w)
      else (case docker_client env w of
              (Some e, w1) \<Rightarrow> ((Ret (Some e), dc), w1)
            | (None, w1) \<Rightarrow>
                (case container_start env (pr_ContainerId (dc_cfg dc)) w1 of
                   (None, w2) \<Rightarrow> ((Hang, dc), w2)
                 | (Some None, w2) \<Rightarrow>
                     (let ((up, dc1), w3) = Docker_WaitToComeUp env dc w2 in
                      if up then ((Ret None, dc1\<lparr>dc_status := True\<rparr>), w3)
                      else ((Ret (Some (pr_Name (dc_cfg dc) @ '' failed to start'')),
                             dc1\<lparr>dc_status := False\<rparr>), w3))
                 | (Some (Some e), w2) \<Rightarrow> ((Ret (Some e), dc), w2))))"

section \<open>The interface\<close>

datatype proc = ShellProc ShellProcessControl | DockerProc DockerControl

primrec Proc_Start :: "'w env \<Rightarrow> proc \<Rightarrow> 'w \<Rightarrow> (err option go \<times> proc) \<times> 'w" where
  "Proc_Start env (ShellProc p) w = apfst (apsnd ShellProc) (Shell_Start env p w)"
| "Proc_Start env (DockerProc p) w = apfst (apsnd DockerProc) (Docker_Start env p w)"

primrec Proc_Stop :: "'w env \<Rightarrow> proc \<Rightarrow> 'w \<Rightarrow> (err option go \<times> proc) \<times> 'w" where
  "Proc_Stop env (ShellProc p) w = apfst (apsnd ShellProc) (Shell_Stop env p w)"
| "Proc_Stop env (DockerProc p) w = apfst (apsnd DockerProc) (Docker_Stop env p w)"

primrec Proc_UpdateStatus :: "'w env \<Rightarrow> proc \<Rightarrow> 'w \<Rightarrow> (bool \<times> proc) \<times> 'w" where
  "Proc_UpdateStatus env (ShellProc p) w = apfst (apsnd ShellProc) (Shell_UpdateStatus env p w)"
| "Proc_UpdateStatus env (DockerProc p) w = apfst (apsnd DockerProc) (Docker_UpdateStatus env p w)"

primrec Proc_Status :: "proc \<Rightarrow> bool" where
  "Proc_Status (ShellProc p) = sp_status p"
| "Proc_Status (DockerProc p) = dc_status p"

primrec proc_cfg :: "proc \<Rightarrow> Process" where
  "proc_cfg (ShellProc p) = sp_cfg p"
| "proc_cfg (DockerProc p) = dc_cfg p"

text \<open>
  What a client of \<open>Process\<close> relies on: an update caches what it returns, a start or stop that
  reports no error leaves the cached status up or down, both do nothing when the cached status is
  already right, and the configuration never changes.
\<close>

locale managed_process =
  fixes start :: "'p \<Rightarrow> 'w \<Rightarrow> (err option go \<times> 'p) \<times> 'w"
    and stop :: "'p \<Rightarrow> 'w \<Rightarrow> (err option go \<times> 'p) \<times> 'w"
    and update :: "'p \<Rightarrow> 'w \<Rightarrow> (bool \<times> 'p) \<times> 'w"
    and status :: "'p \<Rightarrow> bool"
    and cfg :: "'p \<Rightarrow> Process"
  assumes update_caches: "update p w = ((s, p'), w') \<Longrightarrow> status p' = s"
    and update_cfg: "update p w = ((s, p'), w') \<Longrightarrow> cfg p' = cfg p"
    and start_up: "start p w = ((Ret None, p'), w') \<Longrightarrow> status p'"
    and stop_down: "stop p w = ((Ret None, p'), w') \<Longrightarrow> \<not> status p'"
    and start_idle: "status p \<Longrightarrow> start p w = ((Ret None, p), w)"
    and stop_idle: "\<not> status p \<Longrightarrow> stop p w = ((Ret None, p), w)"
    and start_cfg: "start p w = ((r, p'), w') \<Longrightarrow> cfg p' = cfg p"
    and stop_cfg: "stop p w = ((r, p'), w') \<Longrightarrow> cfg p' = cfg p"
begin

text \<open>Stopping twice is stopping once; starting twice is starting once.\<close>

lemma stop_stop:
  assumes "stop p w = ((Ret None, p'), w')"
  shows "stop p' w' = ((Ret None, p'), w')"
  using stop_idle [OF stop_down [OF assms]] .

lemma start_start:
  assumes "start p w = ((Ret None, p'), w')"
  shows "start p' w' = ((Ret None, p'), w')"
  using start_idle [OF start_up [OF assms]] .

text \<open>An up check that finds the process as the caller wants it makes the call a no-op.\<close>

lemma update_start:
  assumes "update p w = ((True, p'), w')"
  shows "start p' w' = ((Ret None, p'), w')"
  using start_idle update_caches [OF assms] by simp

lemma update_stop:
  assumes "update p w = ((False, p'), w')"
  shows "stop p' w' = ((Ret None, p'), w')"
  using stop_idle update_caches [OF assms] by simp

end

section \<open>Polling\<close>

text \<open>The controller and the world before the k-th check of a wait that has missed k times.\<close>

fun polled :: "('p \<Rightarrow> 'w \<Rightarrow> (bool \<times> 'p) \<times> 'w) \<Rightarrow> ('w \<Rightarrow> 'w) \<Rightarrow> nat \<Rightarrow> 'p \<Rightarrow> 'w \<Rightarrow> 'p \<times> 'w" where
  "polled upd slp 0 p w = (p, w)"
| "polled upd slp (Suc k) p w = (let ((s, p1), w1) = upd p w in polled upd slp k p1 (slp w1))"

definition poll_result :: "('p \<Rightarrow> 'w \<Rightarrow> (bool \<times> 'p) \<times> 'w) \<Rightarrow> ('w \<Rightarrow> 'w) \<Rightarrow> nat \<Rightarrow> 'p \<Rightarrow> 'w \<Rightarrow> bool" where
  "poll_result upd slp k p w = (let (p1, w1) = polled upd slp k p w in fst (fst (upd p1 w1)))"

lemma poll_result_0: "poll_result upd slp 0 p w = fst (fst (upd p w))"
  by (simp add: poll_result_def)

lemma poll_result_Suc:
  "upd p w = ((s, p1), w1) \<Longrightarrow> poll_result upd slp (Suc k) p w = poll_result upd slp k p1 (slp w1)"
  by (simp add: poll_result_def)

lemma poll_loop_iff:
  "fst (fst (poll_loop upd slp want n p w)) \<longleftrightarrow> (\<exists>k<n. poll_result upd slp k p w = want)"
proof (induction n arbitrary: p w)
  case (Suc n)
  obtain s p1 w1 where u: "upd p w = ((s, p1), w1)" by (metis prod.collapse)
  have "(\<exists>k<Suc n. poll_result upd slp k p w = want) \<longleftrightarrow>
      s = want \<or> (\<exists>k<n. poll_result upd slp k p1 (slp w1) = want)"
    by (simp add: Ex_less_Suc2 poll_result_0 poll_result_Suc [of upd p w s p1 w1, OF u] u)
  with Suc.IH [of p1 "slp w1"] u show ?case by auto
qed simp

lemma poll_loop_inv:
  assumes upd: "\<And>p w s p' w'. upd p w = ((s, p'), w') \<Longrightarrow> I p \<Longrightarrow> I p'"
  shows "I p \<Longrightarrow> poll_loop upd slp want n p w = ((r, p'), w') \<Longrightarrow> I p'"
proof (induction n arbitrary: p w)
  case (Suc n)
  obtain s p1 w1 where u: "upd p w = ((s, p1), w1)" by (metis prod.collapse)
  from Suc.prems upd [OF u] Suc.IH [of p1 "slp w1"] u show ?case by (auto split: if_splits)
qed simp

lemma Shell_UpdateStatus_cached:
  "Shell_UpdateStatus env sp w = ((s, sp'), w') \<Longrightarrow> sp' = sp\<lparr>sp_status := s\<rparr>"
  by (auto simp: Shell_UpdateStatus_def Let_def split: prod.splits if_splits)

lemma Docker_UpdateStatus_cached:
  "Docker_UpdateStatus env dc w = ((s, dc'), w') \<Longrightarrow> dc' = dc\<lparr>dc_status := s\<rparr>"
  by (auto simp: Docker_UpdateStatus_def Let_def split: prod.splits if_splits)

lemma Shell_poll_cfg:
  "poll_loop (Shell_UpdateStatus env) slp want n sp w = ((r, sp'), w') \<Longrightarrow> sp_cfg sp' = sp_cfg sp"
  by (rule poll_loop_inv [where I = "\<lambda>p. sp_cfg p = sp_cfg sp"]) (auto dest: Shell_UpdateStatus_cached)

lemma Docker_poll_cfg:
  "poll_loop (Docker_UpdateStatus env) slp want n dc w = ((r, dc'), w') \<Longrightarrow> dc_cfg dc' = dc_cfg dc"
  by (rule poll_loop_inv [where I = "\<lambda>p. dc_cfg p = dc_cfg dc"]) (auto dest: Docker_UpdateStatus_cached)

section \<open>Both kinds of process keep the contract\<close>

lemmas shell_defs = Shell_Start_def Shell_Stop_def Shell_WaitToComeUp_def Shell_WaitToBeDown_def
lemmas docker_defs = Docker_Start_def Docker_Stop_def Docker_WaitToComeUp_def Docker_WaitToBeDown_def

interpretation shell: managed_process "Shell_Start env" "Shell_Stop env" "Shell_UpdateStatus env" sp_status sp_cfg
  for env
  by unfold_locales
    (auto simp: shell_defs Let_def dest: Shell_UpdateStatus_cached Shell_poll_cfg
      split: prod.splits option.splits go.splits if_splits)

interpretation docker: managed_process "Docker_Start env" "Docker_Stop env" "Docker_UpdateStatus env" dc_status dc_cfg
  for env
  by unfold_locales
    (auto simp: docker_defs Let_def dest: Docker_UpdateStatus_cached Docker_poll_cfg
      split: prod.splits option.splits if_splits)

lemma apfst_apsnd_eq: "apfst (apsnd f) x = ((r, p'), w') \<longleftrightarrow> (\<exists>p. x = ((r, p), w') \<and> p' = f p)"
  by (cases x) auto

interpretation managed: managed_process "Proc_Start env" "Proc_Stop env" "Proc_UpdateStatus env" Proc_Status proc_cfg
  for env
proof
  fix p p' :: proc and w w' s r
  show "Proc_Status p' = s" if "Proc_UpdateStatus env p w = ((s, p'), w')"
    using that by (cases p) (auto simp: apfst_apsnd_eq shell.update_caches docker.update_caches)
  show "proc_cfg p' = proc_cfg p" if "Proc_UpdateStatus env p w = ((s, p'), w')"
    using that by (cases p) (auto simp: apfst_apsnd_eq shell.update_cfg docker.update_cfg)
  show "Proc_Status p'" if "Proc_Start env p w = ((Ret None, p'), w')"
    using that by (cases p) (auto simp: apfst_apsnd_eq shell.start_up docker.start_up)
  show "\<not> Proc_Status p'" if "Proc_Stop env p w = ((Ret None, p'), w')"
    using that by (cases p) (auto simp: apfst_apsnd_eq dest: shell.stop_down docker.stop_down)
  show "Proc_Start env p w = ((Ret None, p), w)" if "Proc_Status p"
    using that by (cases p) (auto simp: shell.start_idle docker.start_idle)
  show "Proc_Stop env p w = ((Ret None, p), w)" if "\<not> Proc_Status p"
    using that by (cases p) (auto simp: shell.stop_idle docker.stop_idle)
  show "proc_cfg p' = proc_cfg p" if "Proc_Start env p w = ((r, p'), w')"
    using that by (cases p) (auto simp: apfst_apsnd_eq shell.start_cfg docker.start_cfg)
  show "proc_cfg p' = proc_cfg p" if "Proc_Stop env p w = ((r, p'), w')"
    using that by (cases p) (auto simp: apfst_apsnd_eq shell.stop_cfg docker.stop_cfg)
qed

section \<open>Outcomes of a stop\<close>

text \<open>Once the stop command has run, a stop succeeds exactly when one of the first 30 checks finds the process down.\<close>

lemma Shell_Stop_ok_iff:
  assumes "sp_status sp" and "pr_StopCommand (sp_cfg sp) \<noteq> []" and "cmd_run env (pr_StopCommand (sp_cfg sp)) w = (Some None, w1)"
  shows "fst (fst (Shell_Stop env sp w)) = Ret None \<longleftrightarrow>
    (\<exists>k<30. \<not> poll_result (Shell_UpdateStatus env) (sleep env Second) k sp w1)"
proof -
  obtain d sp1 w2 where p: "poll_loop (Shell_UpdateStatus env) (sleep env Second) False retryCount sp w1 = ((d, sp1), w2)"
    by (metis prod.collapse)
  with poll_loop_iff [of "Shell_UpdateStatus env" "sleep env Second" False retryCount sp w1]
  have "d \<longleftrightarrow> (\<exists>k<30. \<not> poll_result (Shell_UpdateStatus env) (sleep env Second) k sp w1)"
    by (simp add: retryCount_def)
  moreover have "fst (fst (Shell_Stop env sp w)) = Ret None \<longleftrightarrow> d"
    using assms p by (simp add: Shell_Stop_def ExecuteShellCommand_def Shell_WaitToBeDown_def)
  ultimately show ?thesis by simp
qed

text \<open>A stop command that never ends keeps the stop from returning.\<close>

lemma Shell_Stop_hangs:
  assumes "sp_status sp" and "pr_StopCommand (sp_cfg sp) \<noteq> []"
    and "cmd_run env (pr_StopCommand (sp_cfg sp)) w = (None, w1)"
  shows "Shell_Stop env sp w = ((Hang, sp), w1)"
  using assms by (simp add: Shell_Stop_def ExecuteShellCommand_def)

text \<open>A container that the daemon fails to stop is recorded as down.\<close>

lemma Docker_Stop_failed:
  assumes "dc_status dc" and "docker_client env w = (None, w1)"
    and "container_stop env (pr_ContainerId (dc_cfg dc)) w1 = (Some (Some e), w2)"
  shows "Docker_Stop env dc w = ((Ret (Some e), dc\<lparr>dc_status := False\<rparr>), w2)"
  using assms by (simp add: Docker_Stop_def)

section \<open>Return types in mixed case\<close>

text \<open>
  \<open>IsProcessUp\<close> compares the return type as it was configured: for another spelling it reports the
  process up without asking it, so that a wait for it to be down runs out.
\<close>

lemma IsProcessUp_other: "\<not> IsRpcResult u \<Longrightarrow> \<not> IsStringResult u \<Longrightarrow> IsProcessUp env c u w = ((True, None), w)"
  by (simp add: IsProcessUp_def)

lemma poll_loop_never:
  assumes "\<And>p w. I p \<Longrightarrow> \<exists>p' w'. upd p w = ((\<not> want, p'), w') \<and> I p'"
  shows "I p \<Longrightarrow> \<not> fst (fst (poll_loop upd slp want n p w))"
proof (induction n arbitrary: p w)
  case (Suc n)
  from assms [OF Suc.prems, of w] obtain p' w' where "upd p w = ((\<not> want, p'), w')" "I p'" by blast
  with Suc.IH show ?case by simp
qed simp

lemma Shell_Stop_other:
  assumes "\<not> IsRpcResult (sp_upcheck sp)" and "\<not> IsStringResult (sp_upcheck sp)" and "sp_status sp"
  shows "fst (fst (Shell_Stop env sp w)) \<noteq> Ret None"
proof -
  have "\<not> fst (fst (Shell_WaitToBeDown env sp v))" for v
    unfolding Shell_WaitToBeDown_def
    by (rule poll_loop_never [where I = "\<lambda>p. sp_upcheck p = sp_upcheck sp"])
       (simp_all add: Shell_UpdateStatus_def IsProcessUp_other assms)
  then have w: "\<not> d" if "Shell_WaitToBeDown env sp v = ((d, p), v')" for d p v v' using that by (metis fst_conv)
  show ?thesis
    using assms(3) by (auto simp: Shell_Stop_def dest: w split: prod.split go.split option.split)
qed

end
