(* ===== verification/Config_Reader.thy ===== *)
theory Config_Reader
  imports Config_Node
begin

text \<open>
  \<open>config/reader.go\<close>: choosing a reader by file suffix and reading the two configuration files.
  The struct tags of the configuration structs are the decoders below. The TOML decoder is a
  third-party package: what it makes of a file is a parameter. The untagged field \<open>TlsCfg\<close> of
  the TLS structs is not read from JSON here.
\<close>

section \<open>JSON decoders of the configuration structs\<close>

definition zero_ServerTLS :: ServerTLS where
  "zero_ServerTLS = \<lparr>st_KeyFile = '''', st_CertFile = '''', st_ClientCaCertFile = '''',
     st_CipherSuites = None, st_TlsCfg = None\<rparr>"

definition dec_ServerTLS :: "ServerTLS dec" where
  "dec_ServerTLS = dec_struct
     [json_field ''keyFile'' st_KeyFile st_KeyFile_update dec_string,
      json_field ''certificateFile'' st_CertFile st_CertFile_update dec_string,
      json_field ''clientCaCertificateFile'' st_ClientCaCertFile st_ClientCaCertFile_update dec_string,
      json_field ''cipherSuites'' st_CipherSuites st_CipherSuites_update (dec_slice_opt '''' dec_string)]"

definition zero_ClientTLS :: ClientTLS where
  "zero_ClientTLS = \<lparr>ct_CertFile = '''', ct_KeyFile = '''', ct_CACertFile = '''',
     ct_InsecureSkipVerify = False, ct_CipherSuites = None, ct_TlsCfg = None\<rparr>"

definition dec_ClientTLS :: "ClientTLS dec" where
  "dec_ClientTLS = dec_struct
     [json_field ''certificateFile'' ct_CertFile ct_CertFile_update dec_string,
      json_field ''keyFile'' ct_KeyFile ct_KeyFile_update dec_string,
      json_field ''caCertificateFile'' ct_CACertFile ct_CACertFile_update dec_string,
      json_field ''insecureSkipVerify'' ct_InsecureSkipVerify ct_InsecureSkipVerify_update dec_bool,
      json_field ''cipherSuites'' ct_CipherSuites ct_CipherSuites_update (dec_slice_opt '''' dec_string)]"

definition zero_Upcheck :: Upcheck where
  "zero_Upcheck = \<lparr>up_UpcheckUrl = '''', up_ReturnType = '''', up_Method = '''', up_Body = '''', up_Expected = ''''\<rparr>"

definition dec_Upcheck :: "Upcheck dec" where
  "dec_Upcheck = dec_struct
     [json_field ''url'' up_UpcheckUrl up_UpcheckUrl_update dec_string,
      json_field ''returnType'' up_ReturnType up_ReturnType_update dec_string,
      json_field ''method'' up_Method up_Method_update dec_string,
      json_field ''body'' up_Body up_Body_update dec_string,
      json_field ''expected'' up_Expected up_Expected_update dec_string]"

definition zero_Process :: Process where
  "zero_Process = \<lparr>pr_Name = '''', pr_ControlType = '''', pr_ContainerId = '''', pr_StopCommand = [],
     pr_StartCommand = [], pr_UpcheckCfg = None\<rparr>"

definition dec_Process :: "Process dec" where
  "dec_Process = dec_struct
     [json_field ''name'' pr_Name pr_Name_update dec_string,
      json_field ''controlType'' pr_ControlType pr_ControlType_update dec_string,
      json_field ''containerId'' pr_ContainerId pr_ContainerId_update dec_string,
      json_field ''stopCommand'' pr_StopCommand pr_StopCommand_update (dec_slice '''' dec_string),
      json_field ''startCommand'' pr_StartCommand pr_StartCommand_update (dec_slice '''' dec_string),
      json_field ''upcheckConfig'' pr_UpcheckCfg pr_UpcheckCfg_update (dec_ptr zero_Upcheck dec_Upcheck)]"

definition zero_BlockchainClient :: BlockchainClient where
  "zero_BlockchainClient = \<lparr>bc_ClientType = '''', bc_Consensus = '''', bc_BcClntRpcUrl = '''',
     bc_BcClntTLSConfig = None, bc_BcClntProcess = None\<rparr>"

definition dec_BlockchainClient :: "BlockchainClient dec" where
  "dec_BlockchainClient = dec_struct
     [json_field ''type'' bc_ClientType bc_ClientType_update dec_string,
      json_field ''consensus'' bc_Consensus bc_Consensus_update dec_string,
      json_field ''rpcUrl'' bc_BcClntRpcUrl bc_BcClntRpcUrl_update dec_string,
      json_field ''tlsConfig'' bc_BcClntTLSConfig bc_BcClntTLSConfig_update (dec_ptr zero_ClientTLS dec_ClientTLS),
      json_field ''process'' bc_BcClntProcess bc_BcClntProcess_update (dec_ptr zero_Process dec_Process)]"

definition zero_PrivacyManager :: PrivacyManager where
  "zero_PrivacyManager = \<lparr>pm_PrivManKey = '''', pm_PrivManTLSConfig = None, pm_PrivManProcess = None\<rparr>"

definition dec_PrivacyManager :: "PrivacyManager dec" where
  "dec_PrivacyManager = dec_struct
     [json_field ''publicKey'' pm_PrivManKey pm_PrivManKey_update dec_string,
      json_field ''tlsConfig'' pm_PrivManTLSConfig pm_PrivManTLSConfig_update (dec_ptr zero_ClientTLS dec_ClientTLS),
      json_field ''process'' pm_PrivManProcess pm_PrivManProcess_update (dec_ptr zero_Process dec_Process)]"

definition zero_RPCServer :: RPCServer where
  "zero_RPCServer = \<lparr>rs_RPCAddr = '''', rs_RPCCorsList = [], rs_RPCVHosts = [], rs_TLSConfig = None\<rparr>"

definition dec_RPCServer :: "RPCServer dec" where
  "dec_RPCServer = dec_struct
     [json_field ''rpcAddress'' rs_RPCAddr rs_RPCAddr_update dec_string,
      json_field ''rpcCorsList'' rs_RPCCorsList rs_RPCCorsList_update (dec_slice '''' dec_string),
      json_field ''rpcvHosts'' rs_RPCVHosts rs_RPCVHosts_update (dec_slice '''' dec_string),
      json_field ''tlsConfig'' rs_TLSConfig rs_TLSConfig_update (dec_ptr zero_ServerTLS dec_ServerTLS)]"

definition zero_Proxy :: Proxy where
  "zero_Proxy = \<lparr>px_Name = '''', px_Type = '''', px_ProxyAddr = '''', px_UpstreamAddr = '''',
     px_ProxyPaths = [], px_IgnorePathsForActivity = [], px_ReadTimeout = 0, px_WriteTimeout = 0,
     px_ProxyServerTLSConfig = None, px_ClientTLSConfig = None\<rparr>"

definition dec_Proxy :: "Proxy dec" where
  "dec_Proxy = dec_struct
     [json_field ''name'' px_Name px_Name_update dec_string,
      json_field ''type'' px_Type px_Type_update dec_string,
      json_field ''proxyAddress'' px_ProxyAddr px_ProxyAddr_update dec_string,
      json_field ''upstreamAddress'' px_UpstreamAddr px_UpstreamAddr_update dec_string,
      json_field ''proxyPaths'' px_ProxyPaths px_ProxyPaths_update (dec_slice '''' dec_string),
      json_field ''ignorePathsForActivity'' px_IgnorePathsForActivity px_IgnorePathsForActivity_update
        (dec_slice '''' dec_string),
      json_field ''readTimeout'' px_ReadTimeout px_ReadTimeout_update dec_int,
      json_field ''writeTimeout'' px_WriteTimeout px_WriteTimeout_update dec_int,
      json_field ''proxyTlsConfig'' px_ProxyServerTLSConfig px_ProxyServerTLSConfig_update
        (dec_ptr zero_ServerTLS dec_ServerTLS),
      json_field ''clientTlsConfig'' px_ClientTLSConfig px_ClientTLSConfig_update
        (dec_ptr zero_ClientTLS dec_ClientTLS)]"

definition zero_Peer :: Peer where
  "zero_Peer = \<lparr>peer_Name = '''', peer_PrivManKey = '''', peer_RpcUrl = '''', peer_TLSConfig = None\<rparr>"

definition dec_Peer :: "Peer dec" where
  "dec_Peer = dec_struct
     [json_field ''name'' peer_Name peer_Name_update dec_string,
      json_field ''privacyManagerKey'' peer_PrivManKey peer_PrivManKey_update dec_string,
      json_field ''rpcUrl'' peer_RpcUrl peer_RpcUrl_update dec_string,
      json_field ''tlsConfig'' peer_TLSConfig peer_TLSConfig_update (dec_ptr zero_ClientTLS dec_ClientTLS)]"

record NodeHibernatorList =
  nhl_Peers :: "Peer option list"

definition dec_NodeHibernatorList :: "NodeHibernatorList dec" where
  "dec_NodeHibernatorList = dec_struct
     [json_field ''peers'' nhl_Peers nhl_Peers_update (dec_slice None (dec_ptr zero_Peer dec_Peer))]"

definition zero_Basic :: Basic where
  "zero_Basic = \<lparr>b_Name = '''', b_DisableStrictMode = False, b_UpchkPollingInterval = 0,
     b_PeersConfigFile = '''', b_InactivityTime = 0, b_ResyncTime = 0, b_BlockchainClient = None,
     b_PrivacyManager = None, b_Server = None, b_Proxies = []\<rparr>"

definition dec_Basic :: "Basic dec" where
  "dec_Basic = dec_struct
     [json_field ''name'' b_Name b_Name_update dec_string,
      json_field ''disableStrictMode'' b_DisableStrictMode b_DisableStrictMode_update dec_bool,
      json_field ''upcheckPollingInterval'' b_UpchkPollingInterval b_UpchkPollingInterval_update dec_int,
      json_field ''peersConfigFile'' b_PeersConfigFile b_PeersConfigFile_update dec_string,
      json_field ''inactivityTime'' b_InactivityTime b_InactivityTime_update dec_int,
      json_field ''resyncTime'' b_ResyncTime b_ResyncTime_update dec_int,
      json_field ''blockchainClient'' b_BlockchainClient b_BlockchainClient_update
        (dec_ptr zero_BlockchainClient dec_BlockchainClient),
      json_field ''privacyManager'' b_PrivacyManager b_PrivacyManager_update
        (dec_ptr zero_PrivacyManager dec_PrivacyManager),
      json_field ''server'' b_Server b_Server_update (dec_ptr zero_RPCServer dec_RPCServer),
      json_field ''proxies'' b_Proxies b_Proxies_update (dec_slice None (dec_ptr zero_Proxy dec_Proxy))]"

section \<open>Readers\<close>

datatype config_reader = TomlReader string | JsonReader string

definition new_reader :: "string \<Rightarrow> err + config_reader" where
  "new_reader f =
     (if HasSuffix f ''.toml'' then Inr (TomlReader f)
      else if HasSuffix f ''.json'' then Inr (JsonReader f)
      else Inl ''unsupported config file format'')"

definition NewNodeHibernatorReader :: "string \<Rightarrow> err + config_reader" where
  "NewNodeHibernatorReader = new_reader"

definition NewPeersReader :: "string \<Rightarrow> err + config_reader" where
  "NewPeersReader = new_reader"

text \<open>Both formats: open the file, decode it into a zero value, and return the zero value on errors.\<close>

primrec NodeReader_Read ::
  "'w env \<Rightarrow> (string \<Rightarrow> err + Basic) \<Rightarrow> config_reader \<Rightarrow> 'w \<Rightarrow> (err + Basic) \<times> 'w" where
  "NodeReader_Read env toml (TomlReader f) w =
     (let (r, w1) = read_config env f w
      in (case r of Inl e \<Rightarrow> Inl e | Inr body \<Rightarrow> toml body, w1))"
| "NodeReader_Read env toml (JsonReader f) w =
     (let (r, w1) = read_config env f w
      in (case r of
            Inl e \<Rightarrow> Inl e
          | Inr body \<Rightarrow> (case Decode dec_Basic body zero_Basic of
                (x, Some e) \<Rightarrow> Inl e | (x, None) \<Rightarrow> Inr x), w1))"

primrec PeersReader_Read ::
  "'w env \<Rightarrow> (string \<Rightarrow> err + NodeHibernatorList) \<Rightarrow> config_reader \<Rightarrow> 'w \<Rightarrow> (err + Peer option list) \<times> 'w" where
  "PeersReader_Read env toml (TomlReader f) w =
     (let (r, w1) = read_config env f w
      in (case r of Inl e \<Rightarrow> Inl e | Inr body \<Rightarrow> map_sum id nhl_Peers (toml body), w1))"
| "PeersReader_Read env toml (JsonReader f) w =
     (let (r, w1) = read_config env f w
      in (case r of
            Inl e \<Rightarrow> Inl e
          | Inr body \<Rightarrow> (case Decode dec_NodeHibernatorList body \<lparr>nhl_Peers = []\<rparr> of
                (x, Some e) \<Rightarrow> Inl e | (x, None) \<Rightarrow> Inr (nhl_Peers x)), w1))"

text \<open>A peers document that is written as the samples are.\<close>

lemma peers_document:
  "Decode dec_NodeHibernatorList
     (''{'' @ [CHR 0x22] @ ''peers'' @ [CHR 0x22] @ '':[{'' @ [CHR 0x22] @ ''name'' @ [CHR 0x22] @ '':''
      @ [CHR 0x22] @ ''n2'' @ [CHR 0x22] @ '',''
      @ [CHR 0x22] @ ''rpcUrl'' @ [CHR 0x22] @ '':'' @ [CHR 0x22] @ ''http://h2'' @ [CHR 0x22] @ ''}]}'')
     \<lparr>nhl_Peers = []\<rparr>
   = (\<lparr>nhl_Peers = [Some (zero_Peer\<lparr>peer_Name := ''n2'', peer_RpcUrl := ''http://h2''\<rparr>)]\<rparr>, None)"
  by code_simp

end
