(* ===== verification/Fanout.thy ===== *)
theory Fanout
  imports Prelude
begin

text \<open>
  The fan-out of \<open>p2p/service.go\<close> as a state machine: \<open>peerStatus\<close> and \<open>peerPrivateTxStatus\<close>
  start one goroutine per peer that sends its result into \<open>resCh\<close> (capacity 1), a collector that
  appends the results and signals \<open>resDoneCh\<close> (capacity 1) when it has \<open>expResCnt\<close> of them, and
  wait for all senders and then for the signal. The steps of the goroutines interleave freely.
\<close>

section \<open>The machine\<close>

record 'r fan =
  fan_pending :: "'r multiset"  \<comment> \<open>results of goroutines that have not sent yet\<close>
  fan_buf :: "'r option"        \<comment> \<open>the slot of \<open>resCh\<close>\<close>
  fan_got :: "'r list"          \<comment> \<open>what the collector has received, in order\<close>
  fan_signal :: bool            \<comment> \<open>the collector has signalled \<open>resDoneCh\<close> and returned\<close>
  fan_returned :: bool          \<comment> \<open>both waits are over\<close>

definition fan_init :: "'r multiset \<Rightarrow> 'r fan" where
  "fan_init rs = \<lparr>fan_pending = rs, fan_buf = None, fan_got = [], fan_signal = False, fan_returned = False\<rparr>"

inductive fan_step :: "nat \<Rightarrow> 'r fan \<Rightarrow> 'r fan \<Rightarrow> bool" for expResCnt where
  send: "r \<in># fan_pending s \<Longrightarrow> fan_buf s = None \<Longrightarrow>
     fan_step expResCnt s (s\<lparr>fan_pending := fan_pending s - {#r#}, fan_buf := Some r\<rparr>)"
| receive: "fan_buf s = Some r \<Longrightarrow> \<not> fan_signal s \<Longrightarrow>
     fan_step expResCnt s (s\<lparr>fan_buf := None, fan_got := fan_got s @ [r],
       fan_signal := (length (fan_got s) + 1 = expResCnt)\<rparr>)"
| return: "fan_pending s = {#} \<Longrightarrow> fan_signal s \<Longrightarrow> \<not> fan_returned s \<Longrightarrow>
     fan_step expResCnt s (s\<lparr>fan_returned := True\<rparr>)"

inductive_cases fan_stepE: "fan_step e s t"

inductive fan_reach :: "nat \<Rightarrow> 'r multiset \<Rightarrow> 'r fan \<Rightarrow> bool" for expResCnt rs where
  start: "fan_reach expResCnt rs (fan_init rs)"
| step: "fan_reach expResCnt rs s \<Longrightarrow> fan_step expResCnt s t \<Longrightarrow> fan_reach expResCnt rs t"

text \<open>
  What the operations compute from the results in their order of arrival. With as many results
  as expected every result counts. With one too many the last one stays in the channel. Otherwise
  one of the two waits never ends.
\<close>

definition gather :: "nat \<Rightarrow> 'r list \<Rightarrow> 'r list go" where
  "gather expResCnt rs =
     (if length rs < expResCnt \<or> expResCnt + 1 < length rs then Hang else Ret (take expResCnt rs))"

section \<open>Invariant\<close>

definition fan_inv :: "nat \<Rightarrow> 'r multiset \<Rightarrow> 'r fan \<Rightarrow> bool" where
  "fan_inv e rs s \<longleftrightarrow>
     mset (fan_got s) + (case fan_buf s of None \<Rightarrow> {#} | Some r \<Rightarrow> {#r#}) + fan_pending s = rs \<and>
     (fan_signal s \<longleftrightarrow> length (fan_got s) = e) \<and> length (fan_got s) \<le> e \<and>
     (fan_returned s \<longrightarrow> fan_signal s \<and> fan_pending s = {#})"

lemma fan_inv_init: "0 < e \<Longrightarrow> fan_inv e rs (fan_init rs)"
  by (simp add: fan_inv_def fan_init_def)

lemma fan_inv_step: "fan_step e s t \<Longrightarrow> fan_inv e rs s \<Longrightarrow> fan_inv e rs t"
  by (induction rule: fan_step.induct) (auto simp: fan_inv_def)

lemma fan_reach_inv: "fan_reach e rs s \<Longrightarrow> 0 < e \<Longrightarrow> fan_inv e rs s"
  by (induction rule: fan_reach.induct) (auto simp: fan_inv_init intro: fan_inv_step)

text \<open>Every run is finite: each step decreases this measure.\<close>

definition fan_measure :: "'r fan \<Rightarrow> nat" where
  "fan_measure s = 2 * size (fan_pending s) + (if fan_buf s = None then 0 else 1)
     + (if fan_returned s then 0 else 1)"

lemma fan_step_decreases: "fan_step e s t \<Longrightarrow> fan_measure t < fan_measure s"
proof (induction rule: fan_step.induct)
  case (send r s)
  then have "0 < size (fan_pending s)" by (metis multi_nonempty_split nonempty_has_size not_gr0 empty_iff set_mset_empty)
  with send show ?case by (simp add: fan_measure_def size_Diff_singleton)
qed (simp_all add: fan_measure_def)

section \<open>Returning\<close>

lemma fan_returned_inv:
  assumes "fan_inv e rs s" and "fan_returned s"
  shows "length (fan_got s) = e \<and> fan_pending s = {#} \<and>
    rs = mset (fan_got s) + (case fan_buf s of None \<Rightarrow> {#} | Some r \<Rightarrow> {#r#})"
  using assms by (auto simp: fan_inv_def)

text \<open>A run that returns has gathered the results in some order of arrival.\<close>

lemma fan_returned_gather:
  assumes "fan_reach e rs s" and "0 < e" and "fan_returned s"
  shows "\<exists>order. mset order = rs \<and> gather e order = Ret (fan_got s)"
proof -
  note r = fan_returned_inv [OF fan_reach_inv [OF assms(1,2)] assms(3)]
  let ?o = "fan_got s @ (case fan_buf s of None \<Rightarrow> [] | Some x \<Rightarrow> [x])"
  have "mset ?o = rs" using r by (auto split: option.splits)
  moreover have "gather e ?o = Ret (fan_got s)" using r by (auto simp: gather_def split: option.splits)
  ultimately show ?thesis by blast
qed

text \<open>
  With the expected number of results, or one more, the machine is never stuck before it returns.
\<close>

lemma fan_progress:
  assumes "fan_reach e rs s" and "size rs = e \<or> size rs = e + 1" and "0 < e" and "\<not> fan_returned s"
  shows "\<exists>t. fan_step e s t"
proof -
  have inv: "fan_inv e rs s" using fan_reach_inv assms(1,3) .
  show ?thesis
  proof (cases "fan_buf s")
    case (Some r)
    show ?thesis
    proof (cases "fan_signal s")
      case True
      with inv Some have "size rs = e + 1 + size (fan_pending s)"
        by (auto simp: fan_inv_def)
      with assms(2) have "fan_pending s = {#}" by auto
      with True assms(4) show ?thesis by (blast intro: fan_step.return)
    next
      case False
      with Some show ?thesis by (blast intro: fan_step.receive)
    qed
  next
    case None
    show ?thesis
    proof (cases "fan_pending s = {#}")
      case True
      with inv None assms(2) have "fan_signal s" by (auto simp: fan_inv_def)
      with True assms(4) show ?thesis by (blast intro: fan_step.return)
    next
      case False
      then obtain r where "r \<in># fan_pending s" by (metis multiset_nonemptyE)
      with None show ?thesis by (blast intro: fan_step.send)
    qed
  qed
qed

text \<open>With one result too many a run that returns has lost it in the channel.\<close>

lemma fan_returned_one_more:
  assumes "fan_reach e rs s" and "0 < e" and "fan_returned s" and "size rs = e + 1"
  shows "\<exists>lost. fan_buf s = Some lost \<and> rs = add_mset lost (mset (fan_got s))"
proof -
  note r = fan_returned_inv [OF fan_reach_inv [OF assms(1,2)] assms(3)]
  show ?thesis
  proof (cases "fan_buf s")
    case None
    with r have "size rs = e" by auto
    with assms(4) show ?thesis by simp
  next
    case (Some lost)
    with r show ?thesis by simp
  qed
qed

text \<open>With too few results, or two too many, no run returns.\<close>

lemma fan_never_returns:
  assumes "fan_reach e rs s" and "0 < e" and "size rs < e \<or> e + 1 < size rs"
  shows "\<not> fan_returned s"
proof
  assume "fan_returned s"
  from fan_returned_inv [OF fan_reach_inv [OF assms(1,2)] this]
  have "size rs = e \<or> size rs = e + 1" by (auto split: option.splits)
  with assms(3) show False by auto
qed

lemma gather_Hang_iff: "gather e rs = Hang \<longleftrightarrow> length rs < e \<or> e + 1 < length rs"
  by (simp add: gather_def)

lemma gather_expected [simp]: "gather (length rs) rs = Ret rs"
  by (simp add: gather_def)

text \<open>With the expected number of results every order of arrival is possible.\<close>

lemma fan_reach_prefix:
  assumes "0 < length order"
  shows "k \<le> length order \<Longrightarrow> fan_reach (length order) (mset order)
    \<lparr>fan_pending = mset (drop k order), fan_buf = None, fan_got = take k order,
      fan_signal = (k = length order), fan_returned = False\<rparr>"
proof (induction k)
  case 0
  from assms fan_reach.start [of "length order" "mset order"] show ?case by (simp add: fan_init_def)
next
  case (Suc k)
  let ?e = "length order" and ?r = "order ! k"
  have d: "drop k order = ?r # drop (Suc k) order" using Suc.prems by (simp add: Cons_nth_drop_Suc)
  define s where "s = \<lparr>fan_pending = mset (drop k order), fan_buf = None, fan_got = take k order,
      fan_signal = (k = ?e), fan_returned = False\<rparr>"
  have s: "fan_reach ?e (mset order) s" using Suc by (simp add: s_def)
  have send: "fan_step ?e s (s\<lparr>fan_pending := fan_pending s - {#?r#}, fan_buf := Some ?r\<rparr>)"
    by (rule fan_step.send) (simp_all add: s_def d)
  define t where "t = s\<lparr>fan_pending := mset (drop (Suc k) order), fan_buf := Some ?r\<rparr>"
  have "fan_step ?e s t" using send by (simp add: t_def s_def d)
  with s have t: "fan_reach ?e (mset order) t" by (rule fan_reach.step)
  have "fan_step ?e t (t\<lparr>fan_buf := None, fan_got := fan_got t @ [?r],
       fan_signal := (length (fan_got t) + 1 = ?e)\<rparr>)"
    by (rule fan_step.receive) (use Suc.prems in \<open>simp_all add: t_def s_def\<close>)
  with t have "fan_reach ?e (mset order) (t\<lparr>fan_buf := None, fan_got := fan_got t @ [?r],
       fan_signal := (length (fan_got t) + 1 = ?e)\<rparr>)" by (rule fan_reach.step)
  then show ?case using Suc.prems by (simp add: t_def s_def take_Suc_conv_app_nth)
qed

lemma fan_every_order:
  assumes "0 < length order"
  obtains s where "fan_reach (length order) (mset order) s" and "fan_returned s" and "fan_got s = order"
proof -
  let ?s = "\<lparr>fan_pending = {#}, fan_buf = None, fan_got = order, fan_signal = True, fan_returned = False\<rparr>"
  have r: "fan_reach (length order) (mset order) ?s" using fan_reach_prefix [OF assms, of "length order"] by simp
  have "fan_step (length order) ?s (?s\<lparr>fan_returned := True\<rparr>)" by (rule fan_step.return) simp_all
  from fan_reach.step [OF r this] show thesis by (rule that) simp_all
qed

end
