(* ===== verification/P2P.thy ===== *)
theory P2P
  imports Config_Reader Fanout
begin

text \<open>
  Package \<open>p2p\<close> (\<open>p2p/core.go\<close>, \<open>p2p/service.go\<close>): the peers file that is read again before
  every use, the preparation of the participants of a private transaction, and the status query
  that must pass before a shutdown. The manager shares the configuration of the node: its updated
  \<open>Peers\<close> are part of the result. The goroutines of a fan-out run in the order the environment
  schedules, each one's call as a whole, after the reads of the loop that starts them;
  \<open>Fanout.gather\<close> says what the waits make of the results.
\<close>

section \<open>Data\<close>

record NodeStatusInfo =
  nsi_Status :: NodeStatus
  nsi_InactiveTimeLimit :: int
  nsi_InactiveTime :: int
  nsi_TimeToShutdown :: int

definition zero_NodeStatusInfo :: NodeStatusInfo where
  "zero_NodeStatusInfo = \<lparr>nsi_Status = 0, nsi_InactiveTimeLimit = 0, nsi_InactiveTime = 0, nsi_TimeToShutdown = 0\<rparr>"

definition dec_NodeStatusInfo :: "NodeStatusInfo dec" where
  "dec_NodeStatusInfo = dec_struct
     [json_field ''Status'' nsi_Status nsi_Status_update dec_uint8,
      json_field ''InactiveTimeLimit'' nsi_InactiveTimeLimit nsi_InactiveTimeLimit_update dec_int,
      json_field ''InactiveTime'' nsi_InactiveTime nsi_InactiveTime_update dec_int,
      json_field ''TimeToShutdown'' nsi_TimeToShutdown nsi_TimeToShutdown_update dec_int]"

record PeerNodeStatusResult =
  pns_Result :: NodeStatusInfo
  pns_Error :: "err option"

definition dec_PeerNodeStatusResult :: "PeerNodeStatusResult dec" where
  "dec_PeerNodeStatusResult = dec_struct
     [json_field ''result'' pns_Result pns_Result_update dec_NodeStatusInfo,
      json_field ''error'' pns_Error pns_Error_update dec_error]"

record PrivateTxPrepStatus =
  ptp_Status :: bool

definition dec_PrivateTxPrepStatus :: "PrivateTxPrepStatus dec" where
  "dec_PrivateTxPrepStatus = dec_struct [json_field ''status'' ptp_Status ptp_Status_update dec_bool]"

record PeerPrivateTxPrepResult =
  ppr_Result :: PrivateTxPrepStatus
  ppr_Error :: "err option"

definition dec_PeerPrivateTxPrepResult :: "PeerPrivateTxPrepResult dec" where
  "dec_PeerPrivateTxPrepResult = dec_struct
     [json_field ''result'' ppr_Result ppr_Result_update dec_PrivateTxPrepStatus,
      json_field ''error'' ppr_Error ppr_Error_update dec_error]"

text \<open>The manager: the shared configuration, and the \<open>Read\<close> method of its reader if it has one.\<close>

record 'w PeerManager =
  mgr_cfg :: Node
  mgr_Read :: "('w \<Rightarrow> (err + Peer option list) \<times> 'w) option"

definition NewPeerManager ::
  "'w env \<Rightarrow> (string \<Rightarrow> err + NodeHibernatorList) \<Rightarrow> Node \<Rightarrow> 'w PeerManager" where
  "NewPeerManager env toml cfg = \<lparr>mgr_cfg = cfg,
     mgr_Read = (case NewPeersReader (b_PeersConfigFile (nd_BasicConfig cfg)) of
       Inl e \<Rightarrow> None | Inr r \<Rightarrow> Some (PeersReader_Read env toml r))\<rparr>"

definition NodeStatusMethod :: "string \<Rightarrow> string" where
  \<open>NodeStatusMethod name = ''{"jsonrpc":"2.0", "method":"node.NodeStatus", "params":["'' @ name @ ''"], "id":77}''\<close>

definition PreparePvtTxMethod :: "string \<Rightarrow> string" where
  \<open>PreparePvtTxMethod name = ''{"jsonrpc":"2.0", "method":"node.PrepareForPrivateTx", "params":["'' @ name @ ''"], "id":77}''\<close>

section \<open>The peers file\<close>

definition readPeersConfig :: "'w env \<Rightarrow> 'w PeerManager \<Rightarrow> 'w \<Rightarrow> (Peer list \<times> 'w PeerManager) go \<times> 'w" where
  "readPeersConfig env pm w =
     (case mgr_Read pm of
        None \<Rightarrow> (Panic ''nil pointer dereference'', w)
      | Some rd \<Rightarrow>
          (let (r, w1) = rd w; old = (nd_Peers (mgr_cfg pm), pm)
           in case r of
                Inl e \<Rightarrow> (Ret old, w1)
              | Inr newPeers \<Rightarrow>
                  (go_bind (PeerArr_IsValid env w1 newPeers) (\<lambda>v. Ret (case v of
                       Inl e \<Rightarrow> old
                     | Inr ps \<Rightarrow> (ps, pm\<lparr>mgr_cfg := (mgr_cfg pm)\<lparr>nd_Peers := ps\<rparr>\<rparr>))), w1)))"

definition getConfigByPrivManKey ::
  "'w env \<Rightarrow> 'w PeerManager \<Rightarrow> string \<Rightarrow> 'w \<Rightarrow> (Peer option \<times> 'w PeerManager) go \<times> 'w" where
  "getConfigByPrivManKey env pm key w =
     io_bind (readPeersConfig env pm w) (\<lambda>(ps, pm1) w1.
       (Ret (find (\<lambda>n. peer_PrivManKey n = key) ps, pm1), w1))"

definition isPeerSelf :: "'w PeerManager \<Rightarrow> string \<Rightarrow> bool" where
  "isPeerSelf pm peerName \<longleftrightarrow> peerName \<noteq> '''' \<and> peerName = b_Name (nd_BasicConfig (mgr_cfg pm))"

text \<open>The HTTP client for a peer: its own for one with TLS settings, else the default one.\<close>

definition peer_client :: "Peer \<Rightarrow> http_client option" where
  "peer_client nhc = map_option (\<lambda>t. NewHttpClient (ct_TlsCfg t)) (peer_TLSConfig nhc)"

section \<open>Preparing the participants of a private transaction\<close>

fun key_count_loop ::
  "'w env \<Rightarrow> 'w PeerManager \<Rightarrow> string list \<Rightarrow> nat \<Rightarrow> 'w \<Rightarrow> (nat \<times> 'w PeerManager) go \<times> 'w" where
  "key_count_loop env pm [] c w = (Ret (c, pm), w)"
| "key_count_loop env pm (key # ks) c w =
     io_bind (getConfigByPrivManKey env pm key w) (\<lambda>(r, pm1) w1.
       key_count_loop env pm1 ks (if r \<noteq> None then c + 1 else c) w1)"

definition peersByParticipantKeyCount ::
  "'w env \<Rightarrow> 'w PeerManager \<Rightarrow> string list \<Rightarrow> 'w \<Rightarrow> (nat \<times> 'w PeerManager) go \<times> 'w" where
  "peersByParticipantKeyCount env pm keys w = key_count_loop env pm keys 0 w"

text \<open>The loop that starts a goroutine for every key with a peer; it reads the file again.\<close>

fun start_loop ::
  "'w env \<Rightarrow> 'w PeerManager \<Rightarrow> string list \<Rightarrow> 'w \<Rightarrow> (Peer list \<times> 'w PeerManager) go \<times> 'w" where
  "start_loop env pm [] w = (Ret ([], pm), w)"
| "start_loop env pm (key # ks) w =
     io_bind (getConfigByPrivManKey env pm key w) (\<lambda>(r, pm1) w1.
       io_bind (start_loop env pm1 ks w1) (\<lambda>(ps, pm2) w2.
         (Ret (case r of None \<Rightarrow> ps | Some p \<Rightarrow> p # ps, pm2), w2)))"

definition prepare_call :: "'w env \<Rightarrow> string \<Rightarrow> Peer \<Rightarrow> 'w \<Rightarrow> PeerPrivateTxPrepResult \<times> 'w" where
  "prepare_call env req nhc w =
     (let ((e, res), w1) = CallRPC env (peer_client nhc) (peer_RpcUrl nhc) req dec_PeerPrivateTxPrepResult
            \<lparr>ppr_Result = \<lparr>ptp_Status = False\<rparr>, ppr_Error = None\<rparr> w
      in (if e \<noteq> None then res\<lparr>ppr_Error := e\<rparr> else res, w1))"

fun run_calls :: "('p \<Rightarrow> 'w \<Rightarrow> 'r \<times> 'w) \<Rightarrow> 'p list \<Rightarrow> 'w \<Rightarrow> 'r list \<times> 'w" where
  "run_calls f [] w = ([], w)"
| "run_calls f (p # ps) w = (let (r, w1) = f p w; (rs, w2) = run_calls f ps w1 in (r # rs, w2))"

definition peerPrivateTxStatus ::
  "'w env \<Rightarrow> 'w PeerManager \<Rightarrow> string list \<Rightarrow> 'w \<Rightarrow> (bool list \<times> 'w PeerManager) go \<times> 'w" where
  "peerPrivateTxStatus env pm participantKeys w =
     io_bind (peersByParticipantKeyCount env pm participantKeys w) (\<lambda>(expResCnt, pm1) w1.
       (let req = PreparePvtTxMethod (b_Name (nd_BasicConfig (mgr_cfg pm))) in
        if expResCnt = 0 then (Ret ([], pm1), w1)
        else
          io_bind (start_loop env pm1 participantKeys w1) (\<lambda>(ps, pm2) w2.
            (let (rs, w3) = run_calls (prepare_call env req) (scheduled env w2 ps) w2
             in (go_bind (gather expResCnt rs) (\<lambda>got.
                   Ret (map (\<lambda>r. ptp_Status (ppr_Result r)) (filter (\<lambda>r. ppr_Error r = None) got), pm2)), w3)))))"

fun all_true_loop :: "bool list \<Rightarrow> bool \<Rightarrow> bool" where
  "all_true_loop [] final = final"
| "all_true_loop (s # ss) final = (if \<not> s then False else all_true_loop ss final)"

definition ValidatePeerPrivateTxStatus ::
  "'w env \<Rightarrow> 'w PeerManager \<Rightarrow> string list \<Rightarrow> 'w \<Rightarrow> ((bool \<times> err option) \<times> 'w PeerManager) go \<times> 'w" where
  "ValidatePeerPrivateTxStatus env pm participantKeys w =
     io_bind (peerPrivateTxStatus env pm participantKeys w) (\<lambda>(statusArr, pm1) w1.
       (let finalStatus = (if length statusArr = 0 then False else True)
        in (Ret ((all_true_loop statusArr finalStatus, None), pm1), w1)))"

section \<open>Validating the peers before a shutdown\<close>

fun getPeersCount :: "'w PeerManager \<Rightarrow> Peer list \<Rightarrow> nat \<Rightarrow> nat" where
  "getPeersCount pm [] c = c"
| "getPeersCount pm (n # ns) c =
     (if isPeerSelf pm (peer_Name n) then getPeersCount pm ns c else getPeersCount pm ns (c + 1))"

definition status_call :: "'w env \<Rightarrow> string \<Rightarrow> Peer \<Rightarrow> 'w \<Rightarrow> PeerNodeStatusResult \<times> 'w" where
  "status_call env req nhc w =
     (let ((e, res), w1) = CallRPC env (peer_client nhc) (peer_RpcUrl nhc) req dec_PeerNodeStatusResult
            \<lparr>pns_Result = zero_NodeStatusInfo, pns_Error = None\<rparr> w
      in (res, w1))"

definition peerStatus ::
  "'w env \<Rightarrow> 'w PeerManager \<Rightarrow> 'w \<Rightarrow> ((nat \<times> NodeStatusInfo list) \<times> 'w PeerManager) go \<times> 'w" where
  "peerStatus env pm w =
     io_bind (readPeersConfig env pm w) (\<lambda>(peersConfig, pm1) w1.
       (let req = NodeStatusMethod (b_Name (nd_BasicConfig (mgr_cfg pm)));
            expResCnt = getPeersCount pm1 peersConfig 0
        in if expResCnt = 0 then (Ret ((0, []), pm1), w1)
           else
             (let ps = filter (\<lambda>n. \<not> isPeerSelf pm1 (peer_Name n)) peersConfig;
                  (rs, w2) = run_calls (status_call env req) (scheduled env w1 ps) w1
              in (go_bind (gather expResCnt rs) (\<lambda>got.
                    Ret ((expResCnt, map pns_Result (filter (\<lambda>r. pns_Error r = None) got)), pm1)), w2))))"

fun shutdown_loop :: "NodeStatusInfo list \<Rightarrow> bool" where
  "shutdown_loop [] = False"
| "shutdown_loop (n # ns) =
     (if nsi_Status n = ShutdownInprogress \<or> nsi_Status n = ConsensusWait then True else shutdown_loop ns)"

definition ValidatePeers ::
  "'w env \<Rightarrow> 'w PeerManager \<Rightarrow> 'w \<Rightarrow> ((NodeStatusInfo list \<times> err option) \<times> 'w PeerManager) go \<times> 'w" where
  "ValidatePeers env pm w =
     io_bind (peerStatus env pm w) (\<lambda>((nodeManagerCount, statusArr), pm1) w1.
       (Ret ((statusArr,
          if length statusArr \<noteq> nodeManagerCount then Some ''some node managers did not respond''
          else if shutdown_loop statusArr then
            Some ''ValidatePeers - some peer node managers have shutdown initiated/inprogress''
          else None), pm1), w1))"

end
