(* ===== verification/P2P_Facts.thy ===== *)
theory P2P_Facts
  imports P2P
begin

text \<open>
  What the peer manager guarantees and what it does not: the verdict of \<open>ValidatePeers\<close>, which
  counts a peer that does not answer as one that is not shutting down, the verdict on the
  participants of a private transaction, and the wait that never ends when the peers file changes
  between the two times it is read.
\<close>

section \<open>Loops\<close>

lemma getPeersCount_filter:
  "getPeersCount pm ps c = c + length (filter (\<lambda>n. \<not> isPeerSelf pm (peer_Name n)) ps)"
  by (induction ps arbitrary: c) auto

lemma length_run_calls [simp]: "length (fst (run_calls f ps w)) = length ps"
  by (induction ps arbitrary: w) (auto split: prod.splits, metis fst_conv)

lemma run_calls_all:
  assumes "\<And>p w. Q (fst (f p w))"
  shows "\<forall>r\<in>set (fst (run_calls f ps w)). Q r"
proof (induction ps arbitrary: w)
  case (Cons p ps)
  from assms [of p w] Cons.IH [of "snd (f p w)"] show ?case by (auto split: prod.splits)
qed simp

lemma run_calls_stateless:
  assumes "\<And>p w. f p w = (g p, w)"
  shows "run_calls f ps w = (map g ps, w)"
  by (induction ps) (auto simp: assms)

lemma all_true_loop_iff: "all_true_loop ss final \<longleftrightarrow> final \<and> (\<forall>s\<in>set ss. s) \<or> ss \<noteq> [] \<and> final \<and> (\<forall>s\<in>set ss. s)"
  by (induction ss final rule: all_true_loop.induct) auto

lemma shutdown_loop_iff:
  "shutdown_loop ns \<longleftrightarrow> (\<exists>n\<in>set ns. nsi_Status n = ShutdownInprogress \<or> nsi_Status n = ConsensusWait)"
  by (induction ns) auto

lemma length_scheduled: "sched_ok env \<Longrightarrow> length (scheduled env w xs) = length xs"
  by (metis mset_scheduled size_mset)

lemma set_scheduled: "sched_ok env \<Longrightarrow> set (scheduled env w xs) = set xs"
  by (metis mset_scheduled set_mset_mset)

section \<open>A peer's failure never reaches the collector of \<open>peerStatus\<close>\<close>

lemma dec_PeerNodeStatusResult_error:
  "pns_Error r = None \<Longrightarrow> pns_Error (fst (dec_PeerNodeStatusResult v r)) = None"
  unfolding dec_PeerNodeStatusResult_def
  by (rule dec_struct_inv [where I = "\<lambda>r. pns_Error r = None"])
     (auto simp: json_field_def dec_error_def split: json.splits)

lemma status_call_error: "pns_Error (fst (status_call env req n w)) = None"
proof -
  obtain e res w1 where c: "CallRPC env (peer_client n) (peer_RpcUrl n) req dec_PeerNodeStatusResult
      \<lparr>pns_Result = zero_NodeStatusInfo, pns_Error = None\<rparr> w = ((e, res), w1)"
    by (metis prod.collapse)
  then have "pns_Error res = None"
    using dec_PeerNodeStatusResult_error [of "\<lparr>pns_Result = zero_NodeStatusInfo, pns_Error = None\<rparr>"]
    by (auto simp: CallRPC_def httpRequest_def Unmarshal_def Let_def
        split: prod.splits option.splits sum.splits if_splits) (metis PeerNodeStatusResult.select_convs(2) fst_conv)+
  with c show ?thesis by (simp add: status_call_def)
qed

definition remote_peers :: "'w PeerManager \<Rightarrow> Peer list \<Rightarrow> Peer list" where
  "remote_peers pm ps = filter (\<lambda>n. \<not> isPeerSelf pm (peer_Name n)) ps"

lemma peerStatus_eq:
  assumes "sched_ok env" and "readPeersConfig env pm w = (Ret (ps, pm1), w1)"
  shows "peerStatus env pm w =
    (let (rs, w2) = run_calls (status_call env (NodeStatusMethod (b_Name (nd_BasicConfig (mgr_cfg pm)))))
                      (scheduled env w1 (remote_peers pm1 ps)) w1
     in (Ret ((length (remote_peers pm1 ps), map pns_Result rs), pm1), w2))"
proof -
  define req where "req = NodeStatusMethod (b_Name (nd_BasicConfig (mgr_cfg pm)))"
  define qs where "qs = scheduled env w1 (remote_peers pm1 ps)"
  obtain rs w2 where r: "run_calls (status_call env req) qs w1 = (rs, w2)" by fastforce
  have "\<forall>r\<in>set rs. pns_Error r = None"
    using run_calls_all [of "\<lambda>r. pns_Error r = None" "status_call env req" qs w1] r
    by (simp add: status_call_error)
  then have all: "filter (\<lambda>r. pns_Error r = None) rs = rs" by simp
  have len: "length rs = length (remote_peers pm1 ps)"
    using length_scheduled [OF assms(1)] r by (metis fst_conv length_run_calls qs_def)
  then have g: "gather (length (remote_peers pm1 ps)) rs = Ret rs" by (metis gather_expected)
  show ?thesis
  proof (cases "remote_peers pm1 ps = []")
    case True
    have "scheduled env w1 (remote_peers pm1 ps) = []"
      using length_scheduled [OF assms(1), of w1 "remote_peers pm1 ps"] True by simp
    with r have "rs = []" "w2 = w1" by (simp_all add: qs_def)
    with True r show ?thesis
      by (simp add: peerStatus_def assms(2) getPeersCount_filter remote_peers_def req_def qs_def)
  next
    case False
    with r g all show ?thesis
      by (simp add: peerStatus_def assms(2) getPeersCount_filter remote_peers_def req_def qs_def)
  qed
qed

lemma ValidatePeers_eq:
  assumes "sched_ok env" and "readPeersConfig env pm w = (Ret (ps, pm1), w1)"
  shows "ValidatePeers env pm w =
    (let (rs, w2) = run_calls (status_call env (NodeStatusMethod (b_Name (nd_BasicConfig (mgr_cfg pm)))))
                      (scheduled env w1 (remote_peers pm1 ps)) w1
     in (Ret ((map pns_Result rs,
           if shutdown_loop (map pns_Result rs)
           then Some ''ValidatePeers - some peer node managers have shutdown initiated/inprogress''
           else None), pm1), w2))"
proof -
  obtain rs w2 where r: "run_calls (status_call env (NodeStatusMethod (b_Name (nd_BasicConfig (mgr_cfg pm)))))
                      (scheduled env w1 (remote_peers pm1 ps)) w1 = (rs, w2)" by fastforce
  then have "length rs = length (remote_peers pm1 ps)"
    using length_scheduled [OF assms(1)] by (metis fst_conv length_run_calls)
  then show ?thesis unfolding ValidatePeers_def peerStatus_eq [OF assms] r by simp
qed

section \<open>Networks whose answers do not change\<close>

definition stateless :: "'w env \<Rightarrow> (http_client \<Rightarrow> http_request \<Rightarrow> err + http_response) \<Rightarrow> bool" where
  "stateless env ans \<longleftrightarrow> (\<forall>c q w. client_do env c q w = (ans c q, w))"

lemma CallRPC_stateless:
  assumes "stateless env ans"
  shows "CallRPC env c url req d x w = (fst (CallRPC env c url req d x w0), w)"
  using assms by (auto simp: stateless_def CallRPC_def httpRequest_def Let_def
      split: prod.splits option.splits sum.splits if_splits)

lemma status_call_stateless:
  assumes "stateless env ans"
  shows "status_call env req n w = (fst (status_call env req n w0), w)"
  using CallRPC_stateless [OF assms, of "peer_client n" "peer_RpcUrl n" req dec_PeerNodeStatusResult _ w w0]
  by (auto simp: status_call_def split: prod.splits)

lemma prepare_call_stateless:
  assumes "stateless env ans"
  shows "prepare_call env req n w = (fst (prepare_call env req n w0), w)"
  using CallRPC_stateless [OF assms, of "peer_client n" "peer_RpcUrl n" req dec_PeerPrivateTxPrepResult _ w w0]
  by (auto simp: prepare_call_def split: prod.splits)

text \<open>The status that a peer is taken to have, whether it answers or not.\<close>

definition seen_status :: "'w env \<Rightarrow> string \<Rightarrow> Peer \<Rightarrow> 'w \<Rightarrow> NodeStatus" where
  "seen_status env req n w = nsi_Status (pns_Result (fst (status_call env req n w)))"

lemma ValidatePeers_stateless:
  assumes "sched_ok env" and "stateless env ans" and "readPeersConfig env pm w = (Ret (ps, pm1), w1)"
  shows "\<exists>arr e. ValidatePeers env pm w = (Ret ((arr, e), pm1), w1) \<and>
    (e = None \<longleftrightarrow> (\<forall>n\<in>set (remote_peers pm1 ps).
       seen_status env (NodeStatusMethod (b_Name (nd_BasicConfig (mgr_cfg pm)))) n w1
         \<notin> {ShutdownInprogress, ConsensusWait}))"
proof -
  define req where "req = NodeStatusMethod (b_Name (nd_BasicConfig (mgr_cfg pm)))"
  define qs where "qs = scheduled env w1 (remote_peers pm1 ps)"
  have run: "run_calls (status_call env req) qs w1 = (map (\<lambda>p. fst (status_call env req p w1)) qs, w1)"
    by (rule run_calls_stateless) (rule status_call_stateless [OF assms(2)])
  have "set qs = set (remote_peers pm1 ps)" by (simp add: qs_def set_scheduled assms(1))
  with run show ?thesis
    unfolding ValidatePeers_eq [OF assms(1,3)] by (auto simp: req_def qs_def shutdown_loop_iff seen_status_def)
qed

text \<open>A peer whose server cannot be reached is seen with the zero status.\<close>

definition unreachable :: "'w env \<Rightarrow> string \<Rightarrow> Peer \<Rightarrow> 'w \<Rightarrow> bool" where
  "unreachable env req n w \<longleftrightarrow>
     isl (fst (client_do env (case peer_client n of None \<Rightarrow> defaultClient | Some c \<Rightarrow> c)
       \<lparr>hq_Method = ''POST'', hq_Url = peer_RpcUrl n, hq_ContentType = ''application/json'', hq_Body = req\<rparr> w))"

lemma seen_status_unreachable: "unreachable env req n w \<Longrightarrow> seen_status env req n w = 0"
  by (auto simp: unreachable_def seen_status_def status_call_def CallRPC_def httpRequest_def Let_def
      zero_NodeStatusInfo_def split: prod.splits option.splits sum.splits)

section \<open>A peers file that does not change\<close>

definition reads_as :: "'w env \<Rightarrow> 'w PeerManager \<Rightarrow> Peer list \<Rightarrow> bool" where
  "reads_as env pm ps \<longleftrightarrow>
     (\<exists>rd raw. mgr_Read pm = Some rd \<and> (\<forall>w. rd w = (Inr raw, w)) \<and> (\<forall>w. PeerArr_IsValid env w raw = Ret (Inr ps)))"

definition with_peers :: "'w PeerManager \<Rightarrow> Peer list \<Rightarrow> 'w PeerManager" where
  "with_peers pm ps = pm\<lparr>mgr_cfg := (mgr_cfg pm)\<lparr>nd_Peers := ps\<rparr>\<rparr>"

lemma with_peers_idem [simp]: "with_peers (with_peers pm ps) ps = with_peers pm ps"
  by (simp add: with_peers_def)

lemma reads_as_with_peers: "reads_as env pm ps \<Longrightarrow> reads_as env (with_peers pm ps) ps"
  by (simp add: reads_as_def with_peers_def)

lemma reads_as_read: "reads_as env pm ps \<Longrightarrow> readPeersConfig env pm w = (Ret (ps, with_peers pm ps), w)"
  by (auto simp: reads_as_def readPeersConfig_def with_peers_def)

lemma reads_as_get:
  "reads_as env pm ps \<Longrightarrow> getConfigByPrivManKey env pm key w =
     (Ret (find (\<lambda>n. peer_PrivManKey n = key) ps, with_peers pm ps), w)"
  by (simp add: getConfigByPrivManKey_def reads_as_read)

text \<open>The peers that the participants' keys select, in order, with repetitions.\<close>

definition participants :: "Peer list \<Rightarrow> string list \<Rightarrow> Peer list" where
  "participants ps keys = List.map_filter (\<lambda>k. find (\<lambda>n. peer_PrivManKey n = k) ps) keys"

lemma key_count_stable:
  "reads_as env pm ps \<Longrightarrow>
     key_count_loop env pm keys c w = (Ret (c + length (participants ps keys), if keys = [] then pm else with_peers pm ps), w)"
proof (induction keys arbitrary: c pm)
  case (Cons k keys)
  from Cons.IH [OF reads_as_with_peers [OF Cons.prems]] show ?case
    by (simp add: reads_as_get [OF Cons.prems] participants_def map_filter_simps split: option.splits)
qed (simp add: participants_def map_filter_simps)

lemma start_loop_stable:
  "reads_as env pm ps \<Longrightarrow>
     start_loop env pm keys w = (Ret (participants ps keys, if keys = [] then pm else with_peers pm ps), w)"
proof (induction keys arbitrary: pm)
  case (Cons k keys)
  from Cons.IH [OF reads_as_with_peers [OF Cons.prems]] show ?case
    by (simp add: reads_as_get [OF Cons.prems] participants_def map_filter_simps split: option.splits)
qed (simp add: participants_def map_filter_simps)

text \<open>Whether a participant answers, and whether it answers that it is ready.\<close>

definition answers :: "'w env \<Rightarrow> string \<Rightarrow> Peer \<Rightarrow> 'w \<Rightarrow> bool" where
  "answers env req p w \<longleftrightarrow> ppr_Error (fst (prepare_call env req p w)) = None"

definition ready :: "'w env \<Rightarrow> string \<Rightarrow> Peer \<Rightarrow> 'w \<Rightarrow> bool" where
  "ready env req p w \<longleftrightarrow> ptp_Status (ppr_Result (fst (prepare_call env req p w)))"

lemma private_tx_verdict:
  assumes "sched_ok env" and "stateless env ans" and "reads_as env pm ps"
  defines "req \<equiv> PreparePvtTxMethod (b_Name (nd_BasicConfig (mgr_cfg pm)))"
  shows "\<exists>pm' b. ValidatePeerPrivateTxStatus env pm keys w = (Ret ((b, None), pm'), w) \<and>
    (b \<longleftrightarrow> (\<exists>p\<in>set (participants ps keys). answers env req p w) \<and>
           (\<forall>p\<in>set (participants ps keys). answers env req p w \<longrightarrow> ready env req p w))"
proof (cases "participants ps keys = []")
  case True
  with key_count_stable [OF assms(3), of keys 0 w] show ?thesis
    by (auto simp: ValidatePeerPrivateTxStatus_def peerPrivateTxStatus_def peersByParticipantKeyCount_def
        intro: exI [of _ False])
next
  case False
  then have keys: "keys \<noteq> []" by (auto simp: participants_def map_filter_simps)
  define qs where "qs = scheduled env w (participants ps keys)"
  define rs where "rs = map (\<lambda>p. fst (prepare_call env req p w)) qs"
  have run: "run_calls (prepare_call env req) qs w = (rs, w)"
    unfolding rs_def by (rule run_calls_stateless) (rule prepare_call_stateless [OF assms(2)])
  have len: "length rs = length (participants ps keys)" and set: "set qs = set (participants ps keys)"
    by (simp_all add: rs_def qs_def length_scheduled set_scheduled assms(1))
  then have g: "gather (length (participants ps keys)) rs = Ret rs" by (metis gather_expected)
  have "ValidatePeerPrivateTxStatus env pm keys w =
      (let ss = map (\<lambda>r. ptp_Status (ppr_Result r)) (filter (\<lambda>r. ppr_Error r = None) rs)
       in (Ret ((all_true_loop ss (ss \<noteq> []), None), with_peers pm ps), w))"
    using False keys key_count_stable [OF assms(3), of keys 0 w]
      start_loop_stable [OF reads_as_with_peers [OF assms(3)], of keys w] run g
    by (simp add: ValidatePeerPrivateTxStatus_def peerPrivateTxStatus_def peersByParticipantKeyCount_def
        req_def qs_def Let_def)
  then show ?thesis
    by (auto simp: all_true_loop_iff rs_def set filter_empty_conv answers_def ready_def Let_def)
qed

section \<open>A peers file that changes between the count and the calls\<close>

lemma private_tx_hangs:
  assumes "sched_ok env"
    and "peersByParticipantKeyCount env pm keys w = (Ret (e, pm1), w1)" and "0 < e"
    and "start_loop env pm1 keys w1 = (Ret (ps, pm2), w2)"
    and "length ps < e \<or> e + 1 < length ps"
  shows "fst (peerPrivateTxStatus env pm keys w) = Hang"
proof -
  define req where "req = PreparePvtTxMethod (b_Name (nd_BasicConfig (mgr_cfg pm)))"
  obtain rs w3 where r: "run_calls (prepare_call env req) (scheduled env w2 ps) w2 = (rs, w3)" by fastforce
  then have "length rs = length ps"
    using length_scheduled [OF assms(1)] by (metis fst_conv length_run_calls)
  with assms(5) have "gather e rs = Hang" by (auto simp: gather_def)
  with assms r show ?thesis by (simp add: peerPrivateTxStatus_def req_def)
qed

section \<open>Silence\<close>

text \<open>When no peer can be reached, a shutdown is not refused, and every silent peer counts as one that has answered.\<close>

lemma run_calls_in:
  assumes "\<And>p w. p \<in> set ps \<Longrightarrow> Q (fst (f p w))"
  shows "\<forall>r\<in>set (fst (run_calls f ps w)). Q r"
  using assms
proof (induction ps arbitrary: w)
  case (Cons p ps)
  have "Q (fst (f p w))" by (rule Cons.prems) simp
  moreover have "\<forall>r\<in>set (fst (run_calls f ps (snd (f p w)))). Q r" by (rule Cons.IH) (simp add: Cons.prems)
  ultimately show ?case by (auto split: prod.splits)
qed simp

lemma ValidatePeers_unreachable:
  assumes "sched_ok env" and "readPeersConfig env pm w = (Ret (ps, pm1), w1)"
    and "\<And>p v. p \<in> set (remote_peers pm1 ps) \<Longrightarrow>
      unreachable env (NodeStatusMethod (b_Name (nd_BasicConfig (mgr_cfg pm)))) p v"
  obtains arr w2 where "ValidatePeers env pm w = (Ret ((arr, None), pm1), w2)"
    and "length arr = length (remote_peers pm1 ps)" and "\<forall>a\<in>set arr. nsi_Status a = 0"
proof -
  define req where "req = NodeStatusMethod (b_Name (nd_BasicConfig (mgr_cfg pm)))"
  obtain rs w2 where r: "run_calls (status_call env req) (scheduled env w1 (remote_peers pm1 ps)) w1 = (rs, w2)" by fastforce
  have "nsi_Status (pns_Result (fst (status_call env req p v))) = 0" if "p \<in> set (remote_peers pm1 ps)" for p v
    using seen_status_unreachable [OF assms(3) [OF that]] by (simp add: seen_status_def req_def)
  then have zero: "\<forall>r\<in>set rs. nsi_Status (pns_Result r) = 0"
    using run_calls_in [of "scheduled env w1 (remote_peers pm1 ps)" "\<lambda>r. nsi_Status (pns_Result r) = 0"
        "status_call env req" w1] by (simp add: r set_scheduled assms(1))
  then have "\<not> shutdown_loop (map pns_Result rs)" by (auto simp: shutdown_loop_iff)
  moreover have "length rs = length (remote_peers pm1 ps)"
    using r length_scheduled [OF assms(1)] by (metis fst_conv length_run_calls)
  ultimately show thesis
    using r zero by (intro that [of "map pns_Result rs" w2]) (simp_all add: ValidatePeers_eq [OF assms(1,2)] req_def)
qed

lemma ValidatePeers_read:
  assumes "ValidatePeers env pm w = (Ret (r, pm'), w')"
  obtains ps pm1 w1 where "readPeersConfig env pm w = (Ret (ps, pm1), w1)"
  using assms by (auto simp: ValidatePeers_def peerStatus_def io_bind_eq_Ret)

lemma ValidatePeers_error:
  assumes "sched_ok env" and "ValidatePeers env pm w = (Ret ((arr, e), pm'), w')"
  shows "e = (if shutdown_loop arr
    then Some ''ValidatePeers - some peer node managers have shutdown initiated/inprogress'' else None)"
proof -
  from assms(2) obtain ps pm1 w1 where "readPeersConfig env pm w = (Ret (ps, pm1), w1)" by (rule ValidatePeers_read)
  from ValidatePeers_eq [OF assms(1) this] assms(2) show ?thesis by (auto split: prod.split_asm)
qed

end
