(* ===== verification/Private_Tx.thy ===== *)
theory Private_Tx
  imports Config_Node
begin

text \<open>
  Package \<open>privatetx\<close>: recognising GoQuorum's private transactions and the keys of their
  participants (\<open>privatetx/quorum.go\<close>). A key list is empty exactly when the code returns a
  \<open>nil\<close> slice. Type assertions without the \<open>ok\<close> result panic.
\<close>

definition ethSendTx :: string where "ethSendTx = ''eth_sendTransaction''"
definition ethSendRawTx :: string where "ethSendRawTx = ''eth_sendRawPrivateTransaction''"
definition ethSignTx :: string where "ethSignTx = ''eth_signTransaction''"
definition personalSignTx :: string where "personalSignTx = ''personal_signTransaction''"
definition pvtStateExtAppr :: string where "pvtStateExtAppr = ''quorumExtension_approveExtension''"
definition pvtStateExtExt :: string where "pvtStateExtExt = ''quorumExtension_extendContract''"
definition estimateGas :: string where "estimateGas = ''eth_estimateGas''"
definition privateFor :: string where "privateFor = ''privateFor''"

lemmas method_names = ethSendTx_def ethSendRawTx_def ethSignTx_def personalSignTx_def
  pvtStateExtAppr_def pvtStateExtExt_def estimateGas_def

text \<open>Method name and the number of items expected in the params array.\<close>

definition pvtReqParamMap :: "(string \<times> nat) list" where
  "pvtReqParamMap = [(ethSendTx, 1), (ethSendRawTx, 2), (ethSignTx, 1), (personalSignTx, 2),
     (pvtStateExtExt, 4), (pvtStateExtAppr, 3), (estimateGas, 1)]"

definition containsPrivateTxKeyWords :: "string \<Rightarrow> bool" where
  "containsPrivateTxKeyWords bodyStr \<longleftrightarrow> Contains bodyStr privateFor"

fun privKeys_loop :: "json list \<Rightarrow> string list go" where
  "privKeys_loop [] = Ret []"
| "privKeys_loop (v # vs) =
     (case as_str v of
        None \<Rightarrow> Panic ''interface conversion''
      | Some s \<Rightarrow> go_bind (privKeys_loop vs) (\<lambda>ks. Ret (s # ks)))"

definition privKeys :: "json \<Rightarrow> string list go" where
  "privKeys keys = (case as_list keys of
     None \<Rightarrow> Panic ''interface conversion'' | Some arrK \<Rightarrow> privKeys_loop arrK)"

text \<open>The loop over the params: the first object with a \<open>privateFor\<close> member decides.\<close>

fun params_loop :: "json list \<Rightarrow> string list go" where
  "params_loop [] = Ret []"
| "params_loop (param # ps) =
     (case as_map param of
        None \<Rightarrow> params_loop ps
      | Some pvtMap \<Rightarrow>
          (case obj_get pvtMap privateFor of
             None \<Rightarrow> params_loop ps
           | Some keys \<Rightarrow> privKeys keys))"

definition validatePrivateReq :: "(string \<times> json) list \<Rightarrow> string \<Rightarrow> string list go" where
  "validatePrivateReq txMap method =
     (case map_of pvtReqParamMap method of
        None \<Rightarrow> Ret []
      | Some expArgs \<Rightarrow>
          (case Option.bind (obj_get txMap ''params'') as_list of
             None \<Rightarrow> Ret []
           | Some params \<Rightarrow>
               if length params = 0 then Ret []
               else if length params \<noteq> expArgs then Ret []
               else params_loop params))"

definition decodePvtTx :: "string \<Rightarrow> (string list \<times> err option) go" where
  "decodePvtTx body =
     (case Unmarshal dec_obj body [] of
        (txMap, Some e) \<Rightarrow> Ret ([], Some e)
      | (txMap, None) \<Rightarrow>
          (case obj_get txMap ''method'' of
             None \<Rightarrow> Ret ([], None)
           | Some m \<Rightarrow>
               (case as_str m of
                  None \<Rightarrow> Panic ''interface conversion''
                | Some method \<Rightarrow> go_bind (validatePrivateReq txMap method) (\<lambda>keys. Ret (keys, None)))))"

definition IsPrivateTx :: "string \<Rightarrow> (string list \<times> err option) go" where
  "IsPrivateTx msg = (if containsPrivateTxKeyWords msg then decodePvtTx msg else Ret ([], None))"

section \<open>A specification by document\<close>

text \<open>
  The participants of a request, read off its JSON value: the method must be one of the private
  ones with the right number of params, and the first param that is an object with a
  \<open>privateFor\<close> member names them.
\<close>

definition has_privateFor :: "json \<Rightarrow> bool" where
  "has_privateFor p = (case as_map p of None \<Rightarrow> False | Some m \<Rightarrow> obj_get m privateFor \<noteq> None)"

definition participants_of :: "(string \<times> json) list \<Rightarrow> json option" where
  "participants_of tx =
     (case (obj_get tx ''method'', obj_get tx ''params'') of
        (Some (JStr m), Some (JArr ps)) \<Rightarrow>
          if ps \<noteq> [] \<and> map_of pvtReqParamMap m = Some (length ps)
          then Option.bind (find has_privateFor ps) (\<lambda>p. Option.bind (as_map p) (\<lambda>o'. obj_get o' privateFor))
          else None
      | _ \<Rightarrow> None)"

definition string_array :: "json \<Rightarrow> bool" where
  "string_array v = (case v of JArr vs \<Rightarrow> list_all (\<lambda>x. as_str x \<noteq> None) vs | _ \<Rightarrow> False)"

definition strings_of :: "json \<Rightarrow> string list" where
  "strings_of v = (case v of JArr vs \<Rightarrow> List.map_filter as_str vs | _ \<Rightarrow> [])"

section \<open>Facts\<close>

lemma privKeys_loop_Ret:
  "list_all (\<lambda>x. as_str x \<noteq> None) vs \<Longrightarrow> privKeys_loop vs = Ret (List.map_filter as_str vs)"
  by (induction vs) (auto simp: map_filter_simps)

lemma privKeys_loop_Panic:
  "\<not> list_all (\<lambda>x. as_str x \<noteq> None) vs \<Longrightarrow> panics (privKeys_loop vs)"
  by (induction vs) (auto split: option.splits)

lemma privKeys_spec:
  "privKeys v = Ret (strings_of v) \<or> panics (privKeys v)"
  "panics (privKeys v) \<longleftrightarrow> \<not> string_array v"
  using privKeys_loop_Ret privKeys_loop_Panic
  by (auto simp: privKeys_def as_list_def strings_of_def string_array_def split: json.splits option.splits)

lemma params_loop_spec:
  "params_loop ps =
     (case Option.bind (find has_privateFor ps) (\<lambda>p. Option.bind (as_map p) (\<lambda>o'. obj_get o' privateFor)) of
        None \<Rightarrow> Ret [] | Some keys \<Rightarrow> privKeys keys)"
  by (induction ps) (auto simp: has_privateFor_def split: option.splits)

lemma pvtReqParamMap_pos: "map_of pvtReqParamMap m = Some n \<Longrightarrow> 0 < n"
  by (auto simp: pvtReqParamMap_def split: if_splits)

lemma decodePvtTx_spec:
  assumes "Unmarshal dec_obj body [] = (tx, None)"
  shows "decodePvtTx body =
     (if obj_get tx ''method'' \<noteq> None \<and> Option.bind (obj_get tx ''method'') as_str = None
      then Panic ''interface conversion''
      else (case participants_of tx of
              None \<Rightarrow> Ret ([], None)
            | Some v \<Rightarrow> go_bind (privKeys v) (\<lambda>ks. Ret (ks, None))))"
proof (cases "obj_get tx ''method''")
  case None
  with assms show ?thesis by (simp add: decodePvtTx_def participants_of_def)
next
  case (Some v)
  show ?thesis
  proof (cases "as_str v")
    case None
    with assms Some show ?thesis by (simp add: decodePvtTx_def)
  next
    case (Some m)
    then have v: "v = JStr m" by (cases v) (auto simp: as_str_def)
    have "validatePrivateReq tx m =
        (case participants_of tx of None \<Rightarrow> Ret [] | Some keys \<Rightarrow> privKeys keys)"
      using \<open>obj_get tx ''method'' = Some v\<close> v pvtReqParamMap_pos [of m]
      by (auto simp: validatePrivateReq_def participants_of_def params_loop_spec as_list_def
          split: option.splits json.splits)
    with assms Some \<open>obj_get tx ''method'' = Some v\<close> show ?thesis
      by (auto simp: decodePvtTx_def split: option.splits)
  qed
qed

end
