(* ===== verification/Node_Control.thy ===== *)
theory Node_Control
  imports Consensus Process_Control P2P_Facts Private_Tx
begin

text \<open>
  \<open>node/control.go\<close>: the controller of a node. Its configuration is the one its peer manager
  shares. \<open>StartClient\<close> and \<open>StopClient\<close> hold the start/stop mutex from their first to their
  last line, so each is one operation on the controller; pairs of goroutines that run in parallel
  run one after the other, in the order the environment schedules.
\<close>

section \<open>State\<close>

datatype consensus_handler =
    RaftConsensus "http_client option"
  | IstanbulConsensus "http_client option"
  | QuorumCliqueConsensus "http_client option"
  | BesuCliqueConsensus "http_client option"

datatype tx_handler = QuorumTxHandler

record 'w NodeControl =
  nc_nh :: "'w PeerManager"
  nc_bcclntProcess :: "proc option"
  nc_pmclntProcess :: "proc option"
  nc_bcclntHttpClient :: "http_client option"
  nc_pmclntHttpClient :: "http_client option"
  nc_consensus :: "consensus_handler option"
  nc_txh :: "tx_handler option"
  nc_withPrivMan :: bool
  nc_consValid :: bool
  nc_clientStatus :: ClientStatus
  nc_nodeStatus :: NodeStatus

definition config :: "'w NodeControl \<Rightarrow> Node" where
  "config n = mgr_cfg (nc_nh n)"

abbreviation basic :: "'w NodeControl \<Rightarrow> Basic" where
  "basic n \<equiv> nd_BasicConfig (config n)"

section \<open>Construction\<close>

definition new_process :: "'w env \<Rightarrow> http_client option \<Rightarrow> Process option \<Rightarrow> 'w \<Rightarrow> proc option go \<times> 'w" where
  "new_process env client cfg w =
     (case cfg of
        None \<Rightarrow> (Panic ''nil pointer dereference'', w)
      | Some p \<Rightarrow>
          if IsShell p then
            io_bind (NewShellProcess env client p True w) (\<lambda>sp w1. (Ret (Some (ShellProc sp)), w1))
          else if IsDocker p then
            io_bind (NewDockerProcess env client p True w) (\<lambda>dc w1. (Ret (Some (DockerProc dc)), w1))
          else (Ret None, w))"

definition tls_client :: "ClientTLS option \<Rightarrow> http_client" where
  "tls_client cfg = (case cfg of None \<Rightarrow> NewHttpClient None | Some t \<Rightarrow> NewHttpClient (ct_TlsCfg t))"

definition getRandomBufferTime :: "'w env \<Rightarrow> int \<Rightarrow> 'w \<Rightarrow> int go \<times> 'w" where
  "getRandomBufferTime env inactivityTime w =
     (let delay = go_mul 2 inactivityTime sdiv 100;
          delay' = (if delay < 10 then 10 else delay)
      in RandomInt env 1 delay' w)"

definition consensus_handler_for :: "BlockchainClient \<Rightarrow> http_client option \<Rightarrow> consensus_handler option" where
  "consensus_handler_for b client =
     (if IsGoQuorumClient b then
        (if IsRaft b then Some (RaftConsensus client)
         else if IsIstanbul b then Some (IstanbulConsensus client)
         else if IsClique b then Some (QuorumCliqueConsensus client)
         else None)
      else if IsBesuClient b then
        (if IsClique b then Some (BesuCliqueConsensus client) else None)
      else None)"

definition NewNodeControl ::
  "'w env \<Rightarrow> (string \<Rightarrow> err + NodeHibernatorList) \<Rightarrow> Node \<Rightarrow> 'w \<Rightarrow> 'w NodeControl go \<times> 'w" where
  "NewNodeControl env toml cfg w =
     (case the_client (nd_BasicConfig cfg) of
        Panic m \<Rightarrow> (Panic m, w)
      | Hang \<Rightarrow> (Hang, w)
      | Ret b \<Rightarrow>
          (let bc = nd_BasicConfig cfg;
               bcHttp = Some (tls_client (bc_BcClntTLSConfig b));
               pmHttp = map_option (\<lambda>p. tls_client (pm_PrivManTLSConfig p)) (b_PrivacyManager bc)
           in io_bind (new_process env bcHttp (bc_BcClntProcess b) w) (\<lambda>bcProc w1.
                io_bind (case b_PrivacyManager bc of
                           None \<Rightarrow> (Ret None, w1)
                         | Some p \<Rightarrow> new_process env pmHttp (pm_PrivManProcess p) w1) (\<lambda>pmProc w2.
                  io_bind (getRandomBufferTime env (b_InactivityTime bc) w2) (\<lambda>buffer w3.
                    (Ret \<lparr>nc_nh = NewPeerManager env toml
                            (cfg\<lparr>nd_BasicConfig := bc\<lparr>b_InactivityTime := go_add (b_InactivityTime bc) buffer\<rparr>\<rparr>),
                          nc_bcclntProcess = bcProc, nc_pmclntProcess = pmProc,
                          nc_bcclntHttpClient = bcHttp, nc_pmclntHttpClient = pmHttp,
                          nc_consensus = consensus_handler_for b bcHttp,
                          nc_txh = (if IsGoQuorumClient b then Some QuorumTxHandler else None),
                          nc_withPrivMan = (b_PrivacyManager bc \<noteq> None), nc_consValid = False,
                          nc_clientStatus = 0, nc_nodeStatus = OK\<rparr>, w3))))))"

section \<open>Status\<close>

definition IsClientUp :: "'w NodeControl \<Rightarrow> bool" where
  "IsClientUp n \<longleftrightarrow> nc_clientStatus n = Up"

definition SetClntStatus :: "ClientStatus \<Rightarrow> 'w NodeControl \<Rightarrow> 'w NodeControl" where
  "SetClntStatus s n = n\<lparr>nc_clientStatus := s\<rparr>"

definition SetNodeStatus :: "NodeStatus \<Rightarrow> 'w NodeControl \<Rightarrow> 'w NodeControl" where
  "SetNodeStatus s n = n\<lparr>nc_nodeStatus := s\<rparr>"

definition IsNodeBusy :: "'w NodeControl \<Rightarrow> err option" where
  "IsNodeBusy n =
     (if nc_nodeStatus n = ShutdownInprogress then Some NodeIsBeingShutdown
      else if nc_nodeStatus n = StartupInprogress then Some NodeIsBeingStarted
      else if nc_nodeStatus n = OK then None
      else None)"

text \<open>One process of the controller, by its field; calling a method of a \<open>nil\<close> interface panics.\<close>

definition on_bc :: "('w env \<Rightarrow> proc \<Rightarrow> 'w \<Rightarrow> ('a \<times> proc) \<times> 'w) \<Rightarrow> 'w env \<Rightarrow> 'w NodeControl \<Rightarrow> 'w
    \<Rightarrow> ('a \<times> 'w NodeControl) go \<times> 'w" where
  "on_bc f env n w = (case nc_bcclntProcess n of
     None \<Rightarrow> (Panic ''nil pointer dereference'', w)
   | Some p \<Rightarrow> (let ((r, p'), w1) = f env p w in (Ret (r, n\<lparr>nc_bcclntProcess := Some p'\<rparr>), w1)))"

definition on_pm :: "('w env \<Rightarrow> proc \<Rightarrow> 'w \<Rightarrow> ('a \<times> proc) \<times> 'w) \<Rightarrow> 'w env \<Rightarrow> 'w NodeControl \<Rightarrow> 'w
    \<Rightarrow> ('a \<times> 'w NodeControl) go \<times> 'w" where
  "on_pm f env n w = (case nc_pmclntProcess n of
     None \<Rightarrow> (Panic ''nil pointer dereference'', w)
   | Some p \<Rightarrow> (let ((r, p'), w1) = f env p w in (Ret (r, n\<lparr>nc_pmclntProcess := Some p'\<rparr>), w1)))"

definition fetchCurrentClientStatuses ::
  "'w env \<Rightarrow> 'w NodeControl \<Rightarrow> 'w \<Rightarrow> ((bool \<times> bool) \<times> 'w NodeControl) go \<times> 'w" where
  "fetchCurrentClientStatuses env n w =
     (if \<not> nc_withPrivMan n then
        io_bind (on_bc Proc_UpdateStatus env n w) (\<lambda>(b, n1) w1. (Ret ((b, True), n1), w1))
      else if first_first env w then
        io_bind (on_bc Proc_UpdateStatus env n w) (\<lambda>(b, n1) w1.
          io_bind (on_pm Proc_UpdateStatus env n1 w1) (\<lambda>(p, n2) w2. (Ret ((b, p), n2), w2)))
      else
        io_bind (on_pm Proc_UpdateStatus env n w) (\<lambda>(p, n1) w1.
          io_bind (on_bc Proc_UpdateStatus env n1 w1) (\<lambda>(b, n2) w2. (Ret ((b, p), n2), w2))))"

definition CheckClientUpStatus ::
  "'w env \<Rightarrow> bool \<Rightarrow> 'w NodeControl \<Rightarrow> 'w \<Rightarrow> (bool \<times> 'w NodeControl) go \<times> 'w" where
  "CheckClientUpStatus env connectToClient n w =
     (if \<not> IsClientUp n \<and> \<not> connectToClient then (Ret (False, n), w)
      else io_bind (fetchCurrentClientStatuses env n w) (\<lambda>((bcclntStatus, pmStatus), n1) w1.
        (let areClientsUp = bcclntStatus \<and> pmStatus
         in (Ret (areClientsUp, SetClntStatus (if areClientsUp then Up else Down) n1), w1))))"

section \<open>Consensus\<close>

definition Cons_ValidateShutdown :: "'w env \<Rightarrow> consensus_handler \<Rightarrow> string \<Rightarrow> 'w \<Rightarrow> verdict \<times> 'w" where
  "Cons_ValidateShutdown env h url w =
     (case h of
        RaftConsensus client \<Rightarrow> Raft_ValidateShutdown env client url w
      | IstanbulConsensus client \<Rightarrow> Istanbul_ValidateShutdown env client url w
      | QuorumCliqueConsensus client \<Rightarrow> Clique_ValidateShutdown env client url w
      | BesuCliqueConsensus client \<Rightarrow> Besu_ValidateShutdown env client url w)"

definition call_consensus :: "'w env \<Rightarrow> 'w NodeControl \<Rightarrow> 'w \<Rightarrow> (bool \<times> err option) go \<times> 'w" where
  "call_consensus env n w =
     (case nc_consensus n of
        None \<Rightarrow> (Panic ''nil pointer dereference'', w)
      | Some h \<Rightarrow>
          (case the_client (basic n) of
             Panic m \<Rightarrow> (Panic m, w)
           | Hang \<Rightarrow> (Hang, w)
           | Ret b \<Rightarrow> Cons_ValidateShutdown env h (bc_BcClntRpcUrl b) w))"

definition checkAndValidateConsensus ::
  "'w env \<Rightarrow> 'w NodeControl \<Rightarrow> 'w \<Rightarrow> ((bool \<times> err option) \<times> 'w NodeControl) go \<times> 'w" where
  "checkAndValidateConsensus env n w =
     (case (if nc_consValid n then Ret False else Basic_IsGoQuorumClient (basic n)) of
        Panic m \<Rightarrow> (Panic m, w)
      | Hang \<Rightarrow> (Hang, w)
      | Ret check \<Rightarrow>
          io_bind (if check then IsConsensusValid env (nc_pmclntHttpClient n) (config n) w else (Ret None, w))
            (\<lambda>e w1. case e of
               Some x \<Rightarrow> (Ret ((False, Some x), n), w1)
             | None \<Rightarrow>
                 (let n1 = (if check then n\<lparr>nc_consValid := True\<rparr> else n)
                  in io_bind (call_consensus env n1 w1) (\<lambda>v w2. (Ret (v, n1), w2)))))"

section \<open>Stopping and starting\<close>

definition CONSENSUS_WAIT_TIME :: int where "CONSENSUS_WAIT_TIME = 60"

text \<open>A panic inside a process operation becomes a panic of the caller.\<close>

definition lift_proc :: "(err option go \<times> 'w NodeControl) go \<times> 'w \<Rightarrow> (err option \<times> 'w NodeControl) go \<times> 'w" where
  "lift_proc m = io_bind m (\<lambda>(r, n) w. (go_bind r (\<lambda>e. Ret (e, n)), w))"

definition stopProcesses :: "'w env \<Rightarrow> 'w NodeControl \<Rightarrow> 'w \<Rightarrow> ((bool \<times> bool) \<times> 'w NodeControl) go \<times> 'w" where
  "stopProcesses env n w =
     (if nc_pmclntProcess n = None then
        io_bind (lift_proc (on_bc Proc_Stop env n w)) (\<lambda>(b, n1) w1. (Ret ((b = None, True), n1), w1))
      else if first_first env w then
        io_bind (lift_proc (on_bc Proc_Stop env n w)) (\<lambda>(b, n1) w1.
          io_bind (lift_proc (on_pm Proc_Stop env n1 w1)) (\<lambda>(p, n2) w2. (Ret ((b = None, p = None), n2), w2)))
      else
        io_bind (lift_proc (on_pm Proc_Stop env n w)) (\<lambda>(p, n1) w1.
          io_bind (lift_proc (on_bc Proc_Stop env n1 w1)) (\<lambda>(b, n2) w2. (Ret ((b = None, p = None), n2), w2))))"

text \<open>
  The checks of \<open>StopClient\<close> on a node that is up: whether the shutdown may go ahead. On every
  failure the status says that the node is available again, except that a strict-mode refusal
  comes before the status is touched.
\<close>

definition stop_checks :: "'w env \<Rightarrow> 'w NodeControl \<Rightarrow> 'w \<Rightarrow> (bool \<times> 'w NodeControl) go \<times> 'w" where
  "stop_checks env n w =
     io_bind (checkAndValidateConsensus env n w) (\<lambda>((consensusNode, err), n1) w1.
       case err of
         Some e \<Rightarrow> (Ret (False, SetNodeStatus OK n1), w1)
       | None \<Rightarrow>
           if consensusNode \<and> \<not> b_DisableStrictMode (basic n1) then (Ret (False, n1), w1)
           else
             io_bind (RandomInt env 10 5000 w1) (\<lambda>ms w2.
               (let w3 = sleep env (ms * Millisecond) w2;
                    n2 = SetNodeStatus ShutdownInprogress n1
                in io_bind (ValidatePeers env (nc_nh n2) w3) (\<lambda>((peersStatus, perr), pm) w4.
                     (let n3 = n2\<lparr>nc_nh := pm\<rparr> in
                      case perr of
                        Some e \<Rightarrow> (Ret (False, SetNodeStatus OK n3), w4)
                      | None \<Rightarrow> (Ret (True, n3), w4))))))"

definition StopClient :: "'w env \<Rightarrow> 'w NodeControl \<Rightarrow> 'w \<Rightarrow> (bool \<times> 'w NodeControl) go \<times> 'w" where
  "StopClient env n w =
     (if \<not> IsClientUp n then (Ret (True, n), w)
      else if IsNodeBusy n \<noteq> None then (Ret (False, n), w)
      else
        io_bind (stop_checks env n w) (\<lambda>(go_ahead, n1) w1.
          if \<not> go_ahead then (Ret (False, n1), w1)
          else
            io_bind (stopProcesses env n1 w1) (\<lambda>((bcStatus, pmStatus), n2) w2.
              if bcStatus \<and> pmStatus then
                (let n3 = SetNodeStatus ConsensusWait (SetClntStatus Down n2);
                     w3 = sleep env (CONSENSUS_WAIT_TIME * Second) w2
                 in (Ret (True, SetNodeStatus OK n3), w3))
              else (Ret (False, n2), w2))))"

definition StartClient :: "'w env \<Rightarrow> 'w NodeControl \<Rightarrow> 'w \<Rightarrow> (bool \<times> 'w NodeControl) go \<times> 'w" where
  "StartClient env n w =
     io_bind (if IsClientUp n then (Ret (True, n), w) else CheckClientUpStatus env True n w) (\<lambda>(up, n1) w1.
       if up then (Ret (True, n1), w1)
       else
         (let n2 = SetNodeStatus StartupInprogress n1 in
          io_bind (if nc_withPrivMan n2 then lift_proc (on_pm Proc_Start env n2 w1) else (Ret (None, n2), w1))
            (\<lambda>(pe, n3) w3.
              io_bind (lift_proc (on_bc Proc_Start env n3 w3)) (\<lambda>(be, n4) w4.
                (let gs = (pe = None); ts = (be = None) in
                 if gs \<and> ts then (Ret (True, SetNodeStatus OK (SetClntStatus Up n4)), w4)
                 else (Ret (False, n4), w4))))))"

definition PrepareClient :: "'w env \<Rightarrow> 'w NodeControl \<Rightarrow> 'w \<Rightarrow> (bool \<times> 'w NodeControl) go \<times> 'w" where
  "PrepareClient env n w = StartClient env n w"

definition PrepareNodeHibernatorForPrivateTx ::
  "'w env \<Rightarrow> string list \<Rightarrow> 'w NodeControl \<Rightarrow> 'w \<Rightarrow> ((bool \<times> err option) \<times> 'w NodeControl) go \<times> 'w" where
  "PrepareNodeHibernatorForPrivateTx env privFor n w =
     io_bind (ValidatePeerPrivateTxStatus env (nc_nh n) privFor w) (\<lambda>(r, pm) w1. (Ret (r, n\<lparr>nc_nh := pm\<rparr>), w1))"

end
