(* ===== verification/Node_Facts.thy ===== *)
theory Node_Facts
  imports Node_Control
begin

text \<open>
  The controller of a valid configuration: its construction, the well-formedness that every
  operation keeps, the outcomes of \<open>StartClient\<close> and \<open>StopClient\<close>, and what must have
  passed before a running process is touched.
\<close>

section \<open>Well-formed controllers\<close>

definition proc_ok :: "proc \<Rightarrow> bool" where
  "proc_ok p = (case p of
     ShellProc s \<Rightarrow> pr_StartCommand (sp_cfg s) \<noteq> [] \<and> pr_StopCommand (sp_cfg s) \<noteq> []
   | DockerProc d \<Rightarrow> True)"

definition nc_wf :: "'w NodeControl \<Rightarrow> bool" where
  "nc_wf n \<longleftrightarrow>
     nc_bcclntProcess n \<noteq> None \<and> pred_option proc_ok (nc_bcclntProcess n) \<and>
     (nc_withPrivMan n \<longleftrightarrow> nc_pmclntProcess n \<noteq> None) \<and> pred_option proc_ok (nc_pmclntProcess n) \<and>
     nc_consensus n \<noteq> None \<and> b_BlockchainClient (basic n) \<noteq> None \<and> mgr_Read (nc_nh n) \<noteq> None"

text \<open>Both processes are up according to their cached status.\<close>

definition procs_up :: "'w NodeControl \<Rightarrow> bool" where
  "procs_up n \<longleftrightarrow> pred_option Proc_Status (nc_bcclntProcess n) \<and> pred_option Proc_Status (nc_pmclntProcess n)"

definition procs_down :: "'w NodeControl \<Rightarrow> bool" where
  "procs_down n \<longleftrightarrow> pred_option (Not \<circ> Proc_Status) (nc_bcclntProcess n) \<and>
     pred_option (Not \<circ> Proc_Status) (nc_pmclntProcess n)"

section \<open>Operations on one process\<close>

lemma proc_ok_cfg: "proc_ok (ShellProc s) \<Longrightarrow> sp_cfg s' = sp_cfg s \<Longrightarrow> proc_ok (ShellProc s')"
  by (simp add: proc_ok_def)

lemma Proc_UpdateStatus_ok: "Proc_UpdateStatus env p w = ((s, p'), w') \<Longrightarrow> proc_ok p \<Longrightarrow> proc_ok p'"
  by (cases p) (auto simp: apfst_apsnd_eq proc_ok_def dest: shell.update_cfg)

lemma Proc_Start_ok: "Proc_Start env p w = ((r, p'), w') \<Longrightarrow> proc_ok p \<Longrightarrow> proc_ok p'"
  by (cases p) (auto simp: apfst_apsnd_eq proc_ok_def dest: shell.start_cfg)

lemma Proc_Stop_ok: "Proc_Stop env p w = ((r, p'), w') \<Longrightarrow> proc_ok p \<Longrightarrow> proc_ok p'"
  by (cases p) (auto simp: apfst_apsnd_eq proc_ok_def dest: shell.stop_cfg)

text \<open>
  What an operation that runs commands or asks the Docker daemon may come to: it returns, or it
  hangs and such a call did not come back.
\<close>

definition waits_only :: "'w env \<Rightarrow> 'a go \<Rightarrow> bool" where
  "waits_only env r \<longleftrightarrow> \<not> panics r \<and> (calls_return env \<longrightarrow> returns r)"

lemma waits_only_Ret [simp]: "waits_only env (Ret x)"
  by (simp add: waits_only_def)

lemma returns_waits: "returns r \<Longrightarrow> waits_only env r"
  by (cases r) simp_all

lemma waits_onlyE:
  assumes "waits_only env r"
  obtains (ret) x where "r = Ret x" | (hang) "r = Hang" and "\<not> calls_return env"
  using assms by (cases r) (auto simp: waits_only_def)

lemma Proc_Start_waits: "Proc_Start env p w = ((r, p'), w') \<Longrightarrow> proc_ok p \<Longrightarrow> waits_only env r"
  by (cases p)
    (auto simp: apfst_apsnd_eq proc_ok_def Shell_Start_def Docker_Start_def ExecuteShellCommand_def Let_def
      waits_only_def dest: calls_returnD split: if_splits prod.splits option.splits go.splits)

lemma Proc_Stop_waits: "Proc_Stop env p w = ((r, p'), w') \<Longrightarrow> proc_ok p \<Longrightarrow> waits_only env r"
  by (cases p)
    (auto simp: apfst_apsnd_eq proc_ok_def Shell_Stop_def Docker_Stop_def ExecuteShellCommand_def Let_def
      waits_only_def dest: calls_returnD split: if_splits prod.splits option.splits go.splits)

section \<open>Status checks\<close>

text \<open>
  Controllers that differ only in their processes. \<open>CheckClientUpStatus\<close> may also set the
  client status.
\<close>

definition same_but_procs :: "'w NodeControl \<Rightarrow> 'w NodeControl \<Rightarrow> bool" where
  "same_but_procs n n' \<longleftrightarrow>
     n' = n\<lparr>nc_bcclntProcess := nc_bcclntProcess n', nc_pmclntProcess := nc_pmclntProcess n'\<rparr>"

lemma same_but_procs_refl [simp]: "same_but_procs n n"
  by (simp add: same_but_procs_def)

lemma same_but_procs_trans [trans]: "same_but_procs n n1 \<Longrightarrow> same_but_procs n1 n2 \<Longrightarrow> same_but_procs n n2"
  unfolding same_but_procs_def by (metis (no_types, lifting) NodeControl.surjective NodeControl.update_convs(2,3))

lemma same_but_procs_fields:
  assumes "same_but_procs n n'"
  shows "nc_nh n' = nc_nh n" "nc_consensus n' = nc_consensus n" "nc_withPrivMan n' = nc_withPrivMan n"
    "nc_clientStatus n' = nc_clientStatus n" "nc_nodeStatus n' = nc_nodeStatus n"
  using assms unfolding same_but_procs_def by (metis NodeControl.select_convs NodeControl.surjective NodeControl.update_convs(2,3))+

lemma on_bc_wf:
  assumes "nc_wf n" and ok: "\<And>p r p' w'. f env p w = ((r, p'), w') \<Longrightarrow> proc_ok p \<Longrightarrow> proc_ok p'"
  obtains r p p' w' where "on_bc f env n w = (Ret (r, n\<lparr>nc_bcclntProcess := Some p'\<rparr>), w')"
    and "nc_bcclntProcess n = Some p" and "f env p w = ((r, p'), w')"
    and "nc_wf (n\<lparr>nc_bcclntProcess := Some p'\<rparr>)"
proof -
  from assms(1) obtain p where p: "nc_bcclntProcess n = Some p" "proc_ok p" by (auto simp: nc_wf_def)
  obtain r p' w' where f: "f env p w = ((r, p'), w')" by (metis prod.collapse)
  show thesis
    by (rule that [OF _ p(1) f]) (use p f ok [OF f p(2)] assms(1) in \<open>auto simp: on_bc_def nc_wf_def config_def\<close>)
qed

lemma on_pm_wf:
  assumes "nc_wf n" and "nc_pmclntProcess n \<noteq> None"
    and ok: "\<And>p r p' w'. f env p w = ((r, p'), w') \<Longrightarrow> proc_ok p \<Longrightarrow> proc_ok p'"
  obtains r p p' w' where "on_pm f env n w = (Ret (r, n\<lparr>nc_pmclntProcess := Some p'\<rparr>), w')"
    and "nc_pmclntProcess n = Some p" and "f env p w = ((r, p'), w')"
    and "nc_wf (n\<lparr>nc_pmclntProcess := Some p'\<rparr>)"
proof -
  from assms(1,2) obtain p where p: "nc_pmclntProcess n = Some p" "proc_ok p" by (auto simp: nc_wf_def)
  obtain r p' w' where f: "f env p w = ((r, p'), w')" by (metis prod.collapse)
  show thesis
    by (rule that [OF _ p(1) f]) (use p f ok [OF f p(2)] assms(1) in \<open>auto simp: on_pm_def nc_wf_def config_def\<close>)
qed


definition pm_status :: "'w NodeControl \<Rightarrow> bool" where
  "pm_status n = (case nc_pmclntProcess n of None \<Rightarrow> True | Some p \<Rightarrow> Proc_Status p)"

lemma nc_wf_pm: "nc_wf n \<Longrightarrow> nc_withPrivMan n \<longleftrightarrow> nc_pmclntProcess n \<noteq> None"
  by (simp add: nc_wf_def)

lemma fetch_returns:
  assumes "nc_wf n"
  obtains b p n' w' where "fetchCurrentClientStatuses env n w = (Ret ((b, p), n'), w')"
    and "nc_wf n'" and "same_but_procs n n'" and "b \<and> p \<longleftrightarrow> procs_up n'"
proof (cases "nc_withPrivMan n")
  case False
  with nc_wf_pm [OF assms] have none: "nc_pmclntProcess n = None" by simp
  obtain b q q' w' where
    b: "on_bc Proc_UpdateStatus env n w = (Ret (b, n\<lparr>nc_bcclntProcess := Some q'\<rparr>), w')"
       "nc_bcclntProcess n = Some q"
       "Proc_UpdateStatus env q w = ((b, q'), w')" "nc_wf (n\<lparr>nc_bcclntProcess := Some q'\<rparr>)"
    by (rule on_bc_wf [OF assms Proc_UpdateStatus_ok])
  from managed.update_caches [OF b(3)] False b none show thesis
    by (intro that [of b True "n\<lparr>nc_bcclntProcess := Some q'\<rparr>" w'])
       (simp_all add: fetchCurrentClientStatuses_def same_but_procs_def procs_up_def)
next
  case True
  with nc_wf_pm [OF assms] have some: "nc_pmclntProcess n \<noteq> None" by simp
  show thesis
  proof (cases "first_first env w")
    case first: True
    obtain b q q' w1 where
      b: "on_bc Proc_UpdateStatus env n w = (Ret (b, n\<lparr>nc_bcclntProcess := Some q'\<rparr>), w1)"
         "nc_bcclntProcess n = Some q"
         "Proc_UpdateStatus env q w = ((b, q'), w1)" "nc_wf (n\<lparr>nc_bcclntProcess := Some q'\<rparr>)"
      by (rule on_bc_wf [OF assms Proc_UpdateStatus_ok])
    have some': "nc_pmclntProcess (n\<lparr>nc_bcclntProcess := Some q'\<rparr>) \<noteq> None" using some by simp
    obtain p r r' w2 where
      p: "on_pm Proc_UpdateStatus env (n\<lparr>nc_bcclntProcess := Some q'\<rparr>) w1 =
            (Ret (p, n\<lparr>nc_bcclntProcess := Some q', nc_pmclntProcess := Some r'\<rparr>), w2)"
         "nc_pmclntProcess (n\<lparr>nc_bcclntProcess := Some q'\<rparr>) = Some r"
         "Proc_UpdateStatus env r w1 = ((p, r'), w2)"
         "nc_wf (n\<lparr>nc_bcclntProcess := Some q', nc_pmclntProcess := Some r'\<rparr>)"
      by (rule on_pm_wf [OF b(4) some' Proc_UpdateStatus_ok])
    from managed.update_caches [OF b(3)] managed.update_caches [OF p(3)] True first b p show thesis
      by (intro that [of b p "n\<lparr>nc_bcclntProcess := Some q', nc_pmclntProcess := Some r'\<rparr>" w2])
         (simp_all add: fetchCurrentClientStatuses_def same_but_procs_def procs_up_def)
  next
    case second: False
    obtain p r r' w1 where
      p: "on_pm Proc_UpdateStatus env n w = (Ret (p, n\<lparr>nc_pmclntProcess := Some r'\<rparr>), w1)"
         "nc_pmclntProcess n = Some r"
         "Proc_UpdateStatus env r w = ((p, r'), w1)" "nc_wf (n\<lparr>nc_pmclntProcess := Some r'\<rparr>)"
      by (rule on_pm_wf [OF assms some Proc_UpdateStatus_ok])
    obtain b q q' w2 where
      b: "on_bc Proc_UpdateStatus env (n\<lparr>nc_pmclntProcess := Some r'\<rparr>) w1 =
            (Ret (b, n\<lparr>nc_pmclntProcess := Some r', nc_bcclntProcess := Some q'\<rparr>), w2)"
         "nc_bcclntProcess (n\<lparr>nc_pmclntProcess := Some r'\<rparr>) = Some q"
         "Proc_UpdateStatus env q w1 = ((b, q'), w2)"
         "nc_wf (n\<lparr>nc_pmclntProcess := Some r', nc_bcclntProcess := Some q'\<rparr>)"
      by (rule on_bc_wf [OF p(4) Proc_UpdateStatus_ok])
    from managed.update_caches [OF b(3)] managed.update_caches [OF p(3)] True second b p show thesis
      by (intro that [of b p "n\<lparr>nc_pmclntProcess := Some r', nc_bcclntProcess := Some q'\<rparr>" w2])
         (simp_all add: fetchCurrentClientStatuses_def same_but_procs_def procs_up_def)
  qed
qed

lemma nc_wf_SetClntStatus [simp]: "nc_wf (SetClntStatus s n) \<longleftrightarrow> nc_wf n"
  and nc_wf_SetNodeStatus [simp]: "nc_wf (SetNodeStatus t n) \<longleftrightarrow> nc_wf n"
  by (simp_all add: nc_wf_def SetClntStatus_def SetNodeStatus_def config_def)

lemma nc_nh_SetStatus [simp]: "nc_nh (SetClntStatus s n) = nc_nh n" "nc_nh (SetNodeStatus t n) = nc_nh n"
  by (simp_all add: SetClntStatus_def SetNodeStatus_def)

lemma procs_SetStatus [simp]:
  "procs_up (SetClntStatus s n) \<longleftrightarrow> procs_up n" "procs_up (SetNodeStatus t n) \<longleftrightarrow> procs_up n"
  "procs_down (SetClntStatus s n) \<longleftrightarrow> procs_down n" "procs_down (SetNodeStatus t n) \<longleftrightarrow> procs_down n"
  by (simp_all add: procs_up_def procs_down_def SetClntStatus_def SetNodeStatus_def)

text \<open>
  The up check always answers. It keeps the controller well formed and its node status; if it
  asked the processes, the client status and the cached ones say what it answers.
\<close>

lemma CheckClientUpStatus_returns:
  assumes "nc_wf n"
  obtains up n' w' where "CheckClientUpStatus env force n w = (Ret (up, n'), w')" and "nc_wf n'"
    and "nc_nodeStatus n' = nc_nodeStatus n" and "nc_nh n' = nc_nh n" and "nc_consensus n' = nc_consensus n"
    and "up \<longleftrightarrow> IsClientUp n'" and "IsClientUp n \<or> force \<Longrightarrow> up \<longleftrightarrow> procs_up n'"
    and "\<not> IsClientUp n \<Longrightarrow> \<not> force \<Longrightarrow> n' = n \<and> w' = w"
proof (cases "\<not> IsClientUp n \<and> \<not> force")
  case True
  with assms show thesis by (intro that [of False n w]) (auto simp: CheckClientUpStatus_def)
next
  case False
  from fetch_returns [OF assms] obtain b p n1 w1 where
    f: "fetchCurrentClientStatuses env n w = (Ret ((b, p), n1), w1)" "nc_wf n1" "same_but_procs n n1"
       "b \<and> p \<longleftrightarrow> procs_up n1" .
  let ?n = "SetClntStatus (if b \<and> p then Up else Down) n1"
  show thesis
    by (rule that [of "b \<and> p" ?n w1])
       (use False f same_but_procs_fields [OF f(3)] in
        \<open>auto simp: CheckClientUpStatus_def Let_def SetClntStatus_def [of _ n1] IsClientUp_def f(1)
           procs_up_def nc_wf_def config_def\<close>)
qed

section \<open>Starting and stopping\<close>

text \<open>
  An operation on a process that returns unless a call hangs, and leaves the status \<open>s\<close> when it
  reports no error.
\<close>

definition sets_status :: "('w env \<Rightarrow> proc \<Rightarrow> 'w \<Rightarrow> (err option go \<times> proc) \<times> 'w) \<Rightarrow> bool \<Rightarrow> bool" where
  "sets_status f s \<longleftrightarrow> (\<forall>env p w r p' w'. f env p w = ((r, p'), w') \<longrightarrow> proc_ok p \<longrightarrow>
     waits_only env r \<and> proc_ok p' \<and> (r = Ret None \<longrightarrow> Proc_Status p' = s))"

lemma Proc_Start_sets: "sets_status Proc_Start True"
  unfolding sets_status_def using Proc_Start_waits Proc_Start_ok managed.start_up by metis

lemma Proc_Stop_sets: "sets_status Proc_Stop False"
  unfolding sets_status_def using Proc_Stop_waits Proc_Stop_ok managed.stop_down by metis

lemma lifted_bc:
  assumes "nc_wf n" and "sets_status f s"
  obtains (ret) e p' w' where "lift_proc (on_bc f env n w) = (Ret (e, n\<lparr>nc_bcclntProcess := Some p'\<rparr>), w')"
      and "nc_wf (n\<lparr>nc_bcclntProcess := Some p'\<rparr>)" and "e = None \<longrightarrow> Proc_Status p' = s"
  | (hang) w' where "lift_proc (on_bc f env n w) = (Hang, w')" and "\<not> calls_return env"
proof -
  from assms(1) obtain p where p: "nc_bcclntProcess n = Some p" "proc_ok p" by (auto simp: nc_wf_def)
  obtain r p' w' where f: "f env p w = ((r, p'), w')" by (metis prod.collapse)
  from assms(2) f p(2) have r: "waits_only env r" "proc_ok p'" "r = Ret None \<longrightarrow> Proc_Status p' = s"
    unfolding sets_status_def by blast+
  from r(1) show thesis
  proof (cases rule: waits_onlyE)
    case (ret e)
    show thesis by (rule that(1) [of e p' w'])
      (use p f r ret assms(1) in \<open>auto simp: lift_proc_def on_bc_def nc_wf_def config_def\<close>)
  next
    case hang
    show thesis by (rule that(2) [OF _ hang(2)]) (use p f hang(1) in \<open>simp add: lift_proc_def on_bc_def\<close>)
  qed
qed

lemma lifted_pm:
  assumes "nc_wf n" and "nc_pmclntProcess n \<noteq> None" and "sets_status f s"
  obtains (ret) e p' w' where "lift_proc (on_pm f env n w) = (Ret (e, n\<lparr>nc_pmclntProcess := Some p'\<rparr>), w')"
      and "nc_wf (n\<lparr>nc_pmclntProcess := Some p'\<rparr>)" and "e = None \<longrightarrow> Proc_Status p' = s"
  | (hang) w' where "lift_proc (on_pm f env n w) = (Hang, w')" and "\<not> calls_return env"
proof -
  from assms(1,2) obtain p where p: "nc_pmclntProcess n = Some p" "proc_ok p" by (auto simp: nc_wf_def)
  obtain r p' w' where f: "f env p w = ((r, p'), w')" by (metis prod.collapse)
  from assms(3) f p(2) have r: "waits_only env r" "proc_ok p'" "r = Ret None \<longrightarrow> Proc_Status p' = s"
    unfolding sets_status_def by blast+
  from r(1) show thesis
  proof (cases rule: waits_onlyE)
    case (ret e)
    show thesis by (rule that(1) [of e p' w'])
      (use p f r ret assms(1) in \<open>auto simp: lift_proc_def on_pm_def nc_wf_def config_def\<close>)
  next
    case hang
    show thesis by (rule that(2) [OF _ hang(2)]) (use p f hang(1) in \<open>simp add: lift_proc_def on_pm_def\<close>)
  qed
qed

text \<open>Two steps in a row, each of which returns or waits for a call.\<close>

lemma waits_only_bind:
  assumes "waits_only env (fst m)" and "\<And>x w. m = (Ret x, w) \<Longrightarrow> waits_only env (fst (f x w))"
  shows "waits_only env (fst (io_bind m f))"
  using assms by (cases m; cases "fst m") (auto simp: waits_only_def)

lemma lifted_bc_waits: "nc_wf n \<Longrightarrow> sets_status f s \<Longrightarrow> waits_only env (fst (lift_proc (on_bc f env n w)))"
  by (erule (1) lifted_bc [of n f s env w]) (simp_all add: waits_only_def)

lemma lifted_pm_waits:
  "nc_wf n \<Longrightarrow> nc_pmclntProcess n \<noteq> None \<Longrightarrow> sets_status f s \<Longrightarrow>
     waits_only env (fst (lift_proc (on_pm f env n w)))"
  by (erule (2) lifted_pm [of n f s env w]) (simp_all add: waits_only_def)

lemma lifted_bc_Ret:
  assumes "lift_proc (on_bc f env n w) = (Ret (e, n'), w')" and "nc_wf n" and "sets_status f s"
  obtains q where "n' = n\<lparr>nc_bcclntProcess := Some q\<rparr>" and "nc_wf n'" and "e = None \<longrightarrow> Proc_Status q = s"
  using assms(2,3) by (rule lifted_bc [of n f s env w]) (use assms(1) that in auto)

lemma lifted_pm_Ret:
  assumes "lift_proc (on_pm f env n w) = (Ret (e, n'), w')" and "nc_wf n" and "nc_pmclntProcess n \<noteq> None"
    and "sets_status f s"
  obtains q where "n' = n\<lparr>nc_pmclntProcess := Some q\<rparr>" and "nc_wf n'" and "e = None \<longrightarrow> Proc_Status q = s"
  using assms(2,3,4) by (rule lifted_pm [of n f s env w]) (use assms(1) that in auto)

lemma stopProcesses_waits:
  assumes wf: "nc_wf n"
  shows "waits_only env (fst (stopProcesses env n w))"
proof -
  have "waits_only env (fst (lift_proc (on_pm Proc_Stop env n1 w1)))"
    if "lift_proc (on_bc Proc_Stop env n w) = (Ret (e, n1), w1)" "nc_pmclntProcess n \<noteq> None" for e n1 w1
    using lifted_bc_Ret [OF that(1) wf Proc_Stop_sets] that(2)
    by (metis NodeControl.select_convs(3) NodeControl.surjective NodeControl.update_convs(2) lifted_pm_waits Proc_Stop_sets)
  moreover have "waits_only env (fst (lift_proc (on_bc Proc_Stop env n1 w1)))"
    if "lift_proc (on_pm Proc_Stop env n w) = (Ret (e, n1), w1)" "nc_pmclntProcess n \<noteq> None" for e n1 w1
    using lifted_pm_Ret [OF that(1) wf that(2) Proc_Stop_sets] by (metis lifted_bc_waits Proc_Stop_sets)
  ultimately have then_pm: "nc_pmclntProcess n \<noteq> None \<Longrightarrow> lift_proc (on_bc Proc_Stop env n w) = (Ret x, v) \<Longrightarrow>
      waits_only env (fst (lift_proc (on_pm Proc_Stop env (snd x) v)))"
    and then_bc: "nc_pmclntProcess n \<noteq> None \<Longrightarrow> lift_proc (on_pm Proc_Stop env n w) = (Ret x, v) \<Longrightarrow>
      waits_only env (fst (lift_proc (on_bc Proc_Stop env (snd x) v)))" for x v
    by (metis prod.collapse)+
  have bc: "waits_only env (fst (lift_proc (on_bc Proc_Stop env n w)))"
    by (rule lifted_bc_waits [OF wf Proc_Stop_sets])
  show ?thesis
  proof (cases "nc_pmclntProcess n = None")
    case True
    with bc show ?thesis by (auto simp: stopProcesses_def intro!: waits_only_bind)
  next
    case False
    have pm: "waits_only env (fst (lift_proc (on_pm Proc_Stop env n w)))"
      by (rule lifted_pm_waits [OF wf False Proc_Stop_sets])
    show ?thesis unfolding stopProcesses_def case_prod_unfold
      using False bc pm then_pm [OF False] then_bc [OF False]
      by (cases "first_first env w") (simp_all add: waits_only_bind)
  qed
qed

lemma stopProcesses_Ret:
  assumes "stopProcesses env n w = (Ret ((b, p), n'), w')" and wf: "nc_wf n"
  shows "nc_wf n' \<and> same_but_procs n n' \<and> (b \<and> p \<longrightarrow> procs_down n')"
proof (cases "nc_pmclntProcess n = None")
  case True
  with assms(1) obtain e where b: "lift_proc (on_bc Proc_Stop env n w) = (Ret (e, n'), w')" "b \<longleftrightarrow> e = None"
    by (auto simp: stopProcesses_def io_bind_eq_Ret)
  obtain q where "n' = n\<lparr>nc_bcclntProcess := Some q\<rparr>" "nc_wf n'" "e = None \<longrightarrow> Proc_Status q = False"
    by (rule lifted_bc_Ret [OF b(1) wf Proc_Stop_sets])
  with b(2) True show ?thesis by (simp add: same_but_procs_def procs_down_def)
next
  case some: False
  show ?thesis
  proof (cases "first_first env w")
    case True
    with some assms(1) obtain e n1 w1 e' where
      b: "lift_proc (on_bc Proc_Stop env n w) = (Ret (e, n1), w1)" and
      p: "lift_proc (on_pm Proc_Stop env n1 w1) = (Ret (e', n'), w')" and bp: "b \<longleftrightarrow> e = None" "p \<longleftrightarrow> e' = None"
      by (auto simp: stopProcesses_def io_bind_eq_Ret)
    obtain q where q: "n1 = n\<lparr>nc_bcclntProcess := Some q\<rparr>" "nc_wf n1" "e = None \<longrightarrow> Proc_Status q = False"
      by (rule lifted_bc_Ret [OF b wf Proc_Stop_sets])
    have "nc_pmclntProcess n1 \<noteq> None" using some q(1) by simp
    then obtain r where "n' = n1\<lparr>nc_pmclntProcess := Some r\<rparr>" "nc_wf n'" "e' = None \<longrightarrow> Proc_Status r = False"
      by (rule lifted_pm_Ret [OF p q(2) _ Proc_Stop_sets])
    with q bp show ?thesis by (simp add: same_but_procs_def procs_down_def)
  next
    case False
    with some assms(1) obtain e n1 w1 e' where
      p: "lift_proc (on_pm Proc_Stop env n w) = (Ret (e, n1), w1)" and
      b: "lift_proc (on_bc Proc_Stop env n1 w1) = (Ret (e', n'), w')" and bp: "b \<longleftrightarrow> e' = None" "p \<longleftrightarrow> e = None"
      by (auto simp: stopProcesses_def io_bind_eq_Ret)
    obtain r where r: "n1 = n\<lparr>nc_pmclntProcess := Some r\<rparr>" "nc_wf n1" "e = None \<longrightarrow> Proc_Status r = False"
      by (rule lifted_pm_Ret [OF p wf some Proc_Stop_sets])
    obtain q where "n' = n1\<lparr>nc_bcclntProcess := Some q\<rparr>" "nc_wf n'" "e' = None \<longrightarrow> Proc_Status q = False"
      by (rule lifted_bc_Ret [OF b r(2) Proc_Stop_sets])
    with r bp show ?thesis by (simp add: same_but_procs_def procs_down_def)
  qed
qed

subsection \<open>\<open>StartClient\<close>\<close>

text \<open>
  Starting never panics, and returns unless a call hangs. On success the client counts as up; if
  it was not known to be up its processes are up, and the node status is unchanged or available.
  On failure the node status stays \<open>StartupInprogress\<close>.
\<close>

definition start_outcome :: "'w NodeControl \<Rightarrow> bool \<Rightarrow> 'w NodeControl \<Rightarrow> bool" where
  "start_outcome n up n' \<longleftrightarrow>
     (if up then IsClientUp n' \<and> (IsClientUp n \<longrightarrow> n' = n) \<and> (\<not> IsClientUp n \<longrightarrow> procs_up n') \<and>
        nc_nodeStatus n' \<in> {nc_nodeStatus n, OK}
      else \<not> IsClientUp n \<and> \<not> IsClientUp n' \<and> nc_nodeStatus n' = StartupInprogress)"

text \<open>\<open>StartClient\<close> on a node whose up check has failed, after the privacy manager.\<close>

definition start_pm :: "'w env \<Rightarrow> 'w NodeControl \<Rightarrow> 'w \<Rightarrow> (err option \<times> 'w NodeControl) go \<times> 'w" where
  "start_pm env n w = (if nc_withPrivMan n then lift_proc (on_pm Proc_Start env n w) else (Ret (None, n), w))"

lemma StartClient_down:
  assumes "\<not> IsClientUp n" and "CheckClientUpStatus env True n w = (Ret (False, n1), w1)"
  shows "StartClient env n w =
    io_bind (start_pm env (SetNodeStatus StartupInprogress n1) w1) (\<lambda>(pe, n3) w3.
      io_bind (lift_proc (on_bc Proc_Start env n3 w3)) (\<lambda>(be, n4) w4.
        if pe = None \<and> be = None then (Ret (True, SetNodeStatus OK (SetClntStatus Up n4)), w4)
        else (Ret (False, n4), w4)))"
  using assms by (simp add: StartClient_def start_pm_def Let_def del: StartupInprogress_def)

lemma start_pm_waits: "nc_wf n \<Longrightarrow> waits_only env (fst (start_pm env n w))"
  by (auto simp: start_pm_def nc_wf_pm intro!: lifted_pm_waits Proc_Start_sets)

lemma start_pm_Ret:
  assumes "start_pm env n w = (Ret (pe, n'), w')" and "nc_wf n"
  shows "nc_wf n' \<and> same_but_procs n n' \<and> (pe = None \<longrightarrow> pred_option Proc_Status (nc_pmclntProcess n'))"
proof (cases "nc_withPrivMan n")
  case True
  with assms(1) have l: "lift_proc (on_pm Proc_Start env n w) = (Ret (pe, n'), w')" by (simp add: start_pm_def)
  from True nc_wf_pm [OF assms(2)] have "nc_pmclntProcess n \<noteq> None" by simp
  then obtain q where "n' = n\<lparr>nc_pmclntProcess := Some q\<rparr>" "nc_wf n'" "pe = None \<longrightarrow> Proc_Status q = True"
    by (rule lifted_pm_Ret [OF l assms(2) _ Proc_Start_sets])
  then show ?thesis by (simp add: same_but_procs_def)
next
  case False
  with assms nc_wf_pm [OF assms(2)] show ?thesis by (simp add: start_pm_def)
qed

lemma StartClient_waits:
  assumes wf: "nc_wf n"
  shows "waits_only env (fst (StartClient env n w))"
proof (cases "IsClientUp n")
  case True
  then show ?thesis by (simp add: StartClient_def)
next
  case down: False
  obtain c n1 w1 where c: "CheckClientUpStatus env True n w = (Ret (c, n1), w1)" "nc_wf n1"
    by (rule CheckClientUpStatus_returns [OF wf])
  show ?thesis
  proof (cases c)
    case True
    with down c show ?thesis by (simp add: StartClient_def)
  next
    case False
    with c have "CheckClientUpStatus env True n w = (Ret (False, n1), w1)" by simp
    note start = StartClient_down [OF down this]
    have wf1: "nc_wf (SetNodeStatus StartupInprogress n1)" using c(2) by simp
    show ?thesis unfolding start
    proof (rule waits_only_bind [OF start_pm_waits [OF wf1]])
      fix x v assume s: "start_pm env (SetNodeStatus StartupInprogress n1) w1 = (Ret x, v)"
      obtain pe n3 where x: "x = (pe, n3)" by fastforce
      with start_pm_Ret [OF _ wf1, of env w1 pe n3 v] s have "nc_wf n3" by simp
      then show "waits_only env (fst ((\<lambda>(pe, n3) w3. io_bind (lift_proc (on_bc Proc_Start env n3 w3))
          (\<lambda>(be, n4) w4. if pe = None \<and> be = None then (Ret (True, SetNodeStatus OK (SetClntStatus Up n4)), w4)
            else (Ret (False, n4), w4))) x v))"
        by (auto simp: x intro!: waits_only_bind lifted_bc_waits Proc_Start_sets)
    qed
  qed
qed

text \<open>A start that asks the processes: the up check finds them up, or both are started.\<close>

lemma StartClient_started:
  assumes "StartClient env n w = (Ret (up, n'), w')" and down: "\<not> IsClientUp n"
    and c: "CheckClientUpStatus env True n w = (Ret (False, n1), w1)" and n1: "nc_wf n1" "\<not> IsClientUp n1"
  shows "nc_wf n' \<and> nc_nh n' = nc_nh n1 \<and> (up \<longrightarrow> procs_up n') \<and> IsClientUp n' = up \<and>
    nc_nodeStatus n' = (if up then OK else StartupInprogress)"
proof -
  let ?n2 = "SetNodeStatus StartupInprogress n1"
  from assms(1) [unfolded StartClient_down [OF down c]] obtain pe n3 w3 be n4 where
    p: "start_pm env ?n2 w1 = (Ret (pe, n3), w3)" and
    b: "lift_proc (on_bc Proc_Start env n3 w3) = (Ret (be, n4), w')" and
    r: "up \<longleftrightarrow> pe = None \<and> be = None" "n' = (if up then SetNodeStatus OK (SetClntStatus Up n4) else n4)"
    by (auto simp: io_bind_eq_Ret simp del: StartupInprogress_def split: if_split_asm)
  have wf2: "nc_wf ?n2" using n1 by simp
  from start_pm_Ret [OF p wf2] have p3: "nc_wf n3" "same_but_procs ?n2 n3"
    "pe = None \<longrightarrow> pred_option Proc_Status (nc_pmclntProcess n3)" by simp_all
  obtain q where q: "n4 = n3\<lparr>nc_bcclntProcess := Some q\<rparr>" "nc_wf n4" "be = None \<longrightarrow> Proc_Status q = True"
    by (rule lifted_bc_Ret [OF b p3(1) Proc_Start_sets])
  have "nc_nodeStatus n4 = StartupInprogress" "nc_clientStatus n4 = nc_clientStatus n1" "nc_nh n4 = nc_nh n1"
    using same_but_procs_fields [OF p3(2)] q(1) by (simp_all add: SetNodeStatus_def)
  with q p3(3) r n1(2) show ?thesis
    by (auto simp: IsClientUp_def SetNodeStatus_def SetClntStatus_def procs_up_def nc_wf_def config_def)
qed

lemma StartClient_Ret:
  assumes "StartClient env n w = (Ret (up, n'), w')" and wf: "nc_wf n"
  shows "nc_wf n' \<and> start_outcome n up n' \<and> nc_nh n' = nc_nh n"
proof (cases "IsClientUp n")
  case True
  with assms show ?thesis by (auto simp: StartClient_def start_outcome_def)
next
  case down: False
  obtain c n1 w1 where c: "CheckClientUpStatus env True n w = (Ret (c, n1), w1)" "nc_wf n1"
    "nc_nodeStatus n1 = nc_nodeStatus n" "nc_nh n1 = nc_nh n" "c \<longleftrightarrow> IsClientUp n1" "c \<longleftrightarrow> procs_up n1"
    by (rule CheckClientUpStatus_returns [OF wf, of env True w]) auto
  show ?thesis
  proof (cases c)
    case True
    with assms(1) down c show ?thesis by (auto simp: StartClient_def start_outcome_def)
  next
    case False
    with c have "CheckClientUpStatus env True n w = (Ret (False, n1), w1)" "\<not> IsClientUp n1" by simp_all
    with StartClient_started [OF assms(1) down _ c(2)] c(4) down show ?thesis
      by (auto simp: start_outcome_def)
  qed
qed

subsection \<open>\<open>StopClient\<close>\<close>

lemma readPeersConfig_keeps:
  assumes "readPeersConfig env pm w = (Ret (ps, pm'), w')"
  shows "mgr_Read pm' = mgr_Read pm \<and> nd_BasicConfig (mgr_cfg pm') = nd_BasicConfig (mgr_cfg pm)"
proof -
  from assms obtain rd where rd: "mgr_Read pm = Some rd"
    by (auto simp: readPeersConfig_def split: option.split_asm)
  obtain r w1 where r: "rd w = (r, w1)" by fastforce
  show ?thesis
  proof (cases r)
    case (Inl e)
    with assms rd r show ?thesis by (simp add: readPeersConfig_def)
  next
    case (Inr raw)
    with assms rd r obtain v :: "cfg_err + Peer list" where "(case v of Inl e \<Rightarrow> (nd_Peers (mgr_cfg pm), pm)
        | Inr ps \<Rightarrow> (ps, pm\<lparr>mgr_cfg := (mgr_cfg pm)\<lparr>nd_Peers := ps\<rparr>\<rparr>)) = (ps, pm')"
      by (simp add: readPeersConfig_def go_bind_eq_Ret) blast
    then show ?thesis by (auto split: sum.split_asm)
  qed
qed

lemma peerStatus_keeps:
  "peerStatus env pm w = (Ret (r, pm'), w') \<Longrightarrow>
     mgr_Read pm' = mgr_Read pm \<and> nd_BasicConfig (mgr_cfg pm') = nd_BasicConfig (mgr_cfg pm)"
  by (auto simp: peerStatus_def io_bind_eq_Ret go_bind_eq_Ret Let_def split: if_splits prod.splits
      dest: readPeersConfig_keeps)

lemma ValidatePeers_keeps:
  "ValidatePeers env pm w = (Ret (r, pm'), w') \<Longrightarrow>
     mgr_Read pm' = mgr_Read pm \<and> nd_BasicConfig (mgr_cfg pm') = nd_BasicConfig (mgr_cfg pm)"
  by (auto simp: ValidatePeers_def io_bind_eq_Ret split: prod.splits dest: peerStatus_keeps)

lemma call_consensus_consValid [simp]:
  "call_consensus env (n\<lparr>nc_consValid := v\<rparr>) w = call_consensus env n w"
  by (simp add: call_consensus_def config_def split: option.split)

lemma consValid_same: "\<exists>v. n = n\<lparr>nc_consValid := v\<rparr>"
  by (rule exI [of _ "nc_consValid n"]) simp

text \<open>
  The world in which a run of \<open>checkAndValidateConsensus\<close> from \<open>w\<close> asks the client for its
  verdict: after the check of the consensus configuration, when that has not been done before.
\<close>

definition consensus_world :: "'w env \<Rightarrow> 'w NodeControl \<Rightarrow> 'w \<Rightarrow> 'w" where
  "consensus_world env n w =
     (if \<not> nc_consValid n \<and> Basic_IsGoQuorumClient (basic n) = Ret True
      then snd (IsConsensusValid env (nc_pmclntHttpClient n) (config n) w) else w)"

lemma checkAndValidateConsensus_Ret:
  assumes "checkAndValidateConsensus env n w = (Ret ((m, e), n1), w1)"
  shows "\<exists>v. n1 = n\<lparr>nc_consValid := v\<rparr>"
    and "e = None \<Longrightarrow> call_consensus env n (consensus_world env n w) = (Ret (m, None), w1)"
proof -
  show "\<exists>v. n1 = n\<lparr>nc_consValid := v\<rparr>"
    using assms by (auto simp: checkAndValidateConsensus_def io_bind_eq_Ret Let_def
        intro: consValid_same split: go.splits option.splits if_splits)
  show "call_consensus env n (consensus_world env n w) = (Ret (m, None), w1)" if "e = None"
    using assms that by (auto simp: checkAndValidateConsensus_def consensus_world_def io_bind_eq_Ret Let_def
        split: go.splits option.splits if_splits)
qed

text \<open>
  What has passed when the checks of a run from the world \<open>w\<close> give way: each call in the world
  that the one before it has left.
\<close>

definition shutdown_allowed :: "'w env \<Rightarrow> 'w NodeControl \<Rightarrow> 'w \<Rightarrow> bool" where
  "shutdown_allowed env n w \<longleftrightarrow>
     (\<exists>m n1 w1 ms w2 arr pm w3.
        checkAndValidateConsensus env n w = (Ret ((m, None), n1), w1) \<and>
        (m \<longrightarrow> b_DisableStrictMode (basic n)) \<and>
        RandomInt env 10 5000 w1 = (Ret ms, w2) \<and>
        ValidatePeers env (nc_nh n) (sleep env (ms * Millisecond) w2) = (Ret ((arr, None), pm), w3))"

lemma stop_checks_Ret:
  assumes "stop_checks env n w = (Ret (go_ahead, n1), w1)" and "nc_wf n"
  shows "nc_wf n1 \<and> nc_bcclntProcess n1 = nc_bcclntProcess n \<and> nc_pmclntProcess n1 = nc_pmclntProcess n \<and>
    nc_clientStatus n1 = nc_clientStatus n \<and> nc_consensus n1 = nc_consensus n \<and> basic n1 = basic n"
    and "if go_ahead then nc_nodeStatus n1 = ShutdownInprogress \<and> shutdown_allowed env n w
         else nc_nodeStatus n1 \<in> {nc_nodeStatus n, OK}"
proof -
  from assms(1) obtain m e n0 w0 where
    c: "checkAndValidateConsensus env n w = (Ret ((m, e), n0), w0)" and
    r: "(case e of
         Some e \<Rightarrow> (Ret (False, SetNodeStatus OK n0), w0)
       | None \<Rightarrow>
           if m \<and> \<not> b_DisableStrictMode (basic n0) then (Ret (False, n0), w0)
           else
             io_bind (RandomInt env 10 5000 w0) (\<lambda>ms w2.
               (let w3 = sleep env (ms * Millisecond) w2;
                    n2 = SetNodeStatus ShutdownInprogress n0
                in io_bind (ValidatePeers env (nc_nh n2) w3) (\<lambda>((peersStatus, perr), pm) w4.
                     (let n3 = n2\<lparr>nc_nh := pm\<rparr> in
                      case perr of
                        Some e \<Rightarrow> (Ret (False, SetNodeStatus OK n3), w4)
                      | None \<Rightarrow> (Ret (True, n3), w4)))))) = (Ret (go_ahead, n1), w1)"
    by (auto simp: stop_checks_def io_bind_eq_Ret)
  from checkAndValidateConsensus_Ret(1) [OF c] obtain v where n0: "n0 = n\<lparr>nc_consValid := v\<rparr>" by blast
  have "(nc_wf n1 \<and> nc_bcclntProcess n1 = nc_bcclntProcess n \<and> nc_pmclntProcess n1 = nc_pmclntProcess n \<and>
      nc_clientStatus n1 = nc_clientStatus n \<and> nc_consensus n1 = nc_consensus n \<and> basic n1 = basic n) \<and>
     (if go_ahead then nc_nodeStatus n1 = ShutdownInprogress \<and> shutdown_allowed env n w
         else nc_nodeStatus n1 \<in> {nc_nodeStatus n, OK})"
  proof (cases "e \<noteq> None \<or> m \<and> \<not> b_DisableStrictMode (basic n0)")
    case True
    with r assms(2) show ?thesis
      by (auto simp: n0 nc_wf_def config_def SetNodeStatus_def split: option.splits if_splits)
  next
    case False
    then have e: "e = None" and strict: "m \<longrightarrow> b_DisableStrictMode (basic n)" by (auto simp: n0 config_def)
    from False r obtain ms w2 where ms: "RandomInt env 10 5000 w0 = (Ret ms, w2)" and
      "io_bind (ValidatePeers env (nc_nh n) (sleep env (ms * Millisecond) w2)) (\<lambda>((peersStatus, perr), pm) w4.
         (let n3 = SetNodeStatus ShutdownInprogress n0\<lparr>nc_nh := pm\<rparr> in
          case perr of
            Some e \<Rightarrow> (Ret (False, SetNodeStatus OK n3), w4)
          | None \<Rightarrow> (Ret (True, n3), w4))) = (Ret (go_ahead, n1), w1)"
      by (simp add: e io_bind_eq_Ret [of "RandomInt env 10 5000 w0"] Let_def n0 split: if_split_asm) blast+
    then obtain arr perr pm w4 where
      v: "ValidatePeers env (nc_nh n) (sleep env (ms * Millisecond) w2) = (Ret ((arr, perr), pm), w4)" and
      res: "(case perr of
             Some e \<Rightarrow> (Ret (False, SetNodeStatus OK (SetNodeStatus ShutdownInprogress n0\<lparr>nc_nh := pm\<rparr>)), w4)
           | None \<Rightarrow> (Ret (True, SetNodeStatus ShutdownInprogress n0\<lparr>nc_nh := pm\<rparr>), w4)) = (Ret (go_ahead, n1), w1)"
      unfolding io_bind_eq_Ret Let_def by force
    from c strict ms v have allowed: "perr = None \<Longrightarrow> shutdown_allowed env n w"
      unfolding shutdown_allowed_def e by blast
    from res ValidatePeers_keeps [OF v] assms(2) allowed show ?thesis
      by (cases perr) (auto simp: n0 nc_wf_def config_def SetNodeStatus_def)
  qed
  then show "nc_wf n1 \<and> nc_bcclntProcess n1 = nc_bcclntProcess n \<and> nc_pmclntProcess n1 = nc_pmclntProcess n \<and>
      nc_clientStatus n1 = nc_clientStatus n \<and> nc_consensus n1 = nc_consensus n \<and> basic n1 = basic n"
    and "if go_ahead then nc_nodeStatus n1 = ShutdownInprogress \<and> shutdown_allowed env n w
         else nc_nodeStatus n1 \<in> {nc_nodeStatus n, OK}" by blast+
qed

lemma stop_checks_wf: "stop_checks env n w = (Ret (g, n1), w1) \<Longrightarrow> nc_wf n \<Longrightarrow> nc_wf n1"
  by (rule stop_checks_Ret(1) [THEN conjunct1])

lemma StopClient_cases:
  assumes "StopClient env n w = (Ret (b, n'), w')" and "IsClientUp n" and wf: "nc_wf n"
  obtains (busy) "IsNodeBusy n \<noteq> None" and "\<not> b" and "n' = n"
  | (refused) "IsNodeBusy n = None" and "stop_checks env n w = (Ret (False, n'), w')" and "\<not> b"
  | (stopped) n1 w1 n2 w2 where "IsNodeBusy n = None" and "stop_checks env n w = (Ret (True, n1), w1)"
      and "stopProcesses env n1 w1 = (Ret ((True, True), n2), w2)" and "b"
      and "n' = SetNodeStatus OK (SetNodeStatus ConsensusWait (SetClntStatus Down n2))"
  | (failed) n1 w1 p q where "IsNodeBusy n = None" and "stop_checks env n w = (Ret (True, n1), w1)"
      and "stopProcesses env n1 w1 = (Ret ((p, q), n'), w')" and "\<not> (p \<and> q)" and "\<not> b"
proof (cases "IsNodeBusy n = None")
  case False
  with assms(1,2) have "\<not> b" "n' = n" by (simp_all add: StopClient_def)
  with False show thesis by (rule busy)
next
  case idle: True
  let ?k = "\<lambda>(go_ahead, n1) w1.
      if \<not> go_ahead then (Ret (False, n1), w1)
      else
        io_bind (stopProcesses env n1 w1) (\<lambda>((bcStatus, pmStatus), n2) w2.
          if bcStatus \<and> pmStatus then
            (let n3 = SetNodeStatus ConsensusWait (SetClntStatus Down n2);
                 w3 = sleep env (CONSENSUS_WAIT_TIME * Second) w2
             in (Ret (True, SetNodeStatus OK n3), w3))
          else (Ret (False, n2), w2))"
  from assms idle have "io_bind (stop_checks env n w) ?k = (Ret (b, n'), w')" unfolding StopClient_def by simp
  then obtain x w1 where x: "stop_checks env n w = (Ret x, w1)" "?k x w1 = (Ret (b, n'), w')"
    by (rule io_bindE)
  obtain go_ahead n1 where gn: "x = (go_ahead, n1)" by fastforce
  from x gn have c: "stop_checks env n w = (Ret (go_ahead, n1), w1)" and r: "?k (go_ahead, n1) w1 = (Ret (b, n'), w')"
    by simp_all
  show thesis
  proof (cases go_ahead)
    case False
    with c r idle refused show thesis by simp
  next
    case True
    with r obtain x2 w2 where s0: "stopProcesses env n1 w1 = (Ret x2, w2)" by (auto elim!: io_bindE)
    obtain p q n2 where "x2 = ((p, q), n2)" by (metis prod.collapse)
    with s0 have s: "stopProcesses env n1 w1 = (Ret ((p, q), n2), w2)" by simp
    show thesis
    proof (cases "p \<and> q")
      case pq: True
      show thesis by (rule stopped [of n1 w1 n2 w2]) (use True pq s c r idle in \<open>simp_all add: Let_def\<close>)
    next
      case pq: False
      show thesis by (rule failed [of n1 w1 p q]) (use True pq s c r idle in auto)
    qed
  qed
qed

text \<open>
  Whatever it answers, \<open>StopClient\<close> keeps the controller well formed; and it has touched a
  process, or reports success on a node that was up, only if the node was not busy and every
  check passed. After a success both processes are down and the node counts as down and available.
\<close>

lemma StopClient_wf:
  assumes "StopClient env n w = (Ret (b, n'), w')" and "nc_wf n"
  shows "nc_wf n'"
proof (cases "IsClientUp n")
  case False
  with assms show ?thesis by (simp add: StopClient_def)
next
  case True
  from assms(1) True assms(2) show ?thesis
  proof (cases rule: StopClient_cases)
    case busy
    then show ?thesis using assms(2) by simp
  next
    case refused
    then show ?thesis using stop_checks_wf [OF _ assms(2)] by simp
  next
    case (stopped n1 w1 n2 w2)
    then have "nc_wf n1" using stop_checks_wf [OF _ assms(2)] by simp
    with stopProcesses_Ret [OF stopped(3)] stopped show ?thesis by simp
  next
    case (failed n1 w1 p q)
    then have "nc_wf n1" using stop_checks_wf [OF _ assms(2)] by simp
    with stopProcesses_Ret [OF failed(3)] show ?thesis by simp
  qed
qed

definition same_processes :: "'w NodeControl \<Rightarrow> 'w NodeControl \<Rightarrow> bool" where
  "same_processes n n' \<longleftrightarrow>
     nc_bcclntProcess n' = nc_bcclntProcess n \<and> nc_pmclntProcess n' = nc_pmclntProcess n"

lemma StopClient_allowed:
  assumes "StopClient env n w = (Ret (b, n'), w')" and "nc_wf n" and "IsClientUp n"
    and "b \<or> \<not> same_processes n n'"
  shows "IsNodeBusy n = None \<and> shutdown_allowed env n w"
  using assms(1,3,2)
proof (cases rule: StopClient_cases)
  case refused
  with stop_checks_Ret(1) [OF refused(2) assms(2)] assms(4) show ?thesis
    by (simp add: same_processes_def)
next
  case (stopped n1 w1 n2 w2)
  with stop_checks_Ret(2) [OF stopped(2) assms(2)] show ?thesis by simp
next
  case (failed n1 w1 p q)
  with stop_checks_Ret(2) [OF failed(2) assms(2)] show ?thesis by simp
qed (use assms(4) in \<open>simp add: same_processes_def\<close>)

lemma StopClient_success:
  assumes "StopClient env n w = (Ret (True, n'), w')" and "nc_wf n" and "IsClientUp n"
  shows "procs_down n' \<and> nc_clientStatus n' = Down \<and> nc_nodeStatus n' = OK"
  using assms(1,3,2)
proof (cases rule: StopClient_cases)
  case (stopped n1 w1 n2 w2)
  then have "nc_wf n1" using stop_checks_wf [OF _ assms(2)] by simp
  with stopProcesses_Ret [OF stopped(3)] stopped show ?thesis
    by (simp add: SetNodeStatus_def SetClntStatus_def procs_down_def)
qed simp_all

text \<open>
  A failed stop leaves the node marked as up and as shutting down, and then every further
  \<open>StopClient\<close> is refused and every \<open>StartClient\<close> does nothing.
\<close>

lemma StopClient_failed:
  assumes "StopClient env n w = (Ret (False, n'), w')" and "nc_wf n" and "IsClientUp n"
    and "IsNodeBusy n = None" and "stop_checks env n w = (Ret (True, n1), w1)"
  shows "nc_nodeStatus n' = ShutdownInprogress \<and> IsClientUp n' \<and> (\<exists>p q. \<not> (p \<and> q) \<and>
    stopProcesses env n1 w1 = (Ret ((p, q), n'), w'))"
  using assms(1,3,2)
proof (cases rule: StopClient_cases)
  case (failed n2 w2 p q)
  with assms(5) have n1: "n1 = n2" "w1 = w2" by simp_all
  note c = stop_checks_Ret [OF assms(5,2)]
  from c(1) have "nc_wf n1" by simp
  with stopProcesses_Ret [OF failed(3)] n1 have "same_but_procs n1 n'" by simp
  with failed n1 c same_but_procs_fields [of n1 n'] assms(3) show ?thesis
    by (auto simp: IsClientUp_def)
qed (use assms in simp_all)

lemma shutting_down_refuses:
  assumes "nc_nodeStatus n = ShutdownInprogress" and "IsClientUp n"
  shows "StopClient env n w = (Ret (False, n), w)" and "StartClient env n w = (Ret (True, n), w)"
  using assms by (simp_all add: StopClient_def StartClient_def IsNodeBusy_def)

section \<open>Construction\<close>

text \<open>The random extra on top of the inactivity time is between 1 second and 2 percent, or 10 seconds.\<close>

lemma getRandomBufferTime_bounds:
  assumes "rand_ok env" and "0 \<le> t" and "t < 2 ^ 62"
  shows "\<exists>k w'. getRandomBufferTime env t w = (Ret k, w') \<and> 1 \<le> k \<and> k \<le> max 10 (2 * t div 100)"
proof -
  have d: "go_mul 2 t sdiv 100 = 2 * t div 100" using assms(2,3) by (simp add: go_mul_def sdiv_pos)
  define delay where "delay = (if 2 * t div 100 < 10 then 10 else 2 * t div 100)"
  have "1 \<le> delay" "delay < 2 ^ 62" using assms(3) by (simp_all add: delay_def) linarith
  moreover obtain r w' where r: "RandomInt env 1 delay w = (r, w')" by fastforce
  ultimately obtain k where "r = Ret k" "1 \<le> k" "k \<le> delay"
    using RandomInt_bounds [OF assms(1) _ _ _ r] by auto
  with r show ?thesis by (auto simp: getRandomBufferTime_def d Let_def delay_def)
qed

lemma new_process_ok:
  assumes "cfg \<noteq> None" and "pred_option Process_ok cfg"
  obtains p w' where "new_process env c cfg w = (Ret (Some p), w')" and "proc_ok p"
proof -
  from assms obtain q where q: "cfg = Some q" "Process_ok q" by auto
  from q(2) obtain u where u: "pr_UpcheckCfg q = Some u" by (auto simp: Process_ok_def split: option.splits)
  show thesis
  proof (cases "IsShell q")
    case True
    obtain b sp w1 where s: "Shell_UpdateStatus env \<lparr>sp_cfg = q, sp_upcheck = u, sp_status = True, sp_client = c\<rparr> w
        = ((b, sp), w1)" by (metis prod.collapse)
    from Shell_UpdateStatus_cached [OF s] have "sp_cfg sp = q" by simp
    moreover have "pr_StartCommand q \<noteq> [] \<and> pr_StopCommand q \<noteq> []"
      using q(2) True by (auto simp: Process_ok_def IsShell_def IsDocker_def)
    ultimately show thesis using q u True s
      by (intro that [of "ShellProc sp" w1]) (simp_all add: new_process_def NewShellProcess_def proc_ok_def)
  next
    case False
    then have d: "IsDocker q" using q(2) by (auto simp: Process_ok_def)
    obtain b dc w1 where s: "Docker_UpdateStatus env \<lparr>dc_cfg = q, dc_upcheck = u, dc_status = True, dc_client = c\<rparr> w
        = ((b, dc), w1)" by (metis prod.collapse)
    with q u False d show thesis
      by (intro that [of "DockerProc dc" w1]) (simp_all add: new_process_def NewDockerProcess_def proc_ok_def)
  qed
qed

lemma supported_handler: "supported_pair b \<Longrightarrow> consensus_handler_for b c \<noteq> None"
  using not_goquorum_and_besu [of b] by (auto simp: supported_pair_def consensus_handler_for_def)

lemma NewNodeControl_wf:
  assumes ok: "Basic_ok env w0 (nd_BasicConfig cfg)" and rd: "NewPeersReader (b_PeersConfigFile (nd_BasicConfig cfg)) = Inr rd"
    and "rand_ok env" and "b_InactivityTime (nd_BasicConfig cfg) < 2 ^ 62"
    and b: "b_BlockchainClient (nd_BasicConfig cfg) = Some b"
  obtains n w' where "NewNodeControl env toml cfg w = (Ret n, w')" and "nc_wf n" and "nc_nodeStatus n = OK"
    and "\<not> IsClientUp n" and "nc_consensus n = consensus_handler_for b (Some (tls_client (bc_BcClntTLSConfig b)))"
    and "nc_txh n = (if IsGoQuorumClient b then Some QuorumTxHandler else None)"
    and "b_InactivityTime (nd_BasicConfig cfg) < b_InactivityTime (basic n)"
    and "b_InactivityTime (basic n) \<le> b_InactivityTime (nd_BasicConfig cfg) + max 10 (2 * b_InactivityTime (nd_BasicConfig cfg) div 100)"
proof -
  let ?c = "nd_BasicConfig cfg"
  let ?http = "Some (tls_client (bc_BcClntTLSConfig b))"
  let ?pmhttp = "map_option (\<lambda>p. tls_client (pm_PrivManTLSConfig p)) (b_PrivacyManager ?c)"
  from ok b have bok: "BlockchainClient_ok env w0 b" and t: "60 \<le> b_InactivityTime ?c" by (auto simp: Basic_ok_def)
  from bok have bp: "bc_BcClntProcess b \<noteq> None" "pred_option Process_ok (bc_BcClntProcess b)"
    by (auto simp: BlockchainClient_ok_def)
  obtain p w1 where p: "new_process env ?http (bc_BcClntProcess b) w = (Ret (Some p), w1)" "proc_ok p"
    by (rule new_process_ok [OF bp])
  obtain pm w2 where pm: "(case b_PrivacyManager ?c of None \<Rightarrow> (Ret None, w1)
      | Some q \<Rightarrow> new_process env ?pmhttp (pm_PrivManProcess q) w1) = (Ret pm, w2)"
    and pmok: "pm \<noteq> None \<longleftrightarrow> b_PrivacyManager ?c \<noteq> None" "pred_option proc_ok pm"
  proof (cases "b_PrivacyManager ?c")
    case None
    then show thesis by (intro that [of None w1]) simp_all
  next
    case (Some q)
    with ok have q: "pm_PrivManProcess q \<noteq> None" "pred_option Process_ok (pm_PrivManProcess q)"
      by (auto simp: Basic_ok_def PrivacyManager_ok_def)
    obtain p' w2 where "new_process env ?pmhttp (pm_PrivManProcess q) w1 = (Ret (Some p'), w2)" "proc_ok p'"
      by (rule new_process_ok [OF q])
    with Some show thesis by (intro that [of "Some p'" w2]) simp_all
  qed
  from t have "0 \<le> b_InactivityTime ?c" by simp
  from getRandomBufferTime_bounds [OF assms(3) this assms(4), of w2] obtain k w3 where
    k: "getRandomBufferTime env (b_InactivityTime ?c) w2 = (Ret k, w3)" "1 \<le> k" "k \<le> max 10 (2 * b_InactivityTime ?c div 100)"
    by blast
  have add: "go_add (b_InactivityTime ?c) k = b_InactivityTime ?c + k"
    using t k(2,3) assms(4) by (simp add: go_add_def)
  have lt: "b_InactivityTime ?c < b_InactivityTime ?c + k" using k(2) by simp
  have h: "consensus_handler_for b ?http \<noteq> None"
    using bok by (auto simp: BlockchainClient_ok_def supported_handler)
  define n where "n = \<lparr>nc_nh = NewPeerManager env toml
        (cfg\<lparr>nd_BasicConfig := ?c\<lparr>b_InactivityTime := go_add (b_InactivityTime ?c) k\<rparr>\<rparr>),
      nc_bcclntProcess = Some p, nc_pmclntProcess = pm, nc_bcclntHttpClient = ?http, nc_pmclntHttpClient = ?pmhttp,
      nc_consensus = consensus_handler_for b ?http,
      nc_txh = (if IsGoQuorumClient b then Some QuorumTxHandler else None),
      nc_withPrivMan = (b_PrivacyManager ?c \<noteq> None), nc_consValid = False, nc_clientStatus = 0, nc_nodeStatus = OK\<rparr>"
  have new: "NewNodeControl env toml cfg w = (Ret n, w3)"
    unfolding NewNodeControl_def n_def the_client_def b using p(1) pm k(1) by (simp add: Let_def)
  show thesis
    by (rule that [OF new])
       (use p pmok h lt rd b k(3) in
        \<open>auto simp: n_def nc_wf_def config_def NewPeerManager_def IsClientUp_def add\<close>)
qed

section \<open>The consensus handler of a controller\<close>

primrec handler_member :: "'w env \<Rightarrow> consensus_handler \<Rightarrow> string \<Rightarrow> 'w \<Rightarrow> bool" where
  "handler_member env (RaftConsensus c) url w = raft_member env c url w"
| "handler_member env (IstanbulConsensus c) url w = istanbul_member env c url w"
| "handler_member env (QuorumCliqueConsensus c) url w = clique_member env c url w"
| "handler_member env (BesuCliqueConsensus c) url w = besu_member env c url w"

primrec handler_view :: "'w env \<Rightarrow> consensus_handler \<Rightarrow> string \<Rightarrow> 'w \<Rightarrow> (int \<times> int) option" where
  "handler_view env (RaftConsensus c) url w = raft_view env c url w"
| "handler_view env (IstanbulConsensus c) url w = istanbul_view env c url w"
| "handler_view env (QuorumCliqueConsensus c) url w = clique_view env c url w"
| "handler_view env (BesuCliqueConsensus c) url w = besu_view env c url w"

primrec handler_budget :: "consensus_handler \<Rightarrow> int \<Rightarrow> int" where
  "handler_budget (RaftConsensus c) n = half_budget n"
| "handler_budget (IstanbulConsensus c) n = third_budget n"
| "handler_budget (QuorumCliqueConsensus c) n = half_budget n"
| "handler_budget (BesuCliqueConsensus c) n = half_budget n"

interpretation handler: majority_engine "Cons_ValidateShutdown env h url" "handler_member env h url"
    "handler_view env h url" "handler_budget h" for env h url
proof
  fix b w w'
  show "Cons_ValidateShutdown env h url w = (Ret (b, None), w') \<Longrightarrow> b = handler_member env h url w"
    by (cases h) (auto simp: Cons_ValidateShutdown_def dest: raft.reports_member istanbul.reports_member
        clique.reports_member besu.reports_member)
next
  fix w w'
  assume "Cons_ValidateShutdown env h url w = (Ret (True, None), w')"
  then show "\<exists>d n. handler_view env h url w = Some (d, n) \<and> 0 \<le> d \<and> d + 1 \<le> handler_budget h n"
    using raft.within_budget istanbul.within_budget clique.within_budget besu.within_budget
    by (cases h) (simp_all add: Cons_ValidateShutdown_def)
next
  fix n
  show "0 < handler_budget h n \<Longrightarrow> 2 * handler_budget h n < n"
    by (cases h) (simp_all add: half_budget_half istanbul.budget_half)
qed

text \<open>
  A member of consensus that is allowed to go down: strict mode is off, and what its client
  reported leaves a majority up without it.
\<close>

lemma shutdown_allowed_room:
  assumes "shutdown_allowed env n w" and "nc_wf n"
  obtains h b where "nc_consensus n = Some h" and "b_BlockchainClient (basic n) = Some b"
    and "handler_member env h (bc_BcClntRpcUrl b) (consensus_world env n w) \<longrightarrow> b_DisableStrictMode (basic n)"
    and "handler_member env h (bc_BcClntRpcUrl b) (consensus_world env n w) \<longrightarrow>
          (\<exists>d t. handler_view env h (bc_BcClntRpcUrl b) (consensus_world env n w) = Some (d, t) \<and>
          0 \<le> d \<and> d + 1 \<le> handler_budget h t \<and> t < 2 * (t - (d + 1)))"
proof -
  let ?w = "consensus_world env n w"
  from assms(1) obtain m n1 w1 where c: "checkAndValidateConsensus env n w = (Ret ((m, None), n1), w1)"
    and strict: "m \<longrightarrow> b_DisableStrictMode (basic n)" by (auto simp: shutdown_allowed_def)
  from assms(2) obtain h b where hb: "nc_consensus n = Some h" "b_BlockchainClient (basic n) = Some b"
    by (auto simp: nc_wf_def)
  with checkAndValidateConsensus_Ret(2) [OF c]
  have v: "Cons_ValidateShutdown env h (bc_BcClntRpcUrl b) ?w = (Ret (m, None), w1)"
    by (simp add: call_consensus_def the_client_def)
  have "\<exists>d t. handler_view env h (bc_BcClntRpcUrl b) ?w = Some (d, t) \<and>
      0 \<le> d \<and> d + 1 \<le> handler_budget h t \<and> t < 2 * (t - (d + 1))" if m
    using handler.within_budget [of env h "bc_BcClntRpcUrl b" ?w w1]
      handler.keeps_majority [of env h "bc_BcClntRpcUrl b" ?w w1] v that by fastforce
  with hb strict handler.reports_member [OF v] show thesis by (intro that [of h b]) auto
qed

section \<open>Reachable controllers\<close>

text \<open>
  The operations that other goroutines call on a controller, in any order, with a world that
  others change in between.
\<close>

inductive node_step :: "'w env \<Rightarrow> 'w NodeControl \<Rightarrow> 'w NodeControl \<Rightarrow> bool" for env where
  stop: "StopClient env n w = (Ret (b, n'), w') \<Longrightarrow> node_step env n n'"
| start: "StartClient env n w = (Ret (b, n'), w') \<Longrightarrow> node_step env n n'"
| check: "CheckClientUpStatus env force n w = (Ret (b, n'), w') \<Longrightarrow> node_step env n n'"
| prepare: "PrepareNodeHibernatorForPrivateTx env keys n w = (Ret (r, n'), w') \<Longrightarrow> node_step env n n'"

inductive_cases node_stepE: "node_step env n n'"

inductive node_reach :: "'w env \<Rightarrow> 'w NodeControl \<Rightarrow> 'w NodeControl \<Rightarrow> bool" for env n0 where
  refl: "node_reach env n0 n0"
| step: "node_reach env n0 n \<Longrightarrow> node_step env n n' \<Longrightarrow> node_reach env n0 n'"

lemma getConfigByPrivManKey_keeps:
  "getConfigByPrivManKey env pm key w = (Ret (r, pm'), w') \<Longrightarrow>
     mgr_Read pm' = mgr_Read pm \<and> nd_BasicConfig (mgr_cfg pm') = nd_BasicConfig (mgr_cfg pm)"
  by (auto simp: getConfigByPrivManKey_def io_bind_eq_Ret split: prod.splits dest: readPeersConfig_keeps)

lemma key_count_loop_keeps:
  "key_count_loop env pm keys c w = (Ret (k, pm'), w') \<Longrightarrow>
     mgr_Read pm' = mgr_Read pm \<and> nd_BasicConfig (mgr_cfg pm') = nd_BasicConfig (mgr_cfg pm)"
proof (induction keys arbitrary: pm c w)
  case (Cons key keys)
  from Cons.prems obtain r pm1 w1 where "getConfigByPrivManKey env pm key w = (Ret (r, pm1), w1)"
    "key_count_loop env pm1 keys (if r \<noteq> None then c + 1 else c) w1 = (Ret (k, pm'), w')"
    by (fastforce simp: io_bind_eq_Ret)
  with Cons.IH [of pm1] getConfigByPrivManKey_keeps show ?case by fastforce
qed simp

lemma start_loop_keeps:
  "start_loop env pm keys w = (Ret (k, pm'), w') \<Longrightarrow>
     mgr_Read pm' = mgr_Read pm \<and> nd_BasicConfig (mgr_cfg pm') = nd_BasicConfig (mgr_cfg pm)"
proof (induction keys arbitrary: pm k w w')
  case (Cons key keys)
  from Cons.prems obtain r pm1 w1 ps w2 where "getConfigByPrivManKey env pm key w = (Ret (r, pm1), w1)"
    "start_loop env pm1 keys w1 = (Ret (ps, pm'), w2)"
    by (fastforce simp: io_bind_eq_Ret)
  with Cons.IH [of pm1] getConfigByPrivManKey_keeps show ?case by fastforce
qed simp

lemma peerPrivateTxStatus_keeps:
  assumes "peerPrivateTxStatus env pm keys w = (Ret (r, pm'), w')"
  shows "mgr_Read pm' = mgr_Read pm \<and> nd_BasicConfig (mgr_cfg pm') = nd_BasicConfig (mgr_cfg pm)"
proof -
  let ?req = "PreparePvtTxMethod (b_Name (nd_BasicConfig (mgr_cfg pm)))"
  from assms obtain e pm1 w1 where c: "key_count_loop env pm keys 0 w = (Ret (e, pm1), w1)"
    by (auto simp: peerPrivateTxStatus_def peersByParticipantKeyCount_def io_bind_eq_Ret)
  show ?thesis
  proof (cases "e = 0")
    case True
    with assms c key_count_loop_keeps [OF c] show ?thesis
      by (auto simp: peerPrivateTxStatus_def peersByParticipantKeyCount_def)
  next
    case False
    with assms c obtain ps pm2 w2 where s: "start_loop env pm1 keys w1 = (Ret (ps, pm2), w2)"
      by (auto simp: peerPrivateTxStatus_def peersByParticipantKeyCount_def io_bind_eq_Ret)
    obtain rs w3 where "run_calls (prepare_call env ?req) (scheduled env w2 ps) w2 = (rs, w3)" by fastforce
    with assms c s False have "pm' = pm2"
      by (auto simp: peerPrivateTxStatus_def peersByParticipantKeyCount_def go_bind_eq_Ret)
    with key_count_loop_keeps [OF c] start_loop_keeps [OF s] show ?thesis by simp
  qed
qed

lemma ValidatePeerPrivateTxStatus_keeps:
  "ValidatePeerPrivateTxStatus env pm keys w = (Ret (r, pm'), w') \<Longrightarrow>
     mgr_Read pm' = mgr_Read pm \<and> nd_BasicConfig (mgr_cfg pm') = nd_BasicConfig (mgr_cfg pm)"
  by (auto simp: ValidatePeerPrivateTxStatus_def io_bind_eq_Ret Let_def dest!: peerPrivateTxStatus_keeps)

lemma node_step_wf: "node_step env n n' \<Longrightarrow> nc_wf n \<Longrightarrow> nc_wf n'"
proof (induction rule: node_step.induct)
  case (start n w b n' w')
  with StartClient_Ret [OF start(1,2)] show ?case by simp
next
  case (check force n w b n' w')
  obtain up m v where "CheckClientUpStatus env force n w = (Ret (up, m), v)" "nc_wf m"
    by (rule CheckClientUpStatus_returns [OF check(2)])
  with check show ?case by simp
next
  case (prepare keys n w r n' w')
  then obtain pm where pm: "ValidatePeerPrivateTxStatus env (nc_nh n) keys w = (Ret (r, pm), w')" "n' = n\<lparr>nc_nh := pm\<rparr>"
    by (auto simp: PrepareNodeHibernatorForPrivateTx_def io_bind_eq_Ret)
  from ValidatePeerPrivateTxStatus_keeps [OF pm(1)] prepare(2) show ?case
    by (simp add: pm(2) nc_wf_def config_def)
qed (rule StopClient_wf)

lemma node_reach_wf: "node_reach env n0 n \<Longrightarrow> nc_wf n0 \<Longrightarrow> nc_wf n"
  by (induction rule: node_reach.induct) (auto intro: node_step_wf)

text \<open>
  A controller that counts as up and as shutting down stays so, whatever is called on it, until an
  up check finds a process down. Then stopping reports success at once, and starting asks the
  processes again: found up, the node goes on as shutting down; else they are started.
\<close>

definition stuck :: "'w NodeControl \<Rightarrow> bool" where
  "stuck n \<longleftrightarrow> nc_wf n \<and> nc_nodeStatus n = ShutdownInprogress \<and> IsClientUp n"

lemma stuck_step:
  assumes "node_step env n n'" and "stuck n"
  shows "stuck n' \<or> (\<exists>force w w'. CheckClientUpStatus env force n w = (Ret (False, n'), w')) \<and>
    nc_wf n' \<and> nc_nodeStatus n' = ShutdownInprogress \<and> \<not> IsClientUp n'"
  using assms
proof (induction rule: node_step.induct)
  case (check force n w b n' w')
  from check(2) have "nc_wf n" by (simp add: stuck_def)
  then obtain up m v where "CheckClientUpStatus env force n w = (Ret (up, m), v)" "nc_wf m"
    "nc_nodeStatus m = nc_nodeStatus n" "up \<longleftrightarrow> IsClientUp m"
    by (rule CheckClientUpStatus_returns)
  with check show ?case by (cases up) (auto simp: stuck_def)
next
  case (prepare keys n w r n' w')
  then have "nc_wf n'" using node_step_wf [OF node_step.prepare [OF prepare(1)]] by (simp add: stuck_def)
  with prepare show ?case
    by (auto simp: PrepareNodeHibernatorForPrivateTx_def io_bind_eq_Ret stuck_def IsClientUp_def)
qed (auto simp: stuck_def shutting_down_refuses simp del: ShutdownInprogress_def)

text \<open>Operations after which the client still counts as up.\<close>

definition step_up :: "'w env \<Rightarrow> 'w NodeControl \<Rightarrow> 'w NodeControl \<Rightarrow> bool" where
  "step_up env n n' \<longleftrightarrow> node_step env n n' \<and> IsClientUp n'"

lemma stuck_stays: "rtranclp (step_up env) n n' \<Longrightarrow> stuck n \<Longrightarrow> stuck n'"
  by (induction rule: rtranclp_induct) (use stuck_step in \<open>fastforce simp: step_up_def\<close>)+

lemma unstuck_start:
  assumes "StartClient env n w = (Ret (up, n'), w')" and "nc_wf n" and "\<not> IsClientUp n"
  shows "if fst (CheckClientUpStatus env True n w) = Ret (True, n')
    then up \<and> IsClientUp n' \<and> nc_nodeStatus n' = nc_nodeStatus n
    else IsClientUp n' = up \<and> (up \<longrightarrow> procs_up n') \<and> nc_nodeStatus n' = (if up then OK else StartupInprogress)"
proof -
  obtain c n1 w1 where c: "CheckClientUpStatus env True n w = (Ret (c, n1), w1)" "nc_wf n1"
    "nc_nodeStatus n1 = nc_nodeStatus n" "c \<longleftrightarrow> IsClientUp n1"
    by (rule CheckClientUpStatus_returns [OF assms(2), of env True w]) auto
  show ?thesis
  proof (cases c)
    case True
    with assms(1,3) c have "up" "n' = n1" by (simp_all add: StartClient_def)
    with True c show ?thesis by simp
  next
    case False
    with c have "CheckClientUpStatus env True n w = (Ret (False, n1), w1)" "\<not> IsClientUp n1" by simp_all
    with StartClient_started [OF assms(1,3) _ c(2)] show ?thesis by auto
  qed
qed

text \<open>Between operations the node status is one of three: the wait for consensus is over when \<open>StopClient\<close> returns.\<close>

definition settled :: "'w NodeControl \<Rightarrow> bool" where
  "settled n \<longleftrightarrow> nc_nodeStatus n \<in> {OK, ShutdownInprogress, StartupInprogress}"

lemma StopClient_settled:
  assumes "StopClient env n w = (Ret (b, n'), w')" and "nc_wf n" and "settled n"
  shows "settled n'"
proof (cases "IsClientUp n")
  case False
  with assms show ?thesis by (simp add: StopClient_def)
next
  case True
  from assms(1) True assms(2) show ?thesis
  proof (cases rule: StopClient_cases)
    case busy
    then show ?thesis using assms(3) by simp
  next
    case refused
    with stop_checks_Ret(2) [OF refused(2) assms(2)] assms(3) show ?thesis by (auto simp: settled_def)
  next
    case (stopped n1 w1 n2 w2)
    then show ?thesis by (simp add: settled_def SetNodeStatus_def)
  next
    case (failed n1 w1 p q)
    from assms(1) failed(5) have "StopClient env n w = (Ret (False, n'), w')" by simp
    from StopClient_failed [OF this assms(2) True failed(1,2)] show ?thesis by (simp add: settled_def)
  qed
qed

lemma node_step_settled: "node_step env n n' \<Longrightarrow> nc_wf n \<Longrightarrow> settled n \<Longrightarrow> settled n'"
proof (induction rule: node_step.induct)
  case (start n w b n' w')
  with StartClient_Ret [OF start(1,2)] show ?case by (auto simp: settled_def start_outcome_def split: if_splits)
next
  case (check force n w b n' w')
  obtain up m v where "CheckClientUpStatus env force n w = (Ret (up, m), v)" "nc_nodeStatus m = nc_nodeStatus n"
    by (rule CheckClientUpStatus_returns [OF check(2)])
  with check show ?case by (simp add: settled_def)
next
  case (prepare keys n w r n' w')
  then show ?case by (auto simp: PrepareNodeHibernatorForPrivateTx_def io_bind_eq_Ret settled_def)
qed (rule StopClient_settled)

lemma node_reach_settled: "node_reach env n0 n \<Longrightarrow> nc_wf n0 \<Longrightarrow> settled n0 \<Longrightarrow> settled n"
  by (induction rule: node_reach.induct) (auto intro: node_step_settled node_reach_wf)

end
