(* ===== verification/Node_Service.thy ===== *)
theory Node_Service
  imports Node_Facts
begin

text \<open>
  The goroutines around a controller: the inactivity tracker and the resync timer
  (\<open>node/activity.go\<close>), the monitor that serves start and stop requests and the status monitor
  (\<open>node/control.go\<close>), and the JSON-RPC methods that peers call (\<open>node/api.go\<close>). Channels have
  capacity one: a send on a full channel blocks until its receiver has made room. In the machine
  such a step waits until it is enabled; in an operation that is one function, what the others do
  meanwhile is an argument.
\<close>

section \<open>State\<close>

datatype tracker = Ticking | AwaitStop
datatype resync = ResyncOff | ResyncIdle | AwaitStart

record 'w Service =
  sv_node :: "'w NodeControl"
  sv_inactiveTimeCount :: int
  sv_inactivityResetCh :: bool
  sv_syncResetCh :: bool
  sv_stopClntCh :: bool
  sv_stopClntCompleteCh :: "bool option"
  sv_startClntCh :: bool
  sv_startClntCompleteCh :: "bool option"
  sv_tracker :: tracker
  sv_resync :: resync
  sv_timer :: bool
  sv_statusInit :: bool

text \<open>What \<open>NewNodeControl\<close> and \<open>Start\<close> leave: empty channels, the goroutines at their loops.\<close>

definition started :: "'w NodeControl \<Rightarrow> 'w Service" where
  "started n = \<lparr>sv_node = n, sv_inactiveTimeCount = 0, sv_inactivityResetCh = False,
     sv_syncResetCh = False, sv_stopClntCh = False, sv_stopClntCompleteCh = None, sv_startClntCh = False,
     sv_startClntCompleteCh = None, sv_tracker = Ticking,
     sv_resync = (if IsResyncTimerSet (basic n) then ResyncIdle else ResyncOff),
     sv_timer = IsResyncTimerSet (basic n), sv_statusInit = False\<rparr>"

text \<open>
  The status monitor begins with \<open>time.NewTicker\<close> on the polling interval in nanoseconds, an
  \<open>int64\<close> that wraps around; on an interval that is not positive it panics, and a panic in a
  goroutine ends the program. The tracker's ticker has a fixed second.
\<close>

definition NodeControl_Start :: "'w NodeControl \<Rightarrow> 'w Service go" where
  "NodeControl_Start n =
     (if go_mul (b_UpchkPollingInterval (basic n)) Second \<le> 0 then Panic ''non-positive interval for NewTicker''
      else Ret (started n))"

section \<open>Channels\<close>

datatype reset_ch = InactivityResetCh | SyncResetCh

primrec full :: "reset_ch \<Rightarrow> 'w Service \<Rightarrow> bool" where
  "full InactivityResetCh s = sv_inactivityResetCh s"
| "full SyncResetCh s = sv_syncResetCh s"

primrec fill :: "reset_ch \<Rightarrow> 'w Service \<Rightarrow> 'w Service" where
  "fill InactivityResetCh s = s\<lparr>sv_inactivityResetCh := True\<rparr>"
| "fill SyncResetCh s = s\<lparr>sv_syncResetCh := True\<rparr>"

text \<open>
  A send waits while its channel is full. \<open>turn\<close> is what the other goroutines have done to the
  service and the world when the sender goes on, and \<open>None\<close> if the channel is never received from.
\<close>

type_synonym 'w turn = "reset_ch \<Rightarrow> 'w Service \<Rightarrow> 'w \<Rightarrow> ('w Service \<times> 'w) option"

definition send_reset :: "'w turn \<Rightarrow> reset_ch \<Rightarrow> 'w Service \<Rightarrow> 'w \<Rightarrow> 'w Service go \<times> 'w" where
  "send_reset turn ch s w =
     (if \<not> full ch s then (Ret (fill ch s), w)
      else (case turn ch s w of
              None \<Rightarrow> (Hang, w)
            | Some (s1, w1) \<Rightarrow> (Ret (fill ch s1), w1)))"

definition ResetInactiveSyncTime :: "'w turn \<Rightarrow> 'w Service \<Rightarrow> 'w \<Rightarrow> 'w Service go \<times> 'w" where
  "ResetInactiveSyncTime turn s w =
     io_bind (send_reset turn InactivityResetCh s w) (\<lambda>s1 w1.
       if IsResyncTimerSet (basic (sv_node s1)) then send_reset turn SyncResetCh s1 w1 else (Ret s1, w1))"

definition RequestStopClient :: "'w Service \<Rightarrow> 'w Service go" where
  "RequestStopClient s = (if sv_stopClntCh s then Hang else Ret (s\<lparr>sv_stopClntCh := True\<rparr>))"

definition RequestStartClient :: "'w Service \<Rightarrow> 'w Service go" where
  "RequestStartClient s = (if sv_startClntCh s then Hang else Ret (s\<lparr>sv_startClntCh := True\<rparr>))"

text \<open>The answers that \<open>WaitStopClient\<close> and \<open>WaitStartClient\<close> take from their channels.\<close>

definition WaitStopClient :: "'w Service \<Rightarrow> (bool \<times> 'w Service) go" where
  "WaitStopClient s = (case sv_stopClntCompleteCh s of
     None \<Rightarrow> Hang | Some b \<Rightarrow> Ret (b, s\<lparr>sv_stopClntCompleteCh := None\<rparr>))"

definition WaitStartClient :: "'w Service \<Rightarrow> (bool \<times> 'w Service) go" where
  "WaitStartClient s = (case sv_startClntCompleteCh s of
     None \<Rightarrow> Hang | Some b \<Rightarrow> Ret (b, s\<lparr>sv_startClntCompleteCh := None\<rparr>))"

section \<open>The inactivity tracker\<close>

definition ResetInactivity :: "'w Service \<Rightarrow> 'w Service" where
  "ResetInactivity s = s\<lparr>sv_inactiveTimeCount := 0\<rparr>"

text \<open>
  \<open>processInactivity\<close> up to its wait for the monitor; the tracker then is in \<open>AwaitStop\<close>, and
  \<open>resume_inactivity\<close> is the rest of it.
\<close>

definition processInactivity :: "'w env \<Rightarrow> 'w Service \<Rightarrow> 'w \<Rightarrow> 'w Service go \<times> 'w" where
  "processInactivity env s w =
     (if IsNodeBusy (sv_node s) \<noteq> None then (Ret (ResetInactivity s), w)
      else io_bind (CheckClientUpStatus env True (sv_node s) w) (\<lambda>(up, n1) w1.
        (let s1 = s\<lparr>sv_node := n1\<rparr> in
         if up then (go_bind (RequestStopClient s1) (\<lambda>s2. Ret (s2\<lparr>sv_tracker := AwaitStop\<rparr>)), w1)
         else (Ret (ResetInactivity s1), w1))))"

definition resume_inactivity :: "'w Service \<Rightarrow> 'w Service go" where
  "resume_inactivity s =
     go_bind (WaitStopClient s) (\<lambda>(b, s1). Ret ((ResetInactivity s1)\<lparr>sv_tracker := Ticking\<rparr>))"

text \<open>One second of \<open>trackInactivity\<close>, and its reset channel.\<close>

definition inactivity_tick :: "'w env \<Rightarrow> 'w Service \<Rightarrow> 'w \<Rightarrow> 'w Service go \<times> 'w" where
  "inactivity_tick env s w =
     (if sv_inactiveTimeCount s = b_InactivityTime (basic (sv_node s)) then processInactivity env s w
      else (Ret (s\<lparr>sv_inactiveTimeCount := go_add (sv_inactiveTimeCount s) 1\<rparr>), w))"

definition inactivity_reset :: "'w Service \<Rightarrow> 'w Service" where
  "inactivity_reset s = (ResetInactivity s)\<lparr>sv_inactivityResetCh := False\<rparr>"

section \<open>The resync timer\<close>

definition processResyncRequest :: "'w Service \<Rightarrow> 'w Service go" where
  "processResyncRequest s =
     (if IsNodeBusy (sv_node s) = None then
        go_bind (RequestStartClient (ResetInactivity s)) (\<lambda>s1. Ret (s1\<lparr>sv_resync := AwaitStart\<rparr>))
      else Ret s)"

definition resume_resync :: "'w Service \<Rightarrow> 'w Service go" where
  "resume_resync s = go_bind (WaitStartClient s) (\<lambda>(b, s1). Ret (s1\<lparr>sv_resync := ResyncIdle\<rparr>))"

text \<open>A \<open>time.Timer\<close> fires once; only a reset arms it again.\<close>

definition resync_fire :: "'w Service \<Rightarrow> 'w Service go" where
  "resync_fire s = processResyncRequest (s\<lparr>sv_timer := False\<rparr>)"

definition resync_reset :: "'w Service \<Rightarrow> 'w Service" where
  "resync_reset s = s\<lparr>sv_syncResetCh := False, sv_timer := True\<rparr>"

section \<open>The monitors\<close>

definition monitor_stop :: "'w env \<Rightarrow> 'w Service \<Rightarrow> 'w \<Rightarrow> 'w Service go \<times> 'w" where
  "monitor_stop env s w =
     io_bind (StopClient env (sv_node s) w) (\<lambda>(b, n1) w1.
       (if sv_stopClntCompleteCh s \<noteq> None then Hang
        else Ret (s\<lparr>sv_node := n1, sv_stopClntCh := False, sv_stopClntCompleteCh := Some b\<rparr>), w1))"

definition monitor_start :: "'w env \<Rightarrow> 'w Service \<Rightarrow> 'w \<Rightarrow> 'w Service go \<times> 'w" where
  "monitor_start env s w =
     io_bind (StartClient env (sv_node s) w) (\<lambda>(b, n1) w1.
       (if sv_startClntCompleteCh s \<noteq> None then Hang
        else Ret (s\<lparr>sv_node := n1, sv_startClntCh := False, sv_startClntCompleteCh := Some b\<rparr>), w1))"

definition status_tick :: "'w env \<Rightarrow> 'w Service \<Rightarrow> 'w \<Rightarrow> 'w Service go \<times> 'w" where
  "status_tick env s w =
     io_bind (CheckClientUpStatus env (\<not> sv_statusInit s) (sv_node s) w) (\<lambda>(up, n1) w1.
       (Ret (s\<lparr>sv_node := n1, sv_statusInit := True\<rparr>), w1))"

section \<open>The methods that peers call\<close>

definition IsNodeUp :: "'w env \<Rightarrow> 'w Service \<Rightarrow> 'w \<Rightarrow> (bool \<times> 'w Service) go \<times> 'w" where
  "IsNodeUp env s w =
     io_bind (CheckClientUpStatus env False (sv_node s) w) (\<lambda>(up, n1) w1.
       if \<not> up then (Ret (False, s\<lparr>sv_node := n1\<rparr>), w1) else (Ret (True, s\<lparr>sv_node := n1\<rparr>), w1))"

text \<open>
  The reply, and whether a goroutine that prepares the client in the background has been started.
\<close>

definition prepare_private :: "'w env \<Rightarrow> 'w Service \<Rightarrow> 'w \<Rightarrow> ((bool \<times> bool) \<times> 'w Service) go \<times> 'w" where
  "prepare_private env s1 w1 =
     (if IsNodeBusy (sv_node s1) \<noteq> None then (Ret ((False, False), s1), w1)
      else if \<not> IsClientUp (sv_node s1) then (Ret ((False, True), s1), w1)
      else io_bind (PrepareClient env (sv_node s1) w1) (\<lambda>(status, n2) w2.
        (Ret ((status, False), s1\<lparr>sv_node := n2\<rparr>), w2)))"

definition PrepareForPrivateTx ::
  "'w env \<Rightarrow> 'w turn \<Rightarrow> 'w Service \<Rightarrow> 'w \<Rightarrow> ((bool \<times> bool) \<times> 'w Service) go \<times> 'w" where
  "PrepareForPrivateTx env turn s w = io_bind (ResetInactiveSyncTime turn s w) (prepare_private env)"

definition NodeStatus :: "'w Service \<Rightarrow> NodeStatusInfo" where
  "NodeStatus s =
     (let status = nc_nodeStatus (sv_node s);
          inactiveTimeLimit = b_InactivityTime (basic (sv_node s));
          curInactiveTimeCount = sv_inactiveTimeCount s
      in \<lparr>nsi_Status = status, nsi_InactiveTimeLimit = inactiveTimeLimit,
          nsi_InactiveTime = curInactiveTimeCount,
          nsi_TimeToShutdown = go_sub inactiveTimeLimit curInactiveTimeCount\<rparr>)"

section \<open>The machine\<close>

text \<open>
  A step of one goroutine, or a call from a handler. \<open>StartClient\<close> and \<open>StopClient\<close> are steps of
  their own since they hold the mutex; the world is arbitrary at every step. The two sends of
  \<open>ResetInactiveSyncTime\<close> are a step each, possible when the channel has room, so that a handler
  that finds it full goes on when the receiver has emptied it; the rest of \<open>PrepareForPrivateTx\<close>
  is another step.
\<close>

inductive svc_step :: "'w env \<Rightarrow> 'w Service \<Rightarrow> 'w Service \<Rightarrow> bool" for env where
  tick: "sv_tracker s = Ticking \<Longrightarrow> inactivity_tick env s w = (Ret s', w') \<Longrightarrow> svc_step env s s'"
| tracker_reset: "sv_tracker s = Ticking \<Longrightarrow> sv_inactivityResetCh s \<Longrightarrow> svc_step env s (inactivity_reset s)"
| tracker_resume: "sv_tracker s = AwaitStop \<Longrightarrow> resume_inactivity s = Ret s' \<Longrightarrow> svc_step env s s'"
| timer: "sv_resync s = ResyncIdle \<Longrightarrow> sv_timer s \<Longrightarrow> resync_fire s = Ret s' \<Longrightarrow> svc_step env s s'"
| timer_reset: "sv_resync s = ResyncIdle \<Longrightarrow> sv_syncResetCh s \<Longrightarrow> svc_step env s (resync_reset s)"
| timer_resume: "sv_resync s = AwaitStart \<Longrightarrow> resume_resync s = Ret s' \<Longrightarrow> svc_step env s s'"
| serve_stop: "sv_stopClntCh s \<Longrightarrow> monitor_stop env s w = (Ret s', w') \<Longrightarrow> svc_step env s s'"
| serve_start: "sv_startClntCh s \<Longrightarrow> monitor_start env s w = (Ret s', w') \<Longrightarrow> svc_step env s s'"
| status: "status_tick env s w = (Ret s', w') \<Longrightarrow> svc_step env s s'"
| api_up: "IsNodeUp env s w = (Ret (b, s'), w') \<Longrightarrow> svc_step env s s'"
| api_prepare: "prepare_private env s w = (Ret (r, s'), w') \<Longrightarrow> svc_step env s s'"
| activity: "\<not> full ch s \<Longrightarrow> (ch = SyncResetCh \<longrightarrow> IsResyncTimerSet (basic (sv_node s))) \<Longrightarrow> svc_step env s (fill ch s)"
| controller: "node_step env (sv_node s) n' \<Longrightarrow> svc_step env s (s\<lparr>sv_node := n'\<rparr>)"

inductive svc_reach :: "'w env \<Rightarrow> 'w Service \<Rightarrow> 'w Service \<Rightarrow> bool" for env s0 where
  refl: "svc_reach env s0 s0"
| step: "svc_reach env s0 s \<Longrightarrow> svc_step env s s' \<Longrightarrow> svc_reach env s0 s'"

text \<open>
  What a blocked sender may find when it goes on: a state that steps of the others lead to, with
  room in the channel.
\<close>

definition turn_ok :: "'w env \<Rightarrow> 'w turn \<Rightarrow> bool" where
  "turn_ok env turn \<longleftrightarrow>
     (\<forall>ch s w s1 w1. turn ch s w = Some (s1, w1) \<longrightarrow> svc_reach env s s1 \<and> \<not> full ch s1)"

section \<open>What the controller's operations keep\<close>

lemma StopClient_basic:
  assumes "StopClient env n w = (Ret (b, n'), w')" and "nc_wf n"
  shows "basic n' = basic n"
proof (cases "IsClientUp n")
  case False
  with assms show ?thesis by (simp add: StopClient_def)
next
  case True
  have procs: "basic n2 = basic n" if "stop_checks env n w = (Ret (True, n1), w1)"
    and "stopProcesses env n1 w1 = (Ret (r, n2), w2)" for n1 w1 r n2 w2
  proof -
    note c = stop_checks_Ret(1) [OF that(1) assms(2)]
    then have "nc_wf n1" by simp
    with stopProcesses_Ret [of env n1 w1 "fst r" "snd r" n2 w2] that(2) have "same_but_procs n1 n2" by simp
    with same_but_procs_fields(1) [of n1 n2] c show ?thesis by (simp add: config_def)
  qed
  from assms(1) True assms(2) show ?thesis
  proof (cases rule: StopClient_cases)
    case refused
    with stop_checks_Ret(1) [OF refused(2) assms(2)] show ?thesis by simp
  next
    case (stopped n1 w1 n2 w2)
    with procs [OF stopped(2,3)] show ?thesis by (simp add: SetNodeStatus_def SetClntStatus_def config_def)
  next
    case (failed n1 w1 p q)
    with procs [OF failed(2,3)] show ?thesis by simp
  qed simp
qed

lemma node_step_basic: "node_step env n n' \<Longrightarrow> nc_wf n \<Longrightarrow> basic n' = basic n"
proof (induction rule: node_step.induct)
  case (stop n w b n' w')
  then show ?case by (rule StopClient_basic)
next
  case (start n w b n' w')
  with StartClient_Ret [OF start(1,2)] show ?case by (simp add: config_def)
next
  case (check force n w b n' w')
  obtain up m v where "CheckClientUpStatus env force n w = (Ret (up, m), v)" "nc_nh m = nc_nh n"
    by (rule CheckClientUpStatus_returns [OF check(2)])
  with check show ?case by (simp add: config_def)
next
  case (prepare keys n w r n' w')
  then obtain pm where pm: "ValidatePeerPrivateTxStatus env (nc_nh n) keys w = (Ret (r, pm), w')" "n' = n\<lparr>nc_nh := pm\<rparr>"
    by (auto simp: PrepareNodeHibernatorForPrivateTx_def io_bind_eq_Ret)
  from ValidatePeerPrivateTxStatus_keeps [OF pm(1)] show ?case by (simp add: pm(2) config_def)
qed

section \<open>Invariant\<close>

text \<open>
  A request is outstanding exactly while its goroutine waits, in one of the two channels of the
  pair; the inactivity count is between zero and the limit.
\<close>

definition svc_inv :: "'w Service \<Rightarrow> bool" where
  "svc_inv s \<longleftrightarrow> nc_wf (sv_node s) \<and>
     (if sv_tracker s = AwaitStop then sv_stopClntCh s \<longleftrightarrow> sv_stopClntCompleteCh s = None
      else \<not> sv_stopClntCh s \<and> sv_stopClntCompleteCh s = None) \<and>
     (if sv_resync s = AwaitStart then sv_startClntCh s \<longleftrightarrow> sv_startClntCompleteCh s = None
      else \<not> sv_startClntCh s \<and> sv_startClntCompleteCh s = None) \<and>
     0 \<le> sv_inactiveTimeCount s \<and> sv_inactiveTimeCount s \<le> b_InactivityTime (basic (sv_node s)) \<and>
     b_InactivityTime (basic (sv_node s)) < 2 ^ 62"

lemma svc_inv_node:
  "svc_inv s \<Longrightarrow> nc_wf n \<Longrightarrow> basic n = basic (sv_node s) \<Longrightarrow> svc_inv (s\<lparr>sv_node := n\<rparr>)"
  by (simp add: svc_inv_def)

lemma node_step_inv: "svc_inv s \<Longrightarrow> node_step env (sv_node s) n \<Longrightarrow> svc_inv (s\<lparr>sv_node := n\<rparr>)"
  by (rule svc_inv_node) (auto simp: svc_inv_def intro: node_step_wf node_step_basic)

text \<open>The fields that the invariant does not mention.\<close>

lemma svc_inv_simps [simp]:
  "svc_inv (s\<lparr>sv_inactivityResetCh := a\<rparr>) \<longleftrightarrow> svc_inv s"
  "svc_inv (s\<lparr>sv_syncResetCh := a\<rparr>) \<longleftrightarrow> svc_inv s"
  "svc_inv (s\<lparr>sv_timer := a\<rparr>) \<longleftrightarrow> svc_inv s"
  "svc_inv (s\<lparr>sv_statusInit := a\<rparr>) \<longleftrightarrow> svc_inv s"
  by (simp_all add: svc_inv_def)

lemma svc_inv_fill [simp]: "svc_inv (fill ch s) \<longleftrightarrow> svc_inv s"
  by (cases ch) simp_all

lemma fill_fields [simp]: "sv_node (fill ch s) = sv_node s" "sv_timer (fill ch s) = sv_timer s"
  "sv_syncResetCh (fill ch s) \<longleftrightarrow> sv_syncResetCh s \<or> ch = SyncResetCh"
  by (cases ch; simp)+

text \<open>With room in both channels \<open>ResetInactiveSyncTime\<close> only fills them.\<close>

lemma ResetInactiveSyncTime_room:
  assumes "\<not> sv_inactivityResetCh s" and "IsResyncTimerSet (basic (sv_node s)) \<longrightarrow> \<not> sv_syncResetCh s"
  shows "ResetInactiveSyncTime turn s w = (Ret (s\<lparr>sv_inactivityResetCh := True,
    sv_syncResetCh := sv_syncResetCh s \<or> IsResyncTimerSet (basic (sv_node s))\<rparr>), w)"
  using assms by (simp add: ResetInactiveSyncTime_def send_reset_def)

lemma ResetInactiveSyncTime_never:
  assumes "sv_inactivityResetCh s" and "turn InactivityResetCh s w = None"
  shows "ResetInactiveSyncTime turn s w = (Hang, w)"
  using assms by (simp add: ResetInactiveSyncTime_def send_reset_def)

lemma count_inv:
  "svc_inv s \<Longrightarrow> sv_inactiveTimeCount s \<noteq> b_InactivityTime (basic (sv_node s)) \<Longrightarrow>
     svc_inv (s\<lparr>sv_inactiveTimeCount := go_add (sv_inactiveTimeCount s) 1\<rparr>)"
  by (auto simp: svc_inv_def go_add_def)

lemma ResetInactivity_inv: "svc_inv s \<Longrightarrow> svc_inv (ResetInactivity s)"
  by (auto simp: svc_inv_def ResetInactivity_def)

lemma ResetInactivity_tracker [simp]: "sv_tracker (ResetInactivity s) = sv_tracker s"
  by (simp add: ResetInactivity_def)

lemma RequestStopClient_inv:
  assumes "svc_inv s" and "sv_tracker s = Ticking"
  obtains s' where "RequestStopClient s = Ret s'" and "svc_inv (s'\<lparr>sv_tracker := AwaitStop\<rparr>)"
    and "sv_node s' = sv_node s"
  using assms by (auto simp: RequestStopClient_def svc_inv_def)

text \<open>The tracker never blocks on its requests, and asks for a stop only at the limit.\<close>

lemma processInactivity_returns:
  assumes inv: "svc_inv s" and tick: "sv_tracker s = Ticking"
  obtains s' w' where "processInactivity env s w = (Ret s', w')" and "svc_inv s'"
    and "sv_tracker s' = AwaitStop \<longrightarrow> IsClientUp (sv_node s') \<and> IsNodeBusy (sv_node s) = None"
    and "sv_tracker s' = Ticking \<longrightarrow> sv_inactiveTimeCount s' = 0"
proof (cases "IsNodeBusy (sv_node s) = None")
  case False
  with tick ResetInactivity_inv [OF inv] show thesis
    by (intro that [of "ResetInactivity s" w]) (simp_all add: processInactivity_def ResetInactivity_def)
next
  case True
  have "nc_wf (sv_node s)" using inv by (simp add: svc_inv_def)
  then obtain up n1 w1 where c: "CheckClientUpStatus env True (sv_node s) w = (Ret (up, n1), w1)" "nc_wf n1"
    "nc_nh n1 = nc_nh (sv_node s)" "up \<longleftrightarrow> IsClientUp n1"
    by (rule CheckClientUpStatus_returns)
  have inv1: "svc_inv (s\<lparr>sv_node := n1\<rparr>)"
    by (rule svc_inv_node [OF inv c(2)]) (simp add: config_def c(3))
  show thesis
  proof (cases up)
    case True
    from tick have "sv_tracker (s\<lparr>sv_node := n1\<rparr>) = Ticking" by simp
    with inv1 obtain s2 where r: "RequestStopClient (s\<lparr>sv_node := n1\<rparr>) = Ret s2"
      "svc_inv (s2\<lparr>sv_tracker := AwaitStop\<rparr>)" "sv_node s2 = sv_node (s\<lparr>sv_node := n1\<rparr>)"
      by (rule RequestStopClient_inv)
    with True c \<open>IsNodeBusy _ = None\<close> show thesis
      by (intro that [of "s2\<lparr>sv_tracker := AwaitStop\<rparr>" w1]) (simp_all add: processInactivity_def)
  next
    case False
    with c \<open>IsNodeBusy _ = None\<close> tick ResetInactivity_inv [OF inv1] show thesis
      by (intro that [of "ResetInactivity (s\<lparr>sv_node := n1\<rparr>)" w1])
         (simp_all add: processInactivity_def, simp_all add: ResetInactivity_def)
  qed
qed

lemma inactivity_tick_returns:
  assumes inv: "svc_inv s" and tick: "sv_tracker s = Ticking"
  obtains s' w' where "inactivity_tick env s w = (Ret s', w')" and "svc_inv s'"
    and "sv_tracker s' = AwaitStop \<longrightarrow> sv_inactiveTimeCount s = b_InactivityTime (basic (sv_node s)) \<and>
           IsClientUp (sv_node s') \<and> IsNodeBusy (sv_node s) = None"
proof (cases "sv_inactiveTimeCount s = b_InactivityTime (basic (sv_node s))")
  case False
  with count_inv [OF inv False] tick show thesis
    by (intro that [of "s\<lparr>sv_inactiveTimeCount := go_add (sv_inactiveTimeCount s) 1\<rparr>" w])
       (simp_all add: inactivity_tick_def)
next
  case True
  from inv tick obtain s' w' where "processInactivity env s w = (Ret s', w')" "svc_inv s'"
    "sv_tracker s' = AwaitStop \<longrightarrow> IsClientUp (sv_node s') \<and> IsNodeBusy (sv_node s) = None"
    by (rule processInactivity_returns)
  with True show thesis by (intro that [of s' w']) (simp_all add: inactivity_tick_def)
qed

lemma resume_inactivity_inv:
  "resume_inactivity s = Ret s' \<Longrightarrow> svc_inv s \<Longrightarrow> sv_tracker s = AwaitStop \<Longrightarrow> svc_inv s'"
  by (auto simp: resume_inactivity_def WaitStopClient_def svc_inv_def ResetInactivity_def split: option.split_asm)

lemma resync_fire_inv:
  "resync_fire s = Ret s' \<Longrightarrow> svc_inv s \<Longrightarrow> sv_resync s = ResyncIdle \<Longrightarrow> svc_inv s'"
  by (auto simp: resync_fire_def processResyncRequest_def RequestStartClient_def go_bind_eq_Ret svc_inv_def
      ResetInactivity_def split: if_splits)

lemma resume_resync_inv:
  "resume_resync s = Ret s' \<Longrightarrow> svc_inv s \<Longrightarrow> sv_resync s = AwaitStart \<Longrightarrow> svc_inv s'"
  by (auto simp: resume_resync_def WaitStartClient_def svc_inv_def split: option.split_asm)

lemma monitor_stop_inv:
  assumes "monitor_stop env s w = (Ret s', w')" and "svc_inv s" and "sv_stopClntCh s"
  shows "svc_inv s'"
proof -
  from assms(1) obtain b n1 where c: "StopClient env (sv_node s) w = (Ret (b, n1), w')"
    and s': "s' = s\<lparr>sv_node := n1, sv_stopClntCh := False, sv_stopClntCompleteCh := Some b\<rparr>"
    by (auto simp: monitor_stop_def io_bind_eq_Ret split: if_split_asm)
  from node_step_inv [OF assms(2) node_step.stop [OF c]] assms(3) show ?thesis
    by (simp add: s' svc_inv_def split: if_split_asm)
qed

lemma monitor_start_inv:
  assumes "monitor_start env s w = (Ret s', w')" and "svc_inv s" and "sv_startClntCh s"
  shows "svc_inv s'"
proof -
  from assms(1) obtain b n1 where c: "StartClient env (sv_node s) w = (Ret (b, n1), w')"
    and s': "s' = s\<lparr>sv_node := n1, sv_startClntCh := False, sv_startClntCompleteCh := Some b\<rparr>"
    by (auto simp: monitor_start_def io_bind_eq_Ret split: if_split_asm)
  from node_step_inv [OF assms(2) node_step.start [OF c]] assms(3) show ?thesis
    by (simp add: s' svc_inv_def split: if_split_asm)
qed

lemma status_tick_inv:
  assumes "status_tick env s w = (Ret s', w')" and "svc_inv s"
  shows "svc_inv s'"
proof -
  from assms(1) obtain up n1 where c: "CheckClientUpStatus env (\<not> sv_statusInit s) (sv_node s) w = (Ret (up, n1), w')"
    and s': "s' = s\<lparr>sv_node := n1, sv_statusInit := True\<rparr>"
    by (auto simp: status_tick_def io_bind_eq_Ret)
  from node_step_inv [OF assms(2) node_step.check [OF c]] show ?thesis by (simp add: s')
qed

lemma IsNodeUp_inv:
  assumes "IsNodeUp env s w = (Ret (b, s'), w')" and "svc_inv s"
  shows "svc_inv s'"
proof -
  from assms(1) obtain n1 where c: "CheckClientUpStatus env False (sv_node s) w = (Ret (b, n1), w')"
    and s': "s' = s\<lparr>sv_node := n1\<rparr>"
    by (auto simp: IsNodeUp_def io_bind_eq_Ret split: if_split_asm)
  from node_step_inv [OF assms(2) node_step.check [OF c]] show ?thesis by (simp add: s')
qed

lemma prepare_private_cases:
  assumes "prepare_private env s w = (Ret ((status, background), s'), w')"
  obtains (waiting) "s' = s" "\<not> status" "w' = w" "background \<longleftrightarrow> IsNodeBusy (sv_node s) = None"
      "IsNodeBusy (sv_node s) \<noteq> None \<or> \<not> IsClientUp (sv_node s)"
  | (up) n2 where "\<not> background" "IsNodeBusy (sv_node s) = None" "IsClientUp (sv_node s)"
      "StartClient env (sv_node s) w = (Ret (status, n2), w')" "s' = s\<lparr>sv_node := n2\<rparr>"
proof (cases "IsNodeBusy (sv_node s) = None \<and> IsClientUp (sv_node s)")
  case False
  with assms waiting show thesis by (auto simp: prepare_private_def split: if_split_asm)
next
  case True
  with assms up show thesis by (auto simp: prepare_private_def PrepareClient_def io_bind_eq_Ret)
qed

lemma prepare_private_inv:
  assumes "prepare_private env s w = (Ret (r, s'), w')" and "svc_inv s"
  shows "svc_inv s'"
proof -
  obtain status background where r: "r = (status, background)" by fastforce
  from assms(1) [unfolded r] show ?thesis
  proof (cases rule: prepare_private_cases)
    case waiting
    then show ?thesis using assms(2) by simp
  next
    case (up n2)
    with node_step_inv [OF assms(2) node_step.start] show ?thesis by metis
  qed
qed

lemma svc_step_inv: "svc_step env s s' \<Longrightarrow> svc_inv s \<Longrightarrow> svc_inv s'"
proof (induction rule: svc_step.induct)
  case (tick s w s' w')
  obtain t v where "inactivity_tick env s w = (Ret t, v)" "svc_inv t"
    by (rule inactivity_tick_returns [OF tick(3,1)])
  with tick show ?case by simp
next
  case (tracker_reset s)
  then show ?case using ResetInactivity_inv [of s] by (simp add: inactivity_reset_def)
next
  case (tracker_resume s s')
  then show ?case by (blast intro: resume_inactivity_inv)
next
  case (timer s s')
  then show ?case by (blast intro: resync_fire_inv)
next
  case (timer_reset s)
  then show ?case by (simp add: resync_reset_def)
next
  case (timer_resume s s')
  then show ?case by (blast intro: resume_resync_inv)
next
  case (serve_stop s w s' w')
  then show ?case by (blast intro: monitor_stop_inv)
next
  case (serve_start s w s' w')
  then show ?case by (blast intro: monitor_start_inv)
next
  case (status s w s' w')
  then show ?case by (blast intro: status_tick_inv)
next
  case (api_up s w b s' w')
  then show ?case by (blast intro: IsNodeUp_inv)
next
  case (api_prepare s w r s' w')
  then show ?case by (blast intro: prepare_private_inv)
next
  case (activity ch s)
  then show ?case by simp
next
  case (controller s n')
  then show ?case by (blast intro: node_step_inv)
qed

lemma prepare_private_basic:
  "prepare_private env s w = (Ret (r, s'), w') \<Longrightarrow> svc_inv s \<Longrightarrow> basic (sv_node s') = basic (sv_node s)"
  by (cases r) (auto elim!: prepare_private_cases dest!: node_step.start dest: node_step_basic simp: svc_inv_def)

text \<open>No step changes the configuration.\<close>

lemma svc_step_basic: "svc_step env s s' \<Longrightarrow> svc_inv s \<Longrightarrow> basic (sv_node s') = basic (sv_node s)"
proof (induction rule: svc_step.induct)
  case (tick s w s' w')
  then show ?case
    by (auto simp: inactivity_tick_def processInactivity_def RequestStopClient_def ResetInactivity_def svc_inv_def
        Let_def io_bind_eq_Ret dest!: node_step.check dest: node_step_basic split: if_split_asm)
next
  case (api_prepare s w r s' w')
  then show ?case by (blast intro: prepare_private_basic)
qed (auto simp: inactivity_reset_def ResetInactivity_def resume_inactivity_def WaitStopClient_def svc_inv_def
    resume_resync_def WaitStartClient_def monitor_start_def monitor_stop_def status_tick_def IsNodeUp_def
    resync_fire_def processResyncRequest_def RequestStartClient_def resync_reset_def go_bind_eq_Ret io_bind_eq_Ret
    dest!: node_step.check node_step.stop node_step.start dest: node_step_basic
    split: if_split_asm option.split_asm)

lemma svc_reach_inv: "svc_reach env s0 s \<Longrightarrow> svc_inv s0 \<Longrightarrow> svc_inv s"
  by (induction rule: svc_reach.induct) (auto intro: svc_step_inv)

lemma svc_reach_basic: "svc_reach env s0 s \<Longrightarrow> svc_inv s0 \<Longrightarrow> basic (sv_node s) = basic (sv_node s0)"
  by (induction rule: svc_reach.induct) (auto simp: svc_step_basic svc_reach_inv)

lemma svc_inv_start:
  "nc_wf n \<Longrightarrow> 0 \<le> b_InactivityTime (basic n) \<Longrightarrow> b_InactivityTime (basic n) < 2 ^ 62 \<Longrightarrow>
     svc_inv (started n)"
  by (simp add: svc_inv_def started_def)

lemma NodeControl_Start_Ret:
  "NodeControl_Start n = Ret s \<longleftrightarrow> 0 < go_mul (b_UpchkPollingInterval (basic n)) Second \<and> s = started n"
  by (auto simp: NodeControl_Start_def)

section \<open>Waiting for a channel\<close>

lemma svc_reach_trans: "svc_reach env s1 s2 \<Longrightarrow> svc_reach env s0 s1 \<Longrightarrow> svc_reach env s0 s2"
  by (induction rule: svc_reach.induct) (auto intro: svc_reach.step)

lemma send_reset_sends:
  assumes "send_reset turn ch s w = (Ret s', w')" and "turn_ok env turn"
  obtains r where "svc_reach env s r" and "\<not> full ch r" and "s' = fill ch r"
proof (cases "full ch s")
  case False
  with assms(1) show thesis by (intro that [of s]) (simp_all add: send_reset_def svc_reach.refl)
next
  case True
  with assms(1) obtain r where t: "turn ch s w = Some (r, w')" "s' = fill ch r"
    by (auto simp: send_reset_def split: option.split_asm)
  with assms(2) have "svc_reach env s r" "\<not> full ch r" unfolding turn_ok_def by blast+
  from this t(2) show thesis by (rule that)
qed

text \<open>
  \<open>ResetInactiveSyncTime\<close> fills the first channel in some state that the other goroutines have
  reached, and with a resync timer afterwards the second one.
\<close>

lemma ResetInactiveSyncTime_sends:
  assumes "ResetInactiveSyncTime turn s w = (Ret s', w')" and "turn_ok env turn" and "svc_inv s"
  obtains r where "svc_reach env s r" and "\<not> sv_inactivityResetCh r"
    and "svc_reach env (r\<lparr>sv_inactivityResetCh := True\<rparr>) s'"
    and "if IsResyncTimerSet (basic (sv_node s)) then sv_syncResetCh s' else s' = r\<lparr>sv_inactivityResetCh := True\<rparr>"
proof -
  from assms(1) obtain s1 w1 where a: "send_reset turn InactivityResetCh s w = (Ret s1, w1)" and
    b: "(if IsResyncTimerSet (basic (sv_node s1)) then send_reset turn SyncResetCh s1 w1 else (Ret s1, w1)) = (Ret s', w')"
    unfolding ResetInactiveSyncTime_def by (rule io_bindE)
  obtain r where r: "svc_reach env s r" "\<not> full InactivityResetCh r" "s1 = fill InactivityResetCh r"
    by (rule send_reset_sends [OF a assms(2)])
  have same: "basic (sv_node s1) = basic (sv_node s)" using svc_reach_basic [OF r(1) assms(3)] by (simp add: r(3))
  show thesis
  proof (cases "IsResyncTimerSet (basic (sv_node s))")
    case False
    with b r same show thesis by (intro that [of r]) (simp_all add: svc_reach.refl)
  next
    case True
    with b same have "send_reset turn SyncResetCh s1 w1 = (Ret s', w')" by simp
    then obtain q where q: "svc_reach env s1 q" "\<not> full SyncResetCh q" "s' = fill SyncResetCh q"
      by (rule send_reset_sends [OF _ assms(2)])
    have "svc_inv s1" using svc_reach_inv [OF r(1) assms(3)] by (simp add: r(3))
    with q(1) have "basic (sv_node q) = basic (sv_node s1)" by (rule svc_reach_basic)
    with True same q svc_step.activity [OF q(2)] have "svc_reach env s1 s'" by (simp add: svc_reach.step)
    with True q(3) r show thesis by (intro that [of r]) simp_all
  qed
qed

lemma ResetInactiveSyncTime_reach:
  assumes "ResetInactiveSyncTime turn s w = (Ret s', w')" and "turn_ok env turn" and "svc_inv s"
  shows "svc_reach env s s'"
proof -
  obtain r where r: "svc_reach env s r" "\<not> sv_inactivityResetCh r" and f: "svc_reach env (r\<lparr>sv_inactivityResetCh := True\<rparr>) s'"
    by (rule ResetInactiveSyncTime_sends [OF assms])
  have "svc_reach env s (r\<lparr>sv_inactivityResetCh := True\<rparr>)"
    using svc_reach.step [OF r(1) svc_step.activity [of InactivityResetCh r]] r(2) by simp
  with f show ?thesis by (rule svc_reach_trans)
qed

lemma PrepareForPrivateTx_reach:
  assumes "PrepareForPrivateTx env turn s w = (Ret (r, s'), w')" and "turn_ok env turn" and "svc_inv s"
  shows "svc_reach env s s'"
proof -
  from assms(1) obtain s1 w1 where a: "ResetInactiveSyncTime turn s w = (Ret s1, w1)"
    and b: "prepare_private env s1 w1 = (Ret (r, s'), w')"
    unfolding PrepareForPrivateTx_def by (rule io_bindE)
  from ResetInactiveSyncTime_reach [OF a assms(2,3)] svc_step.api_prepare [OF b] show ?thesis
    by (rule svc_reach.step)
qed

section \<open>No stop before the limit, one start per timer\<close>

text \<open>Seconds of silence: \<open>k\<close> ticks of the tracker with nothing else in between.\<close>

primrec ticks :: "'w env \<Rightarrow> nat \<Rightarrow> 'w Service \<Rightarrow> 'w \<Rightarrow> 'w Service go \<times> 'w" where
  "ticks env 0 s w = (Ret s, w)"
| "ticks env (Suc k) s w = io_bind (inactivity_tick env s w) (ticks env k)"

lemma ticks_below_limit:
  assumes "svc_inv s" and "sv_inactiveTimeCount s + int k \<le> b_InactivityTime (basic (sv_node s))"
  shows "ticks env k s w = (Ret (s\<lparr>sv_inactiveTimeCount := sv_inactiveTimeCount s + int k\<rparr>), w)"
  using assms
proof (induction k arbitrary: s)
  case (Suc k)
  let ?s = "s\<lparr>sv_inactiveTimeCount := sv_inactiveTimeCount s + 1\<rparr>"
  have ne: "sv_inactiveTimeCount s \<noteq> b_InactivityTime (basic (sv_node s))" using Suc.prems(2) by simp
  have add: "go_add (sv_inactiveTimeCount s) 1 = sv_inactiveTimeCount s + 1"
    using Suc.prems(1) ne by (simp add: svc_inv_def go_add_def)
  have "svc_inv ?s" using count_inv [OF Suc.prems(1) ne] add by simp
  with Suc.IH [of ?s] Suc.prems(2) ne add show ?case by (simp add: inactivity_tick_def add.commute add.left_commute)
qed simp

text \<open>
  Only a reset of the timer by a request arms it again: an unarmed timer stays so on every path
  without such a request.
\<close>

inductive svc_quiet :: "'w env \<Rightarrow> 'w Service \<Rightarrow> 'w Service \<Rightarrow> bool" for env s0 where
  refl: "svc_quiet env s0 s0"
| step: "svc_quiet env s0 s \<Longrightarrow> svc_step env s s' \<Longrightarrow> \<not> sv_syncResetCh s' \<Longrightarrow> svc_quiet env s0 s'"

lemma svc_step_unarmed:
  assumes "svc_step env s s'" and "\<not> sv_timer s" and "\<not> sv_syncResetCh s" and "svc_inv s"
  shows "\<not> sv_timer s'"
  using assms
proof (induction rule: svc_step.induct)
  case (tick s w s' w')
  then show ?case
    by (auto simp: inactivity_tick_def processInactivity_def RequestStopClient_def ResetInactivity_def
        Let_def io_bind_eq_Ret split: if_split_asm)
qed (auto simp: inactivity_reset_def ResetInactivity_def resume_inactivity_def WaitStopClient_def
    resume_resync_def WaitStartClient_def monitor_start_def
    go_bind_eq_Ret monitor_stop_def status_tick_def IsNodeUp_def io_bind_eq_Ret
    split: if_split_asm option.split_asm elim!: prepare_private_cases)

lemma svc_quiet_unarmed:
  assumes "svc_quiet env s0 s" and "\<not> sv_timer s0" and "\<not> sv_syncResetCh s0" and "svc_inv s0"
  shows "\<not> sv_timer s \<and> \<not> sv_syncResetCh s \<and> svc_inv s"
  using assms(1)
proof (induction rule: svc_quiet.induct)
  case refl
  with assms show ?case by simp
next
  case (step s s')
  with svc_step_unarmed [OF step.hyps(2)] svc_step_inv [OF step.hyps(2)] show ?case by blast
qed

lemma resync_fire_unarmed:
  assumes "resync_fire s = Ret s'" and "\<not> sv_syncResetCh s"
  shows "\<not> sv_timer s'" and "\<not> sv_syncResetCh s'"
  using assms
  by (auto simp: resync_fire_def processResyncRequest_def RequestStartClient_def ResetInactivity_def
      go_bind_eq_Ret split: if_split_asm)

end
