(* ===== verification/Proxy_Server.thy ===== *)
theory Proxy_Server
  imports Node_Service
begin

text \<open>
  Package \<open>proxy\<close>: building the proxies (\<open>proxy/core.go\<close>, \<open>proxy/server.go\<close>), the HTTP handler
  (\<open>proxy/http.go\<close>) and the WebSocket one (\<open>proxy/websocket.go\<close>). Forwarding itself is done by
  \<open>httputil.ReverseProxy\<close> and by the WebSocket library: here it is the value that is handed to
  them. The handlers share the service state of the node.
\<close>

section \<open>Headers\<close>

text \<open>\<open>http.Header\<close>, with canonical keys; the order of the values of a key matters.\<close>

type_synonym header = "(string \<times> string list) list"

definition is_token :: "char \<Rightarrow> bool" where
  "is_token c = (let n = (of_char c :: nat) in
     48 \<le> n \<and> n \<le> 57 \<or> 65 \<le> n \<and> n \<le> 90 \<or> 97 \<le> n \<and> n \<le> 122 \<or>
     n \<in> {33, 35, 36, 37, 38, 39, 42, 43, 45, 46, 94, 95, 96, 124, 126})"

fun canon_chars :: "bool \<Rightarrow> string \<Rightarrow> string" where
  "canon_chars up [] = []"
| "canon_chars up (c # cs) = (if up then upper_char c else lower_char c) # canon_chars (c = CHR ''-'') cs"

definition CanonicalHeaderKey :: "string \<Rightarrow> string" where
  "CanonicalHeaderKey k = (if list_all is_token k then canon_chars True k else k)"

definition header_values :: "header \<Rightarrow> string \<Rightarrow> string list" where
  "header_values h k = (case map_of h k of None \<Rightarrow> [] | Some vs \<Rightarrow> vs)"

definition header_Add :: "header \<Rightarrow> string \<Rightarrow> string \<Rightarrow> header" where
  "header_Add h k v = (let c = CanonicalHeaderKey k in AList.update c (header_values h c @ [v]) h)"

definition header_Set :: "header \<Rightarrow> string \<Rightarrow> string \<Rightarrow> header" where
  "header_Set h k v = AList.update (CanonicalHeaderKey k) [v] h"

definition header_Get :: "header \<Rightarrow> string \<Rightarrow> string" where
  "header_Get h k = (case header_values h (CanonicalHeaderKey k) of [] \<Rightarrow> '''' | v # vs \<Rightarrow> v)"

definition copyHeader :: "header \<Rightarrow> header \<Rightarrow> header" where
  "copyHeader dst src = foldl (\<lambda>d (k, vv). foldl (\<lambda>d v. header_Add d k v) d vv) dst src"

section \<open>Proxy servers\<close>

datatype proxy_kind = HttpHandler "tls_config option option" | WSHandler string | NoHandler

record ProxyServer =
  ps_proxyCfg :: Proxy
  ps_ignorePathMap :: "(string \<times> bool) list"
  ps_paths :: "string list"
  ps_handler :: proxy_kind
  ps_Addr :: string
  ps_WriteTimeout :: int
  ps_ReadTimeout :: int
  ps_TLSConfig :: "tls_config option option"

definition CanIgnoreRequest :: "ProxyServer \<Rightarrow> string \<Rightarrow> bool" where
  "CanIgnoreRequest ps req \<longleftrightarrow> has_key (ps_ignorePathMap ps) req"

text \<open>\<open>ServeMux.Handle\<close> panics on an empty pattern and on one that is registered already.\<close>

fun mux_handle :: "string list \<Rightarrow> string list \<Rightarrow> string list go" where
  "mux_handle reg [] = Ret reg"
| "mux_handle reg (p # ps) =
     (if p = '''' then Panic ''http: invalid pattern''
      else if p \<in> set reg then Panic ''http: multiple registrations''
      else mux_handle (reg @ [p]) ps)"

fun ignore_paths :: "string list \<Rightarrow> (string \<times> bool) list \<Rightarrow> (string \<times> bool) list" where
  "ignore_paths [] m = m"
| "ignore_paths (p # ps) m = ignore_paths ps (AList.update p True m)"

definition proxy_handler :: "Proxy \<Rightarrow> proxy_kind" where
  "proxy_handler c =
     (if IsHttp c then HttpHandler (map_option ct_TlsCfg (px_ClientTLSConfig c))
      else if IsWS c then WSHandler (px_UpstreamAddr c)
      else NoHandler)"

definition NewProxyServer :: "'w env \<Rightarrow> Proxy \<Rightarrow> (err + ProxyServer) go" where
  "NewProxyServer env pc =
     (case url_parse env (px_UpstreamAddr pc) of
        Some e \<Rightarrow> Ret (Inl e)
      | None \<Rightarrow>
          go_bind (if proxy_handler pc = NoHandler then Ret [] else mux_handle [] (px_ProxyPaths pc)) (\<lambda>paths.
            Ret (Inr \<lparr>ps_proxyCfg = pc, ps_ignorePathMap = ignore_paths (px_IgnorePathsForActivity pc) [],
              ps_paths = paths, ps_handler = proxy_handler pc, ps_Addr = px_ProxyAddr pc,
              ps_WriteTimeout = go_mul (px_WriteTimeout pc) Second,
              ps_ReadTimeout = go_mul (px_ReadTimeout pc) Second,
              ps_TLSConfig = map_option st_TlsCfg (px_ProxyServerTLSConfig pc)\<rparr>)))"

fun MakeProxyServices :: "'w env \<Rightarrow> Proxy option list \<Rightarrow> (err + ProxyServer list) go" where
  "MakeProxyServices env [] = Ret (Inr [])"
| "MakeProxyServices env (None # cs) = Panic ''nil pointer dereference''"
| "MakeProxyServices env (Some c # cs) =
     go_bind (NewProxyServer env c) (\<lambda>r. case r of
       Inl e \<Rightarrow> Ret (Inl e)
     | Inr p \<Rightarrow> go_bind (MakeProxyServices env cs) (\<lambda>rs. Ret (map_sum id ((#) p) rs)))"

section \<open>Private transactions\<close>

definition ErrParticipantsDown :: err where "ErrParticipantsDown = SomeParticipantsDown"
definition ErrNodeNotReady :: err where "ErrNodeNotReady = NodeIsNotReadyToAcceptRequest"

text \<open>A \<open>nil\<close> error prints as \<open><nil>\<close>; a node without a transaction handler panics here.\<close>

definition HandlePrivateTx :: "'w env \<Rightarrow> string \<Rightarrow> 'w Service \<Rightarrow> 'w \<Rightarrow> (err option \<times> 'w Service) go \<times> 'w" where
  "HandlePrivateTx env body s w =
     (case nc_txh (sv_node s) of
        None \<Rightarrow> (Panic ''nil pointer dereference'', w)
      | Some QuorumTxHandler \<Rightarrow>
          io_bind (IsPrivateTx body, w) (\<lambda>(participants, err) w1.
            case err of
              Some e \<Rightarrow> (Ret (Some e, s), w1)
            | None \<Rightarrow>
                if participants = [] then (Ret (None, s), w1)
                else
                  io_bind (PrepareNodeHibernatorForPrivateTx env participants (sv_node s) w1) (\<lambda>((status, perr), n1) w2.
                    (let s1 = s\<lparr>sv_node := n1\<rparr> in
                     case perr of
                       Some e \<Rightarrow> (Ret (Some (''HandlePrivateTx - preparePrivateTx failed err='' @ e), s1), w2)
                     | None \<Rightarrow>
                         if \<not> status then
                           (Ret (Some ''HandlePrivateTx - preparePrivateTx failed some participants are down err=<nil>'', s1), w2)
                         else (Ret (None, s1), w2)))))"

section \<open>The HTTP handler\<close>

record proxy_request =
  rq_RequestURI :: string
  rq_Body :: "err + string"

datatype proxy_reply = HttpError string int | Forward string string

definition StatusInternalServerError :: int where "StatusInternalServerError = 500"

definition http_handler :: "'w env \<Rightarrow> 'w turn \<Rightarrow> ProxyServer \<Rightarrow> 'w Service \<Rightarrow> proxy_request \<Rightarrow> 'w
    \<Rightarrow> (proxy_reply \<times> 'w Service) go \<times> 'w" where
  "http_handler env turn ps s req w =
     (case IsNodeBusy (sv_node s) of
        Some e \<Rightarrow> (Ret (HttpError e StatusInternalServerError, s), w)
      | None \<Rightarrow>
          (case rq_Body req of
             Inl e \<Rightarrow> (Ret (HttpError ''Reading request failed'' StatusInternalServerError, s), w)
           | Inr body \<Rightarrow>
               if CanIgnoreRequest ps (rq_RequestURI req) then (Ret (Forward (rq_RequestURI req) body, s), w)
               else
                 io_bind (ResetInactiveSyncTime turn s w) (\<lambda>s1 w1.
                   io_bind (PrepareClient env (sv_node s1) w1) (\<lambda>(prepared, n2) w2.
                     (let s2 = s1\<lparr>sv_node := n2\<rparr> in
                      if \<not> prepared then (Ret (HttpError ErrNodeNotReady StatusInternalServerError, s2), w2)
                      else if nc_withPrivMan (sv_node s2) then
                        io_bind (HandlePrivateTx env body s2 w2) (\<lambda>(err, s3) w3.
                          (if err \<noteq> None then
                             (Ret (HttpError ErrParticipantsDown StatusInternalServerError, s3), w3)
                           else (Ret (Forward (rq_RequestURI req) body, s3), w3)))
                      else (Ret (Forward (rq_RequestURI req) body, s2), w2))))))"

section \<open>Facts\<close>

lemma header_values_Add: "header_values (header_Add h k v) c =
    (if c = CanonicalHeaderKey k then header_values h c @ [v] else header_values h c)"
  by (simp add: header_Add_def header_values_def Let_def update_conv')

lemma header_values_Set: "header_values (header_Set h k v) c =
    (if c = CanonicalHeaderKey k then [v] else header_values h c)"
  by (simp add: header_Set_def header_values_def update_conv')

lemma header_values_Nil [simp]: "header_values [] c = []"
  by (simp add: header_values_def)

text \<open>Copying headers appends, for every key, the values of the source keys with that canonical form.\<close>

lemma header_values_add_all:
  "header_values (foldl (\<lambda>d v. header_Add d k v) d vv) c =
     header_values d c @ (if c = CanonicalHeaderKey k then vv else [])"
  by (induction vv arbitrary: d) (auto simp: header_values_Add)

lemma header_values_copy:
  "header_values (copyHeader dst src) c =
     header_values dst c @ concat (map (\<lambda>(k, vv). if CanonicalHeaderKey k = c then vv else []) src)"
  unfolding copyHeader_def
proof (induction src arbitrary: dst)
  case (Cons e src)
  obtain k vv where "e = (k, vv)" by fastforce
  with Cons show ?case by (simp add: header_values_add_all)
qed simp

lemma has_key_ignore_paths: "has_key (ignore_paths ps m) p \<longleftrightarrow> p \<in> set ps \<or> has_key m p"
  by (induction ps arbitrary: m) (auto simp: has_key_def update_conv')

lemma CanIgnoreRequest_iff:
  "NewProxyServer env pc = Ret (Inr ps) \<Longrightarrow> CanIgnoreRequest ps req \<longleftrightarrow> req \<in> set (px_IgnorePathsForActivity pc)"
  by (auto simp: NewProxyServer_def go_bind_eq_Ret CanIgnoreRequest_def has_key_ignore_paths has_key_def [of "[]"]
      split: option.split_asm)

text \<open>No error means: not a private transaction, or all participants are ready.\<close>

lemma HandlePrivateTx_None:
  assumes "HandlePrivateTx env body s w = (Ret (None, s'), w')"
  shows "nc_txh (sv_node s) \<noteq> None"
    and "\<exists>keys. IsPrivateTx body = Ret (keys, None) \<and> (keys = [] \<and> s' = s \<and> w' = w \<or>
      (\<exists>n1. PrepareNodeHibernatorForPrivateTx env keys (sv_node s) w = (Ret ((True, None), n1), w') \<and> s' = s\<lparr>sv_node := n1\<rparr>))"
proof -
  show t: "nc_txh (sv_node s) \<noteq> None" using assms by (cases "nc_txh (sv_node s)") (simp_all add: HandlePrivateTx_def)
  then obtain h where "nc_txh (sv_node s) = Some h" by blast
  then have txh: "nc_txh (sv_node s) = Some QuorumTxHandler" by (cases h) simp
  from assms txh obtain keys where k: "IsPrivateTx body = Ret (keys, None)"
    by (auto simp: HandlePrivateTx_def io_bind_eq_Ret split: option.split_asm)
  show "\<exists>keys. IsPrivateTx body = Ret (keys, None) \<and> (keys = [] \<and> s' = s \<and> w' = w \<or>
      (\<exists>n1. PrepareNodeHibernatorForPrivateTx env keys (sv_node s) w = (Ret ((True, None), n1), w') \<and> s' = s\<lparr>sv_node := n1\<rparr>))"
  proof (cases "keys = []")
    case True
    with assms txh k show ?thesis by (simp add: HandlePrivateTx_def)
  next
    case False
    with assms txh k have "io_bind (PrepareNodeHibernatorForPrivateTx env keys (sv_node s) w) (\<lambda>((status, perr), n1) w2.
        (let s1 = s\<lparr>sv_node := n1\<rparr> in
         case perr of
           Some e \<Rightarrow> (Ret (Some (''HandlePrivateTx - preparePrivateTx failed err='' @ e), s1), w2)
         | None \<Rightarrow>
             if \<not> status then
               (Ret (Some ''HandlePrivateTx - preparePrivateTx failed some participants are down err=<nil>'', s1), w2)
             else (Ret (None, s1), w2))) = (Ret (None, s'), w')" by (simp add: HandlePrivateTx_def)
    with k False show ?thesis
      by (auto simp: io_bind_eq_Ret Let_def split: option.split_asm if_split_asm)
  qed
qed

text \<open>
  What holds when a request is handed to the reverse proxy. \<open>s1\<close> is the service after the reset of
  the timers, for which the handler may have waited.
\<close>

lemma http_handler_Forward:
  assumes "http_handler env turn ps s req w = (Ret (Forward u b, s'), w')"
  shows "IsNodeBusy (sv_node s) = None" and "u = rq_RequestURI req" and "rq_Body req = Inr b"
    and "CanIgnoreRequest ps (rq_RequestURI req) \<Longrightarrow> s' = s \<and> w' = w"
    and "\<not> CanIgnoreRequest ps (rq_RequestURI req) \<Longrightarrow> \<exists>s1 w1 n2 w2.
      ResetInactiveSyncTime turn s w = (Ret s1, w1) \<and> StartClient env (sv_node s1) w1 = (Ret (True, n2), w2) \<and>
      (if nc_withPrivMan n2 then HandlePrivateTx env b (s1\<lparr>sv_node := n2\<rparr>) w2 = (Ret (None, s'), w')
       else s' = s1\<lparr>sv_node := n2\<rparr> \<and> w' = w2)"
proof -
  show busy: "IsNodeBusy (sv_node s) = None"
    using assms(1) by (auto simp: http_handler_def split: option.split_asm)
  from assms(1) busy obtain b' where b': "rq_Body req = Inr b'"
    by (auto simp: http_handler_def split: sum.split_asm)
  show body: "rq_Body req = Inr b" and "u = rq_RequestURI req"
    using assms(1) busy b'
    by (auto simp: http_handler_def io_bind_eq_Ret Let_def split: if_split_asm)
  show "CanIgnoreRequest ps (rq_RequestURI req) \<Longrightarrow> s' = s \<and> w' = w"
    using assms(1) busy body by (auto simp: http_handler_def)
  show "\<exists>s1 w1 n2 w2.
      ResetInactiveSyncTime turn s w = (Ret s1, w1) \<and> StartClient env (sv_node s1) w1 = (Ret (True, n2), w2) \<and>
      (if nc_withPrivMan n2 then HandlePrivateTx env b (s1\<lparr>sv_node := n2\<rparr>) w2 = (Ret (None, s'), w')
       else s' = s1\<lparr>sv_node := n2\<rparr> \<and> w' = w2)" if "\<not> CanIgnoreRequest ps (rq_RequestURI req)"
  proof -
    from assms(1) busy body that obtain s1 w1 x w2 where s1: "ResetInactiveSyncTime turn s w = (Ret s1, w1)"
      and x: "StartClient env (sv_node s1) w1 = (Ret x, w2)"
      by (auto simp: http_handler_def PrepareClient_def elim!: io_bindE)
    obtain up n2 where st: "x = (up, n2)" by fastforce
    with assms(1) busy body that s1 x have up: up
      by (cases up) (simp_all add: http_handler_def PrepareClient_def)
    with st x assms(1) busy body that s1 show ?thesis
      by (auto simp: http_handler_def PrepareClient_def io_bind_eq_Ret split: if_split_asm)
  qed
qed

text \<open>
  A node with a privacy manager but without a transaction handler, which is what a Besu
  configuration gives, panics on every request that counts as activity.
\<close>

lemma http_handler_no_txh:
  assumes "nc_txh (sv_node s) = None" and "nc_withPrivMan (sv_node s)" and "IsClientUp (sv_node s)"
    and "IsNodeBusy (sv_node s) = None" and "rq_Body req = Inr b" and "\<not> CanIgnoreRequest ps (rq_RequestURI req)"
    and "\<not> sv_inactivityResetCh s" and "\<not> sv_syncResetCh s"
  shows "panics (fst (http_handler env turn ps s req w))"
  using assms
  by (simp add: http_handler_def ResetInactiveSyncTime_room PrepareClient_def StartClient_def HandlePrivateTx_def Let_def)

end
