(* ===== verification/Websocket.thy ===== *)
theory Websocket
  imports Proxy_Server
begin

text \<open>
  \<open>proxy/websocket.go\<close>: the headers for the backend, the admission of a connection, and the loop
  that copies messages one way. The WebSocket library is third-party: the messages that a
  connection delivers and the errors of writes are arguments.
\<close>

section \<open>Headers for the backend\<close>

record ws_request =
  wr_Header :: header
  wr_Host :: string
  wr_RemoteAddr :: string
  wr_TLS :: bool

text \<open>\<open>net.SplitHostPort\<close>: the host, if the address has the form \<open>host:port\<close> or \<open>[host]:port\<close>.\<close>

definition last_index :: "char \<Rightarrow> string \<Rightarrow> nat option" where
  "last_index c s = (if c \<in> set s then Some (length s - 1 - length (takeWhile (\<lambda>d. d \<noteq> c) (rev s))) else None)"

definition first_index :: "char \<Rightarrow> string \<Rightarrow> nat option" where
  "first_index c s = (if c \<in> set s then Some (length (takeWhile (\<lambda>d. d \<noteq> c) s)) else None)"

definition SplitHostPort :: "string \<Rightarrow> string option" where
  "SplitHostPort s =
     (case last_index (CHR '':'') s of
        None \<Rightarrow> None
      | Some i \<Rightarrow>
          if hd s = CHR ''['' then
            (case first_index (CHR '']'') s of
               None \<Rightarrow> None
             | Some e \<Rightarrow>
                 if e + 1 \<noteq> i then None
                 else if CHR ''['' \<in> set (drop 1 s) \<or> CHR '']'' \<in> set (drop (e + 1) s) then None
                 else Some (take (e - 1) (drop 1 s)))
          else if CHR '':'' \<in> set (take i s) then None
          else if CHR ''['' \<in> set s \<or> CHR '']'' \<in> set s then None
          else Some (take i s))"

fun join_comma :: "string list \<Rightarrow> string" where
  "join_comma [] = ''''"
| "join_comma [s] = s"
| "join_comma (s # ss) = s @ '', '' @ join_comma ss"

definition add_all :: "string \<Rightarrow> string list \<Rightarrow> header \<Rightarrow> header" where
  "add_all k vs h = foldl (\<lambda>h v. header_Add h k v) h vs"

definition add_if :: "bool \<Rightarrow> string \<Rightarrow> string \<Rightarrow> header \<Rightarrow> header" where
  "add_if b k v h = (if b then header_Add h k v else h)"

definition forwarded_for :: "ws_request \<Rightarrow> header \<Rightarrow> header" where
  "forwarded_for req h =
     (case SplitHostPort (wr_RemoteAddr req) of
        None \<Rightarrow> h
      | Some clientIP \<Rightarrow>
          (let ip = (case map_of (wr_Header req) ''X-Forwarded-For'' of
                 None \<Rightarrow> clientIP | Some prior \<Rightarrow> join_comma prior @ '', '' @ clientIP)
           in header_Set h ''X-Forwarded-For'' ip))"

definition request_header :: "ws_request \<Rightarrow> header" where
  "request_header req =
     (let in_h = wr_Header req;
          h1 = add_if (header_Get in_h ''Origin'' \<noteq> '''') ''Origin'' (header_Get in_h ''Origin'') [];
          h2 = add_if (header_Get in_h ''Authorization'' \<noteq> '''') ''Authorization'' (header_Get in_h ''Authorization'') h1;
          h3 = add_all ''Sec-WebSocket-Protocol'' (header_values in_h (CanonicalHeaderKey ''Sec-WebSocket-Protocol'')) h2;
          h4 = add_all ''Cookie'' (header_values in_h (CanonicalHeaderKey ''Cookie'')) h3;
          h5 = (if wr_Host req \<noteq> '''' then header_Set h4 ''Host'' (wr_Host req) else h4);
          h6 = forwarded_for req h5;
          h7 = header_Set h6 ''X-Forwarded-Proto'' ''http''
      in if wr_TLS req then header_Set h7 ''X-Forwarded-Proto'' ''https'' else h7)"

definition upgrade_header :: "header \<Rightarrow> header" where
  "upgrade_header resp =
     (let h1 = (if header_Get resp ''Sec-Websocket-Protocol'' \<noteq> ''''
                then header_Set [] ''Sec-Websocket-Protocol'' (header_Get resp ''Sec-Websocket-Protocol'') else [])
      in if header_Get resp ''Set-Cookie'' \<noteq> '''' then header_Set h1 ''Set-Cookie'' (header_Get resp ''Set-Cookie'')
         else h1)"

section \<open>Admission\<close>

text \<open>
  \<open>ServeHTTP\<close> until it dials: an error reply, or the headers for the backend. The constructor always
  sets \<open>Backend\<close> and leaves \<open>Director\<close> unset.
\<close>

datatype ws_admission = WsError string int | WsDial header

definition ws_admit :: "'w env \<Rightarrow> 'w Service \<Rightarrow> ws_request \<Rightarrow> 'w \<Rightarrow> (ws_admission \<times> 'w Service) go \<times> 'w" where
  "ws_admit env s req w =
     io_bind (PrepareClient env (sv_node s) w) (\<lambda>(up, n1) w1.
       if up then (Ret (WsDial (request_header req), s\<lparr>sv_node := n1\<rparr>), w1)
       else (Ret (WsError ''Failed to start the node'' StatusInternalServerError, s\<lparr>sv_node := n1\<rparr>), w1))"

section \<open>Copying messages\<close>

datatype ws_err = CloseError int string | OtherError err

text \<open>Frames written to the destination; the text of a close error is the library's.\<close>

datatype frame = DataFrame int string | CloseFrame int string

definition CloseNormalClosure :: int where "CloseNormalClosure = 1000"
definition CloseNoStatusReceived :: int where "CloseNoStatusReceived = 1005"

definition close_frame :: "(int \<Rightarrow> string \<Rightarrow> string) \<Rightarrow> ws_err \<Rightarrow> frame" where
  "close_frame close_text err =
     (case err of
        CloseError code txt \<Rightarrow>
          if code \<noteq> CloseNoStatusReceived then CloseFrame code txt
          else CloseFrame CloseNormalClosure (close_text code txt)
      | OtherError e \<Rightarrow> CloseFrame CloseNormalClosure e)"

text \<open>
  How a copy loop ends: with what it sends on its error channel (possibly \<open>nil\<close>), by returning
  without sending, or not yet, waiting for the next message.
\<close>

datatype ws_end = Sent "ws_err option" | Silent | Reading

definition admit_message :: "'w env \<Rightarrow> 'w turn \<Rightarrow> string \<Rightarrow> 'w Service \<Rightarrow> 'w
    \<Rightarrow> ((ws_err option \<times> ws_end) option \<times> 'w Service) go \<times> 'w" where
  "admit_message env turn msg s w =
     (case IsNodeBusy (sv_node s) of
        Some e \<Rightarrow> (Ret (Some (Some (OtherError e), Silent), s), w)
      | None \<Rightarrow>
          io_bind (ResetInactiveSyncTime turn s w) (\<lambda>s1 w1.
            io_bind (PrepareClient env (sv_node s1) w1) (\<lambda>(prepared, n2) w2.
              (let s2 = s1\<lparr>sv_node := n2\<rparr> in
               if \<not> prepared then (Ret (Some (Some (OtherError ErrNodeNotReady), Sent None), s2), w2)
               else
                 io_bind (HandlePrivateTx env msg s2 w2) (\<lambda>(err, s3) w3.
                   (case err of
                      Some e \<Rightarrow> (Ret (Some (Some (OtherError ErrParticipantsDown), Sent (Some (OtherError e))), s3), w3)
                    | None \<Rightarrow> (Ret (None, s3), w3)))))))"

text \<open>
  The loop on the messages that the source delivers, the last of which may be a read error; the
  frames are in the order they are written. \<open>wr\<close> is the error of the library's \<open>WriteMessage\<close> of
  a data frame, if any.
\<close>

fun replicateWebsocketConn ::
  "'w env \<Rightarrow> 'w turn \<Rightarrow> (int \<Rightarrow> string \<Rightarrow> string) \<Rightarrow> (int \<Rightarrow> string \<Rightarrow> 'w \<Rightarrow> ws_err option \<times> 'w) \<Rightarrow> bool
   \<Rightarrow> (ws_err + int \<times> string) list \<Rightarrow> 'w Service \<Rightarrow> 'w \<Rightarrow> ((frame list \<times> ws_end) \<times> 'w Service) go \<times> 'w" where
  "replicateWebsocketConn env turn close_text wr fromSource [] s w = (Ret (([], Reading), s), w)"
| "replicateWebsocketConn env turn close_text wr fromSource (Inl e # ms) s w =
     (Ret (([close_frame close_text e], Sent (Some e)), s), w)"
| "replicateWebsocketConn env turn close_text wr fromSource (Inr (msgType, msg) # ms) s w =
     io_bind (if fromSource then admit_message env turn msg s w else (Ret (None, s), w)) (\<lambda>(verdict, s1) w1.
       case verdict of
         Some (closing, fin) \<Rightarrow>
           (Ret ((case closing of None \<Rightarrow> [] | Some e \<Rightarrow> [close_frame close_text e], fin), s1), w1)
       | None \<Rightarrow>
           (let (werr, w2) = wr msgType msg w1 in
            case werr of
              Some e \<Rightarrow> (Ret (([], Sent (Some e)), s1), w2)
            | None \<Rightarrow>
                io_bind (replicateWebsocketConn env turn close_text wr fromSource ms s1 w2) (\<lambda>((fs, fin), s2) w3.
                  (Ret ((DataFrame msgType msg # fs, fin), s2), w3))))"

section \<open>Facts\<close>

lemma canonical_keys [simp]:
  "CanonicalHeaderKey ''Origin'' = ''Origin''"
  "CanonicalHeaderKey ''Authorization'' = ''Authorization''"
  "CanonicalHeaderKey ''Sec-WebSocket-Protocol'' = ''Sec-Websocket-Protocol''"
  "CanonicalHeaderKey ''Sec-Websocket-Protocol'' = ''Sec-Websocket-Protocol''"
  "CanonicalHeaderKey ''Cookie'' = ''Cookie''"
  "CanonicalHeaderKey ''Host'' = ''Host''"
  "CanonicalHeaderKey ''X-Forwarded-For'' = ''X-Forwarded-For''"
  "CanonicalHeaderKey ''X-Forwarded-Proto'' = ''X-Forwarded-Proto''"
  "CanonicalHeaderKey ''Set-Cookie'' = ''Set-Cookie''"
  by code_simp+

lemma header_values_all: "header_values (add_all k vs h) c =
    header_values h c @ (if c = CanonicalHeaderKey k then vs else [])"
  unfolding add_all_def by (rule header_values_add_all)

lemma header_values_if: "header_values (add_if b k v h) c =
    (if b \<and> c = CanonicalHeaderKey k then header_values h c @ [v] else header_values h c)"
  by (simp add: add_if_def header_values_Add)

lemma header_values_forwarded: "header_values (forwarded_for req h) c =
    (if c = ''X-Forwarded-For'' \<and> SplitHostPort (wr_RemoteAddr req) \<noteq> None
     then [case map_of (wr_Header req) ''X-Forwarded-For'' of
             None \<Rightarrow> the (SplitHostPort (wr_RemoteAddr req))
           | Some prior \<Rightarrow> join_comma prior @ '', '' @ the (SplitHostPort (wr_RemoteAddr req))]
     else header_values h c)"
  by (simp add: forwarded_for_def header_values_Set Let_def split: option.split)

lemmas header_value_simps = header_values_all header_values_if header_values_Set header_values_Add
  header_values_forwarded

text \<open>The headers that reach the backend, key by key; every other key is dropped.\<close>

lemma request_header_values:
  "header_values (request_header req) k =
    (if k = ''Origin'' \<or> k = ''Authorization'' then
       (if header_Get (wr_Header req) k \<noteq> '''' then [header_Get (wr_Header req) k] else [])
     else if k = ''Sec-Websocket-Protocol'' \<or> k = ''Cookie'' then header_values (wr_Header req) k
     else if k = ''Host'' then (if wr_Host req \<noteq> '''' then [wr_Host req] else [])
     else if k = ''X-Forwarded-For'' then header_values (forwarded_for req []) k
     else if k = ''X-Forwarded-Proto'' then [if wr_TLS req then ''https'' else ''http'']
     else [])"
  by (auto simp: request_header_def Let_def header_value_simps)

text \<open>
  The copy loop writes, in order, a prefix of the messages it read, unchanged, and then at most
  one close frame.
\<close>

definition is_close :: "frame \<Rightarrow> bool" where
  "is_close f = (case f of DataFrame t m \<Rightarrow> False | CloseFrame c t \<Rightarrow> True)"

lemma is_close_close_frame [simp]: "is_close (close_frame ct e)"
  by (simp add: is_close_def close_frame_def split: ws_err.split)

lemma replicate_prefix:
  assumes "replicateWebsocketConn env turn ct wr src ms s w = (Ret ((fs, fin), s'), w')"
  shows "\<exists>xs cs rest. fs = map (\<lambda>(t, m). DataFrame t m) xs @ cs \<and> ms = map Inr xs @ rest \<and>
    length cs \<le> 1 \<and> list_all is_close cs"
  using assms
proof (induction env turn ct wr src ms s w arbitrary: fs s' w' rule: replicateWebsocketConn.induct)
  case (1 env turn ct wr src s w)
  then show ?case by auto
next
  case (2 env turn ct wr src e ms s w)
  then show ?case by (auto intro!: exI [of _ "[close_frame ct e]"])
next
  case (3 env turn ct wr src t m ms s w)
  from "3.prems" obtain v s1 w1 where
    v: "(if src then admit_message env turn m s w else (Ret (None, s), w)) = (Ret (v, s1), w1)"
    by (auto simp: io_bind_eq_Ret)
  show ?case
  proof (cases v)
    case (Some p)
    obtain closing fin' where p: "p = (closing, fin')" by fastforce
    with "3.prems" v Some have "fs = (case closing of None \<Rightarrow> [] | Some e \<Rightarrow> [close_frame ct e])" by simp
    then show ?thesis by (auto intro!: exI [of _ fs] split: option.split)
  next
    case None
    obtain werr w2 where wr: "wr t m w1 = (werr, w2)" by fastforce
    show ?thesis
    proof (cases werr)
      case (Some e)
      with "3.prems" v None wr have "fs = []" by simp
      then show ?thesis by auto
    next
      case none: None
      with "3.prems" v None wr obtain fs' where fs: "fs = DataFrame t m # fs'"
        and r: "replicateWebsocketConn env turn ct wr src ms s1 w2 = (Ret ((fs', fin), s'), w')"
        by (auto simp: io_bind_eq_Ret)
      from "3.IH" r obtain xs cs rest where
        "fs' = map (\<lambda>(t, m). DataFrame t m) xs @ cs" "ms = map Inr xs @ rest" "length cs \<le> 1" "list_all is_close cs"
        by (metis None none wr)
      with fs show ?thesis by (intro exI [of _ "(t, m) # xs"] exI [of _ cs] exI [of _ rest]) simp
    qed
  qed
qed

end
