(* ===== verification/Config_Stable.thy ===== *)
theory Config_Stable
  imports Config_Spec
begin

text \<open>
  Validation sets \<open>TlsCfg\<close> behind the pointers of a configuration and changes nothing that the
  validators look at: a configuration that passed passes again, and the lists keep their length
  and order.
\<close>

lemma ClientTLS_TLSConfig_TlsCfg [simp]:
  "ClientTLS_TLSConfig env w (t\<lparr>ct_TlsCfg := x\<rparr>) = ClientTLS_TLSConfig env w t"
  by (cases t, hypsubst, unfold ClientTLS_TLSConfig_def ClientTLS.simps, rule refl)

lemma ServerTLS_TLSConfig_TlsCfg [simp]:
  "ServerTLS_TLSConfig env w (t\<lparr>st_TlsCfg := x\<rparr>) = ServerTLS_TLSConfig env w t"
  by (cases t, hypsubst, unfold ServerTLS_TLSConfig_def ServerTLS.simps, rule refl)

lemma ClientTLS_ok_TlsCfg [simp]: "ClientTLS_ok env w (t\<lparr>ct_TlsCfg := x\<rparr>) \<longleftrightarrow> ClientTLS_ok env w t"
  by (simp add: ClientTLS_ok_def)

lemma ServerTLS_ok_TlsCfg [simp]: "ServerTLS_ok env w (t\<lparr>st_TlsCfg := x\<rparr>) \<longleftrightarrow> ServerTLS_ok env w t"
  by (simp add: ServerTLS_ok_def)

lemma ClientTLS_stable: "ClientTLS_ok env w (snd (ClientTLS_IsValid env w t)) \<longleftrightarrow> ClientTLS_ok env w t"
  by (auto simp: ClientTLS_IsValid_def ClientTLS_SetTLSConfig_def split: sum.split)

lemma ServerTLS_stable: "ServerTLS_ok env w (snd (ServerTLS_IsValid env w t)) \<longleftrightarrow> ServerTLS_ok env w t"
  by (auto simp: ServerTLS_IsValid_def ServerTLS_SetTLSConfig_def split: sum.split)

lemma supported_pair_tls [simp]: "supported_pair (b\<lparr>bc_BcClntTLSConfig := x\<rparr>) \<longleftrightarrow> supported_pair b"
  by (simp add: supported_pair_def IsGoQuorumClient_def IsBesuClient_def IsRaft_def IsIstanbul_def IsClique_def)

lemma BlockchainClient_snd:
  "snd (BlockchainClient_IsValid env w b) \<in>
     {b, b\<lparr>bc_BcClntTLSConfig := map_option (\<lambda>t. snd (ClientTLS_IsValid env w t)) (bc_BcClntTLSConfig b)\<rparr>}"
  by (auto simp: BlockchainClient_IsValid_def split: option.split prod.split)

lemma PrivacyManager_snd:
  "snd (PrivacyManager_IsValid env w p) \<in>
     {p, p\<lparr>pm_PrivManTLSConfig := map_option (\<lambda>t. snd (ClientTLS_IsValid env w t)) (pm_PrivManTLSConfig p)\<rparr>}"
  by (auto simp: PrivacyManager_IsValid_def split: option.split prod.split)

lemma pred_option_tls [simp]:
  "pred_option (ClientTLS_ok env w) (map_option (\<lambda>t. snd (ClientTLS_IsValid env w t)) x) \<longleftrightarrow>
     pred_option (ClientTLS_ok env w) x"
  by (cases x) (simp_all add: ClientTLS_stable)

lemma BlockchainClient_stable:
  "BlockchainClient_ok env w b \<Longrightarrow> BlockchainClient_ok env w (snd (BlockchainClient_IsValid env w b))"
  using BlockchainClient_snd [of env w b] by (auto simp: BlockchainClient_ok_def)

lemma PrivacyManager_stable:
  "PrivacyManager_ok env w p \<Longrightarrow> PrivacyManager_ok env w (snd (PrivacyManager_IsValid env w p))"
  using PrivacyManager_snd [of env w p] by (auto simp: PrivacyManager_ok_def)

lemma pred_option_server_tls [simp]:
  "pred_option (ServerTLS_ok env w) (map_option (\<lambda>t. snd (ServerTLS_IsValid env w t)) x) \<longleftrightarrow>
     pred_option (ServerTLS_ok env w) x"
  by (cases x) (simp_all add: ServerTLS_stable)

lemma RPCServer_snd:
  "snd (RPCServer_IsValid env w s) \<in>
     {s, s\<lparr>rs_TLSConfig := map_option (\<lambda>t. snd (ServerTLS_IsValid env w t)) (rs_TLSConfig s)\<rparr>}"
  by (auto simp: RPCServer_IsValid_def split: option.split prod.split)

lemma Peer_snd:
  "snd (Peer_IsValid env w p) \<in>
     {p, p\<lparr>peer_TLSConfig := map_option (\<lambda>t. snd (ClientTLS_IsValid env w t)) (peer_TLSConfig p)\<rparr>}"
  by (auto simp: Peer_IsValid_def split: option.split prod.split)

lemma RPCServer_stable:
  "RPCServer_ok env w s \<Longrightarrow> RPCServer_ok env w (snd (RPCServer_IsValid env w s))"
  using RPCServer_snd [of env w s] by (auto simp: RPCServer_ok_def)

lemma Peer_stable: "Peer_ok env w p \<Longrightarrow> Peer_ok env w (snd (Peer_IsValid env w p))"
  using Peer_snd [of env w p] by (auto simp: Peer_ok_def)

lemma Proxy_fields_tls [simp]:
  "Proxy_fields_err env (x\<lparr>px_ProxyServerTLSConfig := a\<rparr>) = Proxy_fields_err env x"
  "Proxy_fields_err env (x\<lparr>px_ClientTLSConfig := b\<rparr>) = Proxy_fields_err env x"
  by (simp_all add: Proxy_fields_err_def IsHttp_def IsWS_def split: option.split)

lemma Proxy_stable:
  assumes "Proxy_ok env w x"
  shows "Proxy_ok env w (snd (Proxy_IsValid env w x))"
proof -
  have f: "Proxy_fields_err env x = None" and st: "pred_option (ServerTLS_ok env w) (px_ProxyServerTLSConfig x)"
    and ct: "pred_option (ClientTLS_ok env w) (px_ClientTLSConfig x)"
    using assms by (auto simp: Proxy_ok_alt)
  have c: "snd (Proxy_client_tls_check env w y) =
      y\<lparr>px_ClientTLSConfig := map_option (\<lambda>t. snd (ClientTLS_IsValid env w t)) (px_ClientTLSConfig y)\<rparr>" for y
    by (auto simp: Proxy_client_tls_check_def split: option.split prod.split)
  show ?thesis
  proof (cases "px_ProxyServerTLSConfig x")
    case None
    with f st ct show ?thesis by (simp add: Proxy_IsValid_def c Proxy_ok_alt)
  next
    case (Some t)
    obtain e t' where t': "ServerTLS_IsValid env w t = (e, t')" by fastforce
    have "e = None" "ServerTLS_ok env w t'"
      using ServerTLS_valid [of env w t] ServerTLS_stable [of env w t] st Some t' by simp_all
    with f ct Some t' show ?thesis by (simp add: Proxy_IsValid_def c Proxy_ok_alt)
  qed
qed

lemma proxies_loop_Ret:
  "proxies_loop env w i ps = Ret (None, qs) \<Longrightarrow>
     \<exists>as. ps = map Some as \<and> (\<forall>a\<in>set as. Proxy_ok env w a) \<and> qs = map (\<lambda>a. Some (snd (Proxy_IsValid env w a))) as"
proof (induction ps arbitrary: i qs)
  case (Cons x ps)
  from Cons.prems obtain a where x: "x = Some a" by (cases x) auto
  obtain e a' where v: "Proxy_IsValid env w a = (e, a')" by fastforce
  with Cons.prems x obtain qs' where e: "e = None" and l: "proxies_loop env w (i + 1) ps = Ret (None, qs')"
    and qs: "qs = Some a' # qs'"
    by (cases e) (auto simp: go_bind_eq_Ret)
  from Cons.IH [OF l] obtain as where as: "ps = map Some as" "\<forall>a\<in>set as. Proxy_ok env w a"
    "qs' = map (\<lambda>a. Some (snd (Proxy_IsValid env w a))) as" by blast
  have "Proxy_ok env w a" using Proxy_valid [of env w a] v e by simp
  with as x qs v show ?case by (intro exI [of _ "a # as"]) auto
qed simp

text \<open>What the accepted configuration is: the given one with validated parts.\<close>

definition validated :: "'w env \<Rightarrow> 'w \<Rightarrow> Basic \<Rightarrow> Basic \<Rightarrow> bool" where
  "validated env w c c' \<longleftrightarrow> (\<exists>as. b_Proxies c = map Some as \<and> c' = c\<lparr>
     b_Server := map_option (\<lambda>s. snd (RPCServer_IsValid env w s)) (b_Server c),
     b_BlockchainClient := map_option (\<lambda>b. snd (BlockchainClient_IsValid env w b)) (b_BlockchainClient c),
     b_PrivacyManager := map_option (\<lambda>p. snd (PrivacyManager_IsValid env w p)) (b_PrivacyManager c),
     b_Proxies := map (\<lambda>a. Some (snd (Proxy_IsValid env w a))) as\<rparr>)"

lemma Basic_IsValid_validated:
  assumes "Basic_IsValid env w c = Ret (None, c')"
  shows "validated env w c c'"
proof -
  have ok: "Basic_ok env w c" using assms by (rule Basic_valid [THEN iffD1, OF exI])
  then obtain s b where sb: "b_Server c = Some s" "b_BlockchainClient c = Some b" by (auto simp: Basic_ok_def)
  obtain es s' where s': "RPCServer_IsValid env w s = (es, s')" by fastforce
  obtain eb b' where b': "BlockchainClient_IsValid env w b = (eb, b')" by fastforce
  from ok sb s' b' have e: "es = None" "eb = None"
    using RPCServer_valid [of env w s] BlockchainClient_valid [of env w b] by (auto simp: Basic_ok_def)
  have "Basic_fields_err c = None" using assms by (simp add: Basic_IsValid_def split: option.split_asm)
  with assms sb s' b' e have p: "Basic_privman_check env w
      (c\<lparr>b_Server := Some s', b_BlockchainClient := Some b'\<rparr>) = Ret (None, c')"
    by (simp add: Basic_IsValid_def Basic_client_check_def)
  let ?d = "c\<lparr>b_Server := Some s', b_BlockchainClient := Some b',
    b_PrivacyManager := map_option (\<lambda>p. snd (PrivacyManager_IsValid env w p)) (b_PrivacyManager c)\<rparr>"
  have "Basic_proxies_check env w ?d = Ret (None, c')"
  proof (cases "b_PrivacyManager c")
    case None
    then have "?d = c\<lparr>b_Server := Some s', b_BlockchainClient := Some b'\<rparr>"
      by (intro Basic.equality) simp_all
    with None p show ?thesis by (simp only: Basic_privman_check_def) simp
  next
    case (Some q)
    obtain e q' where "PrivacyManager_IsValid env w q = (e, q')" by fastforce
    with Some p show ?thesis by (cases e) (simp_all add: Basic_privman_check_def)
  qed
  then obtain qs where "proxies_loop env w 0 (b_Proxies c) = Ret (None, qs)" and c': "c' = ?d\<lparr>b_Proxies := qs\<rparr>"
    by (auto simp: Basic_proxies_check_def go_bind_eq_Ret split: if_split_asm)
  with proxies_loop_Ret [OF this(1)] sb s' b' show ?thesis by (auto simp: validated_def)
qed

lemma validated_ok:
  assumes "Basic_ok env w c" and "validated env w c c'"
  shows "Basic_ok env w c'"
proof -
  from assms(1) obtain s b where sb: "b_Server c = Some s" "b_BlockchainClient c = Some b"
    "RPCServer_ok env w s" "BlockchainClient_ok env w b"
    by (auto simp: Basic_ok_def)
  from assms(2) obtain as where as: "b_Proxies c = map Some as" and c': "c' = c\<lparr>
     b_Server := map_option (\<lambda>s. snd (RPCServer_IsValid env w s)) (b_Server c),
     b_BlockchainClient := map_option (\<lambda>b. snd (BlockchainClient_IsValid env w b)) (b_BlockchainClient c),
     b_PrivacyManager := map_option (\<lambda>p. snd (PrivacyManager_IsValid env w p)) (b_PrivacyManager c),
     b_Proxies := map (\<lambda>a. Some (snd (Proxy_IsValid env w a))) as\<rparr>" by (auto simp: validated_def)
  have pm: "pred_option (PrivacyManager_ok env w)
      (map_option (\<lambda>p. snd (PrivacyManager_IsValid env w p)) (b_PrivacyManager c))"
    using assms(1) by (cases "b_PrivacyManager c") (simp_all add: Basic_ok_def PrivacyManager_stable)
  have "\<forall>a\<in>set as. Proxy_ok env w (snd (Proxy_IsValid env w a))" "as \<noteq> []"
    using assms(1) as by (auto simp: Basic_ok_def Proxy_stable)
  with assms(1) sb pm show ?thesis
    by (simp add: c' Basic_ok_def RPCServer_stable BlockchainClient_stable)
qed

lemma Basic_IsValid_stable: "Basic_IsValid env w c = Ret (None, c') \<Longrightarrow> Basic_ok env w c'"
  by (rule validated_ok [OF Basic_valid [THEN iffD1, OF exI] Basic_IsValid_validated])

end
