(* ===== verification/App.thy ===== *)
theory App
  imports Websocket Config_Stable
begin

text \<open>
  The JSON-RPC server of a hibernator (\<open>rpc/service.go\<close>) and the program itself (\<open>main.go\<close>):
  reading and validating the two configuration files, and building and starting the parts. The
  HTTP, CORS and JSON-RPC servers are libraries; the error of registering the API is an argument.
\<close>

section \<open>The RPC server\<close>

definition ReadTimeout :: int where "ReadTimeout = 10 * Second"
definition WriteTimeout :: int where "WriteTimeout = 10 * Second"
definition IdleTimeout :: int where "IdleTimeout = 60 * Second"

record RPCService =
  rpc_cors :: "string list"
  rpc_httpAddress :: string

record rpc_http_server =
  rhs_Addr :: string
  rhs_AllowedOrigins :: "string list"
  rhs_ReadTimeout :: int
  rhs_WriteTimeout :: int
  rhs_IdleTimeout :: int
  rhs_TLSConfig :: "tls_config option"

definition NewRPCService :: "RPCServer option \<Rightarrow> RPCService go" where
  "NewRPCService cfg = (case cfg of
     None \<Rightarrow> Panic ''nil pointer dereference''
   | Some s \<Rightarrow> Ret \<lparr>rpc_cors = rs_RPCCorsList s, rpc_httpAddress = rs_RPCAddr s\<rparr>)"

definition RPCService_Start ::
  "'w env \<Rightarrow> err option \<Rightarrow> RPCService \<Rightarrow> RPCServer option \<Rightarrow> 'w \<Rightarrow> (err + rpc_http_server) go" where
  "RPCService_Start env register_err r cfg w =
     (case register_err of
        Some e \<Rightarrow> Ret (Inl e)
      | None \<Rightarrow>
          (let srv = \<lparr>rhs_Addr = rpc_httpAddress r, rhs_AllowedOrigins = rpc_cors r,
                 rhs_ReadTimeout = ReadTimeout, rhs_WriteTimeout = WriteTimeout,
                 rhs_IdleTimeout = IdleTimeout, rhs_TLSConfig = None\<rparr>
           in case cfg of
                None \<Rightarrow> Panic ''nil pointer dereference''
              | Some s \<Rightarrow>
                  (case rs_TLSConfig s of
                     None \<Rightarrow> Ret (Inr srv)
                   | Some t \<Rightarrow>
                       (case ServerTLS_TLSConfig env w t of
                          Inl e \<Rightarrow> Ret (Inl e)
                        | Inr c \<Rightarrow> Ret (Inr (srv\<lparr>rhs_TLSConfig := Some c\<rparr>))))))"

section \<open>The program\<close>

datatype load_err = LoadErr err | InvalidErr cfg_err

text \<open>Its second half: the peers file that a validated configuration names.\<close>

definition read_peers_file ::
  "'w env \<Rightarrow> (string \<Rightarrow> err + NodeHibernatorList) \<Rightarrow> Basic \<Rightarrow> 'w \<Rightarrow> (load_err + Node) go \<times> 'w" where
  "read_peers_file env tomlPeers nhConfig w =
     (case NewPeersReader (b_PeersConfigFile nhConfig) of
        Inl e \<Rightarrow> (Ret (Inl (LoadErr e)), w)
      | Inr peersReader \<Rightarrow>
          (case PeersReader_Read env tomlPeers peersReader w of
             (Inl e, w1) \<Rightarrow> (Ret (Inl (LoadErr e)), w1)
           | (Inr peersConfig, w1) \<Rightarrow>
               (go_bind (PeerArr_IsValid env w1 peersConfig) (\<lambda>r. Ret (case r of
                  Inl e \<Rightarrow> Inl (InvalidErr e)
                | Inr ps \<Rightarrow> Inr \<lparr>nd_BasicConfig = nhConfig, nd_Peers = ps\<rparr>)), w1)))"

definition readNodeConfigFromFile ::
  "'w env \<Rightarrow> (string \<Rightarrow> err + Basic) \<Rightarrow> (string \<Rightarrow> err + NodeHibernatorList) \<Rightarrow> string \<Rightarrow> 'w
   \<Rightarrow> (load_err + Node) go \<times> 'w" where
  "readNodeConfigFromFile env tomlNode tomlPeers configFile w =
     (case NewNodeHibernatorReader configFile of
        Inl e \<Rightarrow> (Ret (Inl (LoadErr e)), w)
      | Inr nhReader \<Rightarrow>
          (case NodeReader_Read env tomlNode nhReader w of
             (Inl e, w1) \<Rightarrow> (Ret (Inl (LoadErr e)), w1)
           | (Inr nhConfig, w1) \<Rightarrow>
               io_bind (Basic_IsValid env w1 nhConfig, w1) (\<lambda>(verr, nhConfig') w2.
                 case verr of
                   Some e \<Rightarrow> (Ret (Inl (InvalidErr e)), w2)
                 | None \<Rightarrow> read_peers_file env tomlPeers nhConfig' w2)))"

record 'w NodeHibernatorApp =
  app_service :: "'w Service"
  app_proxyServers :: "ProxyServer list"
  app_rpc :: "rpc_http_server option"

text \<open>
  \<open>Start\<close>: \<open>None\<close> when it returns \<open>false\<close> before the node runs. A panic of a goroutine that
  \<open>NodeControl_Start\<close> begins is one of \<open>Start\<close> here. Starting a proxy spawns its listener, which is
  part of \<open>Lifecycle\<close>.
\<close>

definition App_Start ::
  "'w env \<Rightarrow> (string \<Rightarrow> err + NodeHibernatorList) \<Rightarrow> err option \<Rightarrow> Node \<Rightarrow> 'w
   \<Rightarrow> (bool \<times> 'w NodeHibernatorApp option) go \<times> 'w" where
  "App_Start env tomlPeers register_err nodeConfig w =
     io_bind (NewNodeControl env tomlPeers nodeConfig w) (\<lambda>n w1.
       io_bind (MakeProxyServices env (b_Proxies (basic n)), w1) (\<lambda>r w2.
         case r of
           Inl e \<Rightarrow> (Ret (False, None), w2)
         | Inr ps \<Rightarrow>
             io_bind (NewRPCService (b_Server (basic n)), w2) (\<lambda>rpc w3.
               io_bind (NodeControl_Start n, w3) (\<lambda>svc w4.
                 (let app = \<lparr>app_service = svc, app_proxyServers = ps, app_rpc = None\<rparr>
                  in io_bind (RPCService_Start env register_err rpc (b_Server (basic n)) w4, w4) (\<lambda>s w5.
                       (Ret (case s of
                          Inl e \<Rightarrow> (False, Some app)
                        | Inr srv \<Rightarrow> (True, Some (app\<lparr>app_rpc := Some srv\<rparr>))), w5)))))))"

section \<open>Facts\<close>

lemma read_peers_file_Inr:
  assumes "read_peers_file env tp c w = (Ret (Inr cfg), w')"
  obtains prd raw ps where "NewPeersReader (b_PeersConfigFile c) = Inr prd"
    and "PeerArr_IsValid env w' raw = Ret (Inr ps)" and "cfg = \<lparr>nd_BasicConfig = c, nd_Peers = ps\<rparr>"
proof -
  from assms obtain prd where prd: "NewPeersReader (b_PeersConfigFile c) = Inr prd"
    by (auto simp: read_peers_file_def split: sum.split_asm)
  obtain x w1 where x: "PeersReader_Read env tp prd w = (x, w1)" by fastforce
  with assms prd obtain raw where raw: "x = Inr raw"
    by (auto simp: read_peers_file_def split: sum.split_asm)
  with assms prd x obtain r where r: "PeerArr_IsValid env w1 raw = Ret r" "w1 = w'"
    by (auto simp: read_peers_file_def go_bind_eq_Ret)
  with assms prd x raw obtain ps where "r = Inr ps" "cfg = \<lparr>nd_BasicConfig = c, nd_Peers = ps\<rparr>"
    by (cases r) (auto simp: read_peers_file_def)
  with prd r show thesis by (intro that) simp_all
qed

lemma readNodeConfigFromFile_Inr:
  assumes "readNodeConfigFromFile env tn tp f w = (Ret (Inr cfg), w')"
  obtains c c' w1 where "Basic_IsValid env w1 c = Ret (None, c')"
    and "read_peers_file env tp c' w1 = (Ret (Inr cfg), w')"
proof -
  from assms obtain rd where rd: "NewNodeHibernatorReader f = Inr rd"
    by (auto simp: readNodeConfigFromFile_def split: sum.split_asm)
  obtain x w1 where x: "NodeReader_Read env tn rd w = (x, w1)" by fastforce
  with assms rd obtain c where c: "x = Inr c"
    by (auto simp: readNodeConfigFromFile_def split: sum.split_asm)
  with assms rd x obtain v c' where v: "Basic_IsValid env w1 c = Ret (v, c')"
    by (auto simp: readNodeConfigFromFile_def io_bind_eq_Ret)
  with assms rd x c have "v = None" "read_peers_file env tp c' w1 = (Ret (Inr cfg), w')"
    by (auto simp: readNodeConfigFromFile_def split: option.split_asm)
  with v show thesis by (intro that) simp_all
qed

lemma readNodeConfigFromFile_ok:
  assumes "readNodeConfigFromFile env tn tp f w = (Ret (Inr cfg), w')"
  shows "\<exists>w1. Basic_ok env w1 (nd_BasicConfig cfg)"
    and "\<exists>rd. NewPeersReader (b_PeersConfigFile (nd_BasicConfig cfg)) = Inr rd"
    and "distinct (map peer_Name (nd_Peers cfg))" and "\<forall>p\<in>set (nd_Peers cfg). Peer_ok env w' p"
proof -
  from assms obtain c c' w1 where b: "Basic_IsValid env w1 c = Ret (None, c')"
    and r: "read_peers_file env tp c' w1 = (Ret (Inr cfg), w')" by (rule readNodeConfigFromFile_Inr)
  from r obtain prd raw ps where p: "NewPeersReader (b_PeersConfigFile c') = Inr prd"
    and v: "PeerArr_IsValid env w' raw = Ret (Inr ps)" and cfg: "cfg = \<lparr>nd_BasicConfig = c', nd_Peers = ps\<rparr>"
    by (rule read_peers_file_Inr)
  from Basic_IsValid_stable [OF b] cfg show "\<exists>w1. Basic_ok env w1 (nd_BasicConfig cfg)" by auto
  from p cfg show "\<exists>rd. NewPeersReader (b_PeersConfigFile (nd_BasicConfig cfg)) = Inr rd" by simp
  from v obtain as where as: "distinct (map peer_Name as)" "\<forall>a\<in>set as. Peer_ok env w' a"
    and ps: "ps = map (\<lambda>a. snd (Peer_IsValid env w' a)) as"
    by (auto simp: PeerArr_IsValid_def PeerArr_loop_accepts)
  have "peer_Name (snd (Peer_IsValid env w' a)) = peer_Name a" for a
    using Peer_snd [of env w' a] by auto
  with as ps cfg show "distinct (map peer_Name (nd_Peers cfg))" by (simp add: comp_def)
  from as ps cfg show "\<forall>p\<in>set (nd_Peers cfg). Peer_ok env w' p" by (auto intro: Peer_stable)
qed

lemma mux_handle_returns: "returns (mux_handle reg ps) \<longleftrightarrow> '''' \<notin> set ps \<and> distinct ps \<and> set ps \<inter> set reg = {}"
  by (induction reg ps rule: mux_handle.induct) auto

lemma mux_handle_Ret: "mux_handle reg ps = Ret r \<Longrightarrow> r = reg @ ps"
  by (induction reg ps rule: mux_handle.induct) (auto split: if_split_asm)

text \<open>A valid proxy is built unless its paths repeat or one is empty, which panics.\<close>

lemma NewProxyServer_returns:
  assumes "Proxy_ok env w c"
  shows "returns (NewProxyServer env c) \<longleftrightarrow> '''' \<notin> set (px_ProxyPaths c) \<and> distinct (px_ProxyPaths c)"
    and "NewProxyServer env c = Ret r \<Longrightarrow> \<exists>p. r = Inr p \<and> ps_paths p = px_ProxyPaths c \<and> ps_proxyCfg p = c"
proof -
  have h: "proxy_handler c \<noteq> NoHandler" and u: "url_parse env (px_UpstreamAddr c) = None"
    using assms by (auto simp: Proxy_ok_def proxy_handler_def)
  show "returns (NewProxyServer env c) \<longleftrightarrow> '''' \<notin> set (px_ProxyPaths c) \<and> distinct (px_ProxyPaths c)"
    using mux_handle_returns [of "[]" "px_ProxyPaths c"] by (simp add: NewProxyServer_def h u) (simp add: returns_iff)
  show "NewProxyServer env c = Ret r \<Longrightarrow> \<exists>p. r = Inr p \<and> ps_paths p = px_ProxyPaths c \<and> ps_proxyCfg p = c"
    using mux_handle_Ret [of "[]" "px_ProxyPaths c"] by (auto simp: NewProxyServer_def h u go_bind_eq_Ret)
qed

definition paths_ok :: "Proxy \<Rightarrow> bool" where
  "paths_ok c \<longleftrightarrow> '''' \<notin> set (px_ProxyPaths c) \<and> distinct (px_ProxyPaths c)"

lemma MakeProxyServices_returns:
  "\<forall>x\<in>set cs. \<exists>p. x = Some p \<and> Proxy_ok env w p \<Longrightarrow>
     returns (MakeProxyServices env cs) \<longleftrightarrow> (\<forall>p. Some p \<in> set cs \<longrightarrow> paths_ok p)"
  "\<forall>x\<in>set cs. \<exists>p. x = Some p \<and> Proxy_ok env w p \<Longrightarrow> MakeProxyServices env cs = Ret r \<Longrightarrow> \<not> isl r"
proof (induction cs arbitrary: r)
  case (Cons x cs)
  {
    case 1
    then obtain p where p: "x = Some p" "Proxy_ok env w p" by auto
    show ?case
    proof (cases "NewProxyServer env p")
      case (Ret q)
      with NewProxyServer_returns [OF p(2)] obtain ps where "q = Inr ps" "paths_ok p"
        by (auto simp: paths_ok_def)
      with Ret p have "returns (MakeProxyServices env (x # cs)) \<longleftrightarrow> returns (MakeProxyServices env cs)"
        by (cases "MakeProxyServices env cs") simp_all
      with Cons.IH(1) 1 p \<open>paths_ok p\<close> show ?thesis by auto
    next
      case (Panic m)
      with NewProxyServer_returns(1) [OF p(2)] have "\<not> paths_ok p" by (simp add: paths_ok_def)
      with Panic p show ?thesis by auto
    next
      case Hang
      with NewProxyServer_returns(1) [OF p(2)] have "\<not> paths_ok p" by (simp add: paths_ok_def)
      with Hang p show ?thesis by auto
    qed
  next
    case 2
    then obtain p where p: "x = Some p" "Proxy_ok env w p" by auto
    with 2 obtain q where q: "NewProxyServer env p = Ret q" by (auto simp: go_bind_eq_Ret)
    with NewProxyServer_returns(2) [OF p(2) q] obtain ps where "q = Inr ps" by auto
    with 2 p q obtain rs where rs: "MakeProxyServices env cs = Ret rs" "r = map_sum id ((#) ps) rs"
      by (auto simp: go_bind_eq_Ret)
    with Cons.IH(2) [of rs] 2 show ?case by (cases rs) auto
  }
qed simp_all

text \<open>The proxies that are made: one for every entry, with its paths, handler and address.\<close>

definition proxy_built :: "Proxy option \<Rightarrow> ProxyServer \<Rightarrow> bool" where
  "proxy_built c p \<longleftrightarrow> c = Some (ps_proxyCfg p) \<and> ps_handler p = proxy_handler (ps_proxyCfg p) \<and>
     ps_Addr p = px_ProxyAddr (ps_proxyCfg p) \<and>
     (ps_handler p \<noteq> NoHandler \<longrightarrow> ps_paths p = px_ProxyPaths (ps_proxyCfg p))"

lemma NewProxyServer_built: "NewProxyServer env c = Ret (Inr p) \<Longrightarrow> proxy_built (Some c) p"
  by (auto simp: NewProxyServer_def proxy_built_def go_bind_eq_Ret dest!: mux_handle_Ret
      split: option.split_asm if_split_asm)

lemma MakeProxyServices_built: "MakeProxyServices env cs = Ret (Inr ps) \<Longrightarrow> list_all2 proxy_built cs ps"
proof (induction cs arbitrary: ps)
  case (Cons x cs)
  then obtain c q where x: "x = Some c" and q: "NewProxyServer env c = Ret q"
    by (cases x) (auto simp: go_bind_eq_Ret)
  with Cons.prems obtain p rs where p: "q = Inr p" "MakeProxyServices env cs = Ret rs" "map_sum id ((#) p) rs = Inr ps"
    by (cases q) (auto simp: go_bind_eq_Ret)
  then obtain qs where "rs = Inr qs" "ps = p # qs" by (cases rs) auto
  with Cons.IH p x NewProxyServer_built q show ?case by auto
qed simp

text \<open>The polling interval does not wrap around to something that is not positive.\<close>

definition polling_ok :: "Basic \<Rightarrow> bool" where
  "polling_ok c \<longleftrightarrow> 0 < go_mul (b_UpchkPollingInterval c) Second"

definition startable :: "Basic \<Rightarrow> bool" where
  "startable c \<longleftrightarrow> (\<forall>p. Some p \<in> set (b_Proxies c) \<longrightarrow> paths_ok p) \<and> polling_ok c"

text \<open>
  From files to a running program. \<open>App_Start\<close> on a loaded configuration panics only on the
  proxy paths and on the polling interval; otherwise the node runs, idle and available, and only
  the API server can be missing.
\<close>

lemma NewNodeControl_proxies:
  assumes "NewNodeControl env toml cfg w = (Ret n, w')"
  shows "b_Proxies (basic n) = b_Proxies (nd_BasicConfig cfg)" and "b_Server (basic n) = b_Server (nd_BasicConfig cfg)"
    and "b_UpchkPollingInterval (basic n) = b_UpchkPollingInterval (nd_BasicConfig cfg)"
  using assms by (auto simp: NewNodeControl_def io_bind_eq_Ret Let_def config_def NewPeerManager_def split: go.split_asm)

lemma App_Start_loaded:
  assumes load: "readNodeConfigFromFile env tn tp f w = (Ret (Inr cfg), w')" and "rand_ok env"
    and t: "b_InactivityTime (nd_BasicConfig cfg) < 2 ^ 61"
    and can: "startable (nd_BasicConfig cfg)"
  obtains b app w2 where "App_Start env tp register_err cfg w0 = (Ret (b, Some app), w2)"
    and "svc_inv (app_service app)" and "nc_nodeStatus (sv_node (app_service app)) = OK"
    and "b \<longleftrightarrow> app_rpc app \<noteq> None" and "list_all2 proxy_built (b_Proxies (nd_BasicConfig cfg)) (app_proxyServers app)"
proof -
  from readNodeConfigFromFile_ok [OF load] obtain w1 rd where ok: "Basic_ok env w1 (nd_BasicConfig cfg)"
    and rd: "NewPeersReader (b_PeersConfigFile (nd_BasicConfig cfg)) = Inr rd" by blast
  from ok obtain bc where bc: "b_BlockchainClient (nd_BasicConfig cfg) = Some bc" by (auto simp: Basic_ok_def)
  let ?t = "b_InactivityTime (nd_BasicConfig cfg)"
  have t62: "?t < 2 ^ 62" using t by simp
  obtain n w2 where n: "NewNodeControl env tp cfg w0 = (Ret n, w2)" "nc_wf n" "nc_nodeStatus n = OK"
    and lim: "?t < b_InactivityTime (basic n)" "b_InactivityTime (basic n) \<le> ?t + max 10 (2 * ?t div 100)"
    by (rule NewNodeControl_wf [OF ok rd assms(2) t62 bc])
  have "60 \<le> ?t" using ok by (simp add: Basic_ok_def)
  with lim t have inv: "svc_inv (started n)" by (intro svc_inv_start n(2)) simp_all
  note same = NewNodeControl_proxies [OF n(1)]
  have start: "NodeControl_Start n = Ret (started n)"
    using can by (simp add: NodeControl_Start_Ret same startable_def polling_ok_def)
  from ok have px: "\<forall>x\<in>set (b_Proxies (basic n)). \<exists>p. x = Some p \<and> Proxy_ok env w1 p"
    and srv: "b_Server (basic n) \<noteq> None" by (auto simp: same Basic_ok_def)
  from MakeProxyServices_returns(1) [OF px] can obtain r where r: "MakeProxyServices env (b_Proxies (basic n)) = Ret r"
    by (auto simp: same returns_iff startable_def)
  with MakeProxyServices_returns(2) [OF px] obtain ps where ps: "r = Inr ps" by (cases r) auto
  from MakeProxyServices_built r ps have built: "list_all2 proxy_built (b_Proxies (nd_BasicConfig cfg)) ps"
    by (simp add: same)
  from srv obtain s where s: "b_Server (basic n) = Some s" by blast
  let ?app = "\<lparr>app_service = started n, app_proxyServers = ps, app_rpc = None\<rparr>"
  let ?rpc = "\<lparr>rpc_cors = rs_RPCCorsList s, rpc_httpAddress = rs_RPCAddr s\<rparr>"
  have "returns (RPCService_Start env register_err ?rpc (b_Server (basic n)) w2)"
    using s by (simp add: RPCService_Start_def Let_def split: option.split sum.split)
  then obtain q where q: "RPCService_Start env register_err ?rpc (b_Server (basic n)) w2 = Ret q"
    by (auto simp: returns_iff)
  have st: "sv_node (started n) = n" by (simp add: started_def)
  have run: "App_Start env tp register_err cfg w0 = (Ret (case q of
      Inl e \<Rightarrow> (False, Some ?app) | Inr srv \<Rightarrow> (True, Some (?app\<lparr>app_rpc := Some srv\<rparr>))), w2)"
    using q by (simp add: App_Start_def n(1) r ps s NewRPCService_def start Let_def)
  show thesis
    by (cases q) (use run inv n(3) st built in \<open>auto intro: that\<close>)
qed

lemma App_Start_returns_iff:
  assumes load: "readNodeConfigFromFile env tn tp f w = (Ret (Inr cfg), w')" and "rand_ok env"
    and t: "b_InactivityTime (nd_BasicConfig cfg) < 2 ^ 61"
  shows "returns (fst (App_Start env tp register_err cfg w0)) \<longleftrightarrow> startable (nd_BasicConfig cfg)"
proof (cases "startable (nd_BasicConfig cfg)")
  case True
  obtain b app w2 where "App_Start env tp register_err cfg w0 = (Ret (b, Some app), w2)"
    by (rule App_Start_loaded [OF load assms(2) t True])
  with True show ?thesis by simp
next
  case False
  from readNodeConfigFromFile_ok [OF load] obtain w1 rd where ok: "Basic_ok env w1 (nd_BasicConfig cfg)"
    and rd: "NewPeersReader (b_PeersConfigFile (nd_BasicConfig cfg)) = Inr rd" by blast
  from ok obtain bc where bc: "b_BlockchainClient (nd_BasicConfig cfg) = Some bc" by (auto simp: Basic_ok_def)
  have t62: "b_InactivityTime (nd_BasicConfig cfg) < 2 ^ 62" using t by simp
  obtain n w2 where n: "NewNodeControl env tp cfg w0 = (Ret n, w2)"
    by (rule NewNodeControl_wf [OF ok rd assms(2) t62 bc])
  note same = NewNodeControl_proxies [OF n]
  from ok have px: "\<forall>x\<in>set (b_Proxies (basic n)). \<exists>p. x = Some p \<and> Proxy_ok env w1 p"
    by (auto simp: same Basic_ok_def)
  have "\<not> returns (fst (App_Start env tp register_err cfg w0))"
  proof (cases "MakeProxyServices env (b_Proxies (basic n))")
    case (Ret r)
    with MakeProxyServices_returns(1) [OF px] False have "\<not> polling_ok (nd_BasicConfig cfg)"
      by (auto simp: same startable_def)
    then have "NodeControl_Start n = Panic ''non-positive interval for NewTicker''"
      by (simp add: NodeControl_Start_def same polling_ok_def)
    moreover have "\<not> isl r" by (rule MakeProxyServices_returns(2) [OF px Ret])
    moreover obtain rs where "b_Server (basic n) = Some rs" using ok by (auto simp: same Basic_ok_def)
    ultimately show ?thesis
      using Ret by (cases r) (simp_all add: App_Start_def n NewRPCService_def)
  qed (simp_all add: App_Start_def n)
  with False show ?thesis by simp
qed

end
