(* ===== verification/Lifecycle.thy ===== *)
theory Lifecycle
  imports App
begin

text \<open>
  The end of the program: the listeners of the proxies and of the RPC server, which report their
  errors on unbuffered channels, \<open>waitForShutdown\<close>, which takes one error or a signal, and
  \<open>Shutdown\<close>, which stops the proxies, the RPC server and the node (\<open>main.go\<close>, \<open>proxy/server.go\<close>,
  \<open>rpc/service.go\<close>, \<open>node/control.go\<close>). A proxy's methods have a value receiver: the wait group that
  \<open>Stop\<close> waits for is never the one that \<open>Start\<close> has added to, so that wait ends at once.
\<close>

section \<open>State\<close>

text \<open>The goroutine of a listener: serving, about to send an error, or at its end.\<close>

datatype listener = Serving | Sending | Ended

text \<open>Where \<open>main\<close> is: in the select, before the k-th proxy, at the server's wait group, and so on.\<close>

datatype main_at = Waiting | StopProxy nat | RpcStop | RpcWait | NodeStop | Exited

record life =
  lf_main :: main_at
  lf_proxies :: "listener list"
  lf_rpc :: listener
  lf_monitors :: bool   \<comment> \<open>the goroutines of the node have not been told to stop\<close>

definition life_start :: "nat \<Rightarrow> life" where
  "life_start n = \<lparr>lf_main = Waiting, lf_proxies = replicate n Serving, lf_rpc = Serving, lf_monitors = True\<rparr>"

text \<open>
  \<open>Shutdown\<close> of a server makes a listener that serves return \<open>ErrServerClosed\<close>: a proxy then sends
  this error, the RPC server does not.
\<close>

definition proxy_stopped :: "listener \<Rightarrow> listener" where
  "proxy_stopped l = (if l = Serving then Sending else l)"

definition rpc_stopped :: "listener \<Rightarrow> listener" where
  "rpc_stopped l = (if l = Serving then Ended else l)"

text \<open>\<open>NodeControl.Stop\<close> closes one channel and fills two that are empty, so it does not block.\<close>

definition NodeControl_Stop :: "life \<Rightarrow> life" where
  "NodeControl_Stop s = s\<lparr>lf_monitors := False\<rparr>"

section \<open>Steps\<close>

inductive life_step :: "life \<Rightarrow> life \<Rightarrow> bool" where
  proxy_fails: "i < length (lf_proxies s) \<Longrightarrow> lf_proxies s ! i = Serving \<Longrightarrow>
     life_step s (s\<lparr>lf_proxies := (lf_proxies s)[i := Sending]\<rparr>)"
| rpc_fails: "lf_rpc s = Serving \<Longrightarrow> life_step s (s\<lparr>lf_rpc := Sending\<rparr>)"
| proxy_error: "lf_main s = Waiting \<Longrightarrow> i < length (lf_proxies s) \<Longrightarrow> lf_proxies s ! i = Sending \<Longrightarrow>
     life_step s (s\<lparr>lf_main := StopProxy 0, lf_proxies := (lf_proxies s)[i := Ended]\<rparr>)"
| rpc_error: "lf_main s = Waiting \<Longrightarrow> lf_rpc s = Sending \<Longrightarrow>
     life_step s (s\<lparr>lf_main := StopProxy 0, lf_rpc := Ended\<rparr>)"
| signal: "lf_main s = Waiting \<Longrightarrow> life_step s (s\<lparr>lf_main := StopProxy 0\<rparr>)"
| stop_proxy: "lf_main s = StopProxy k \<Longrightarrow> k < length (lf_proxies s) \<Longrightarrow>
     life_step s (s\<lparr>lf_main := StopProxy (k + 1),
       lf_proxies := (lf_proxies s)[k := proxy_stopped (lf_proxies s ! k)]\<rparr>)"
| proxies_stopped: "lf_main s = StopProxy k \<Longrightarrow> length (lf_proxies s) \<le> k \<Longrightarrow> life_step s (s\<lparr>lf_main := RpcStop\<rparr>)"
| rpc_shutdown: "lf_main s = RpcStop \<Longrightarrow> life_step s (s\<lparr>lf_main := RpcWait, lf_rpc := rpc_stopped (lf_rpc s)\<rparr>)"
| rpc_waited: "lf_main s = RpcWait \<Longrightarrow> lf_rpc s = Ended \<Longrightarrow> life_step s (s\<lparr>lf_main := NodeStop\<rparr>)"
| node_stop: "lf_main s = NodeStop \<Longrightarrow> life_step s ((NodeControl_Stop s)\<lparr>lf_main := Exited\<rparr>)"

inductive life_reach :: "life \<Rightarrow> life \<Rightarrow> bool" for s0 where
  refl: "life_reach s0 s0"
| step: "life_reach s0 s \<Longrightarrow> life_step s t \<Longrightarrow> life_reach s0 t"

inductive_cases life_stepE: "life_step s t"

lemma NodeControl_Stop_simps [simp]:
  "lf_proxies (NodeControl_Stop s) = lf_proxies s" "lf_rpc (NodeControl_Stop s) = lf_rpc s"
  "lf_main (NodeControl_Stop s) = lf_main s" "lf_monitors (NodeControl_Stop s) = False"
  by (simp_all add: NodeControl_Stop_def)

lemma life_reach_trans: "life_reach t u \<Longrightarrow> life_reach s t \<Longrightarrow> life_reach s u"
  by (induction rule: life_reach.induct) (auto intro: life_reach.step)

section \<open>What has been stopped\<close>

definition life_inv :: "life \<Rightarrow> bool" where
  "life_inv s \<longleftrightarrow> (case lf_main s of
     Waiting \<Rightarrow> lf_monitors s
   | StopProxy k \<Rightarrow> lf_monitors s \<and> (\<forall>i<length (lf_proxies s). i < k \<longrightarrow> lf_proxies s ! i \<noteq> Serving)
   | RpcStop \<Rightarrow> lf_monitors s \<and> Serving \<notin> set (lf_proxies s)
   | RpcWait \<Rightarrow> lf_monitors s \<and> Serving \<notin> set (lf_proxies s) \<and> lf_rpc s \<noteq> Serving
   | NodeStop \<Rightarrow> lf_monitors s \<and> Serving \<notin> set (lf_proxies s) \<and> lf_rpc s = Ended
   | Exited \<Rightarrow> \<not> lf_monitors s \<and> Serving \<notin> set (lf_proxies s) \<and> lf_rpc s = Ended)"

lemma serving_update: "Serving \<notin> set xs \<Longrightarrow> l \<noteq> Serving \<Longrightarrow> Serving \<notin> set (xs[i := l])"
  by (metis insertE set_update_subset_insert subsetD)

lemma proxy_stopped_not [simp]: "proxy_stopped l \<noteq> Serving"
  by (simp add: proxy_stopped_def)

lemma rpc_stopped_not [simp]: "rpc_stopped l \<noteq> Serving"
  by (simp add: rpc_stopped_def)

lemma life_inv_step: "life_step s t \<Longrightarrow> life_inv s \<Longrightarrow> life_inv t"
proof (induction rule: life_step.induct)
  case (proxies_stopped s k)
  then have "Serving \<notin> set (lf_proxies s)" by (auto simp: life_inv_def in_set_conv_nth)
  with proxies_stopped show ?case by (simp add: life_inv_def)
qed (auto simp: life_inv_def nth_list_update serving_update less_Suc_eq split: main_at.splits)

lemma life_reach_inv: "life_reach s0 s \<Longrightarrow> life_inv s0 \<Longrightarrow> life_inv s"
  by (induction rule: life_reach.induct) (auto intro: life_inv_step)

lemma life_inv_start: "life_inv (life_start n)"
  by (simp add: life_inv_def life_start_def)

section \<open>A second error\<close>

text \<open>Once \<open>main\<close> has left the select, nobody receives the error that the RPC server sends.\<close>

definition rpc_lost :: "life \<Rightarrow> bool" where
  "rpc_lost s \<longleftrightarrow> lf_rpc s = Sending \<and> lf_main s \<notin> {Waiting, NodeStop, Exited}"

lemma rpc_lost_step: "life_step s t \<Longrightarrow> rpc_lost s \<Longrightarrow> rpc_lost t"
  by (induction rule: life_step.induct) (auto simp: rpc_lost_def rpc_stopped_def)

lemma rpc_lost_reach: "life_reach s t \<Longrightarrow> rpc_lost s \<Longrightarrow> rpc_lost t"
  by (induction rule: life_reach.induct) (auto intro: rpc_lost_step)

lemma rpc_lost_reachable:
  "life_reach (life_start (Suc n)) ((life_start (Suc n))
     \<lparr>lf_main := StopProxy 0, lf_proxies := Ended # replicate n Serving, lf_rpc := Sending\<rparr>)"
proof -
  let ?s = "life_start (Suc n)"
  have 1: "life_step ?s (?s\<lparr>lf_proxies := Sending # replicate n Serving\<rparr>)"
    using life_step.proxy_fails [of 0 ?s] by (simp add: life_start_def)
  let ?s1 = "?s\<lparr>lf_proxies := Sending # replicate n Serving\<rparr>"
  have 2: "life_step ?s1 (?s1\<lparr>lf_rpc := Sending\<rparr>)" by (rule life_step.rpc_fails) (simp add: life_start_def)
  let ?s2 = "?s1\<lparr>lf_rpc := Sending\<rparr>"
  have 3: "life_step ?s2 (?s2\<lparr>lf_main := StopProxy 0, lf_proxies := Ended # replicate n Serving\<rparr>)"
    using life_step.proxy_error [of ?s2 0] by (simp add: life_start_def)
  have "life_reach ?s (?s2\<lparr>lf_main := StopProxy 0, lf_proxies := Ended # replicate n Serving\<rparr>)"
    by (rule life_reach.step [OF life_reach.step [OF life_reach.step [OF life_reach.refl 1] 2] 3])
  then show ?thesis by (simp add: life_start_def)
qed

section \<open>A single error, or a signal\<close>

text \<open>What is left of \<open>Shutdown\<close>; every step of \<open>main\<close> shortens it and nothing else lengthens it.\<close>

definition life_left :: "life \<Rightarrow> nat" where
  "life_left s = (case lf_main s of
     Waiting \<Rightarrow> length (lf_proxies s) + 6 | StopProxy k \<Rightarrow> (length (lf_proxies s) - k) + 5
   | RpcStop \<Rightarrow> 4 | RpcWait \<Rightarrow> 3 | NodeStop \<Rightarrow> 2 | Exited \<Rightarrow> 0)
   + length (filter (\<lambda>l. l = Serving) (lf_proxies s)) + (if lf_rpc s = Serving then 1 else 0)"

lemma serving_count_le: "l \<noteq> Serving \<Longrightarrow>
    length (filter (\<lambda>l. l = Serving) (xs[i := l])) \<le> length (filter (\<lambda>l. l = Serving) xs)"
proof (induction xs arbitrary: i)
  case (Cons x xs)
  then show ?case by (cases i) (simp_all add: le_SucI)
qed simp

lemma serving_count_less: "l \<noteq> Serving \<Longrightarrow> i < length xs \<Longrightarrow> xs ! i = Serving \<Longrightarrow>
    length (filter (\<lambda>l. l = Serving) (xs[i := l])) < length (filter (\<lambda>l. l = Serving) xs)"
proof (induction xs arbitrary: i)
  case (Cons x xs)
  then show ?case by (cases i) simp_all
qed simp

lemma life_step_decreases: "life_step s t \<Longrightarrow> life_left t < life_left s"
proof (induction rule: life_step.induct)
  case (proxy_fails i s)
  with serving_count_less [of Sending i "lf_proxies s"] show ?case
    by (simp add: life_left_def split: main_at.split)
next
  case (proxy_error s i)
  with serving_count_le [of Ended "lf_proxies s" i] show ?case by (simp add: life_left_def)
next
  case (stop_proxy s k)
  with serving_count_le [of "proxy_stopped (lf_proxies s ! k)" "lf_proxies s" k] show ?case
    by (simp add: life_left_def)
qed (simp_all add: life_left_def rpc_stopped_def split: main_at.split)

text \<open>
  Runs in which the RPC server does not fail any more: it serves until \<open>Shutdown\<close> reaches it, or has
  ended. The listeners of the proxies may fail at any time.
\<close>

definition quiet_step :: "life \<Rightarrow> life \<Rightarrow> bool" where
  "quiet_step s t \<longleftrightarrow> life_step s t \<and> lf_rpc t \<noteq> Sending"

definition ending :: "life \<Rightarrow> bool" where
  "ending s \<longleftrightarrow> life_inv s \<and> lf_main s \<noteq> Waiting \<and> lf_rpc s \<noteq> Sending"

lemma life_step_leaves: "life_step s t \<Longrightarrow> lf_main s \<noteq> Waiting \<Longrightarrow> lf_main t \<noteq> Waiting"
  by (induction rule: life_step.induct) auto

lemma ending_step: "quiet_step s t \<Longrightarrow> ending s \<Longrightarrow> ending t"
  by (auto simp: quiet_step_def ending_def intro: life_inv_step dest: life_step_leaves)

text \<open>Before the program has exited some such step is possible.\<close>

lemma ending_progress:
  assumes "ending s" and "lf_main s \<noteq> Exited"
  shows "\<exists>t. quiet_step s t"
proof (cases "lf_main s")
  case (StopProxy k)
  show ?thesis
  proof (cases "k < length (lf_proxies s)")
    case True
    from life_step.stop_proxy [OF StopProxy True] assms(1) show ?thesis
      by (intro exI) (auto simp: quiet_step_def ending_def)
  next
    case False
    then have "length (lf_proxies s) \<le> k" by simp
    from life_step.proxies_stopped [OF StopProxy this] assms(1) show ?thesis
      by (intro exI) (auto simp: quiet_step_def ending_def)
  qed
next
  case RpcStop
  have "rpc_stopped (lf_rpc s) \<noteq> Sending" using assms(1) by (simp add: ending_def rpc_stopped_def)
  with life_step.rpc_shutdown [OF RpcStop] show ?thesis by (intro exI) (auto simp: quiet_step_def)
next
  case RpcWait
  with assms(1) have "lf_rpc s = Ended" by (cases "lf_rpc s") (auto simp: ending_def life_inv_def)
  from life_step.rpc_waited [OF RpcWait this] assms(1) show ?thesis
    by (intro exI) (auto simp: quiet_step_def ending_def)
next
  case NodeStop
  from life_step.node_stop [OF NodeStop] assms(1) show ?thesis
    by (intro exI) (auto simp: quiet_step_def ending_def)
qed (use assms in \<open>simp_all add: ending_def\<close>)

lemma ending_run: "(quiet_step ^^ k) s t \<Longrightarrow> ending s \<Longrightarrow> ending t \<and> life_left t + k \<le> life_left s"
proof (induction k arbitrary: t)
  case (Suc k)
  then obtain u where u: "(quiet_step ^^ k) s u" "quiet_step u t" by auto
  from life_step_decreases u(2) have "life_left t < life_left u" by (simp add: quiet_step_def)
  with Suc.IH [OF u(1) Suc.prems(2)] ending_step [OF u(2)] show ?case by simp
qed simp

lemma ending_exits: "ending s \<Longrightarrow> \<exists>t. rtranclp quiet_step s t \<and> lf_main t = Exited"
proof (induction "life_left s" arbitrary: s rule: less_induct)
  case less
  show ?case
  proof (cases "lf_main s = Exited")
    case False
    from ending_progress [OF less.prems False] obtain u where u: "quiet_step s u" ..
    then have "life_left u < life_left s" using life_step_decreases by (simp add: quiet_step_def)
    from less.hyps [OF this ending_step [OF u less.prems]] u show ?thesis
      by (blast intro: converse_rtranclp_into_rtranclp)
  qed blast
qed

end
