(* ===== verification/Ws_Serve.thy ===== *)
theory Ws_Serve
  imports Websocket
begin

text \<open>
  The rest of \<open>ServeHTTP\<close> in \<open>proxy/websocket.go\<close>: dialling the backend, relaying a failed
  handshake, upgrading the connection, and the wait for one of the two copy loops. Dialling and
  upgrading belong to the WebSocket library and are arguments. The dialer is a variable of the
  package: the handler stores the TLS settings of its proxy in it, so its settings are part of the
  state that all handlers share.
\<close>

section \<open>The backend\<close>

text \<open>\<open>url.URL\<close>, with the fields that the handler sets and those it leaves as they are.\<close>

record url =
  u_Scheme :: string
  u_Opaque :: string
  u_User :: string
  u_Host :: string
  u_Path :: string
  u_RawPath :: string
  u_ForceQuery :: bool
  u_RawQuery :: string
  u_Fragment :: string
  u_RawFragment :: string

definition ws_backend :: "url \<Rightarrow> url \<Rightarrow> url" where
  "ws_backend target req_url =
     target\<lparr>u_Fragment := u_Fragment req_url, u_Path := u_Path req_url, u_RawQuery := u_RawQuery req_url\<rparr>"

text \<open>The TLS settings of the shared dialer when a handler dials.\<close>

definition ws_dialer_tls :: "ProxyServer \<Rightarrow> tls_config option \<Rightarrow> tls_config option" where
  "ws_dialer_tls ps dialer =
     (case px_ClientTLSConfig (ps_proxyCfg ps) of None \<Rightarrow> dialer | Some t \<Rightarrow> ct_TlsCfg t)"

section \<open>Replies\<close>

text \<open>A handshake response: its body as far as it can be read, and the error after that, if any.\<close>

record ws_response =
  wp_Header :: header
  wp_StatusCode :: int
  wp_Body :: string
  wp_Err :: "err option"

text \<open>Calls on the response writer, in their order.\<close>

datatype rw_call = RwHeader header | RwWriteHeader int | RwBody string | RwError string int

definition StatusServiceUnavailable :: int where "StatusServiceUnavailable = 503"

definition copyResponse :: "ws_response \<Rightarrow> rw_call list \<times> err option" where
  "copyResponse resp =
     ([RwHeader (copyHeader [] (wp_Header resp)), RwWriteHeader (wp_StatusCode resp), RwBody (wp_Body resp)],
      wp_Err resp)"

definition dial_failed :: "ws_response option \<Rightarrow> rw_call list" where
  "dial_failed r =
     (case r of
        None \<Rightarrow> [RwError ''Service Unavailable'' StatusServiceUnavailable]
      | Some resp \<Rightarrow>
          (case copyResponse resp of
             (calls, None) \<Rightarrow> calls
           | (calls, Some e) \<Rightarrow> calls @ [RwError ''Service Unavailable'' StatusServiceUnavailable]))"

section \<open>The handler\<close>

datatype dial_result = DialErr err "ws_response option" | Dialed ws_response

datatype ws_outcome =
    WsReplied "rw_call list"
  | WsUpgradeFailed
  | WsConnected url header header

definition ws_serve ::
  "'w env \<Rightarrow> (tls_config option \<Rightarrow> url \<Rightarrow> header \<Rightarrow> 'w \<Rightarrow> dial_result \<times> 'w) \<Rightarrow> (header \<Rightarrow> 'w \<Rightarrow> err option \<times> 'w)
   \<Rightarrow> ProxyServer \<Rightarrow> url \<Rightarrow> ws_request \<Rightarrow> url \<Rightarrow> tls_config option \<times> 'w Service \<Rightarrow> 'w
   \<Rightarrow> (ws_outcome \<times> tls_config option \<times> 'w Service) go \<times> 'w" where
  "ws_serve env dial upgrade ps target req req_url st w =
     (case st of (dialer, s) \<Rightarrow>
        io_bind (ws_admit env s req w) (\<lambda>(adm, s1) w1.
          case adm of
            WsError m code \<Rightarrow> (Ret (WsReplied [RwError m code], dialer, s1), w1)
          | WsDial h \<Rightarrow>
              (let tls = ws_dialer_tls ps dialer; u = ws_backend target req_url
               in case dial tls u h w1 of
                    (DialErr e resp, w2) \<Rightarrow> (Ret (WsReplied (dial_failed resp), tls, s1), w2)
                  | (Dialed resp, w2) \<Rightarrow>
                      (let uh = upgrade_header (wp_Header resp)
                       in case upgrade uh w2 of
                            (Some e, w3) \<Rightarrow> (Ret (WsUpgradeFailed, tls, s1), w3)
                          | (None, w3) \<Rightarrow> (Ret (WsConnected u h uh, tls, s1), w3)))))"

text \<open>
  The wait at the end: the value of the loop that copies to the client or of the one that copies to
  the backend, whichever has been sent; \<open>first\<close> decides when both are there.
\<close>

definition ws_wait :: "bool \<Rightarrow> ws_end \<Rightarrow> ws_end \<Rightarrow> ws_err option go" where
  "ws_wait first errClient errBackend =
     (case (errClient, errBackend) of
        (Sent c, Sent b) \<Rightarrow> Ret (if first then c else b)
      | (Sent c, _) \<Rightarrow> Ret c
      | (_, Sent b) \<Rightarrow> Ret b
      | _ \<Rightarrow> Hang)"

section \<open>Facts\<close>

text \<open>Once a handler with TLS settings has dialled, a handler without any dials with those.\<close>

lemma ws_serve_dialer:
  assumes "ws_serve env dial upgrade ps target req u (d, s) w = (Ret (out, d1, s1), w1)"
    and "IsClientUp (sv_node s)" and "px_ClientTLSConfig (ps_proxyCfg ps) = Some t"
  shows "d1 = ct_TlsCfg t"
  using assms
  by (auto simp: ws_serve_def ws_admit_def PrepareClient_def StartClient_def ws_dialer_tls_def Let_def
      split: prod.split_asm dial_result.split_asm option.split_asm)

lemma ws_serve_no_tls:
  assumes "px_ClientTLSConfig (ps_proxyCfg ps) = None"
  shows "ws_serve env dial upgrade ps target req u (d, s) w = ws_serve env (\<lambda>tls. dial d) upgrade ps target req u (d, s) w"
proof -
  have tls: "ws_dialer_tls ps d = d" using assms by (simp add: ws_dialer_tls_def)
  show ?thesis unfolding ws_serve_def Let_def prod.case tls ..
qed

text \<open>A node that is busy ends the loop from the client without a value for the wait.\<close>

lemma busy_message_ends_silently:
  assumes "IsNodeBusy (sv_node s) = Some e"
  shows "replicateWebsocketConn env turn ct wr True (Inr m # ms) s w =
    (Ret (([close_frame ct (OtherError e)], Silent), s), w)"
  using assms by (cases m) (simp add: admit_message_def)

lemma ws_wait_Hang: "ws_wait f c b = Hang \<longleftrightarrow> (\<nexists>e. c = Sent e) \<and> (\<nexists>e. b = Sent e)"
  by (cases c; cases b) (simp_all add: ws_wait_def)

end
