(* ===== verification/Phases.thy ===== *)
theory Phases
  imports P2P_Facts
begin

text \<open>
  The stop protocol of one hibernator, as the others see it: a specification, not a translation of
  code. \<open>StopClient\<close> announces the shutdown in its node status, asks every peer for its status, and
  gives way if one of the results says that a shutdown is announced or waits for consensus.
  \<open>Controller_Runs\<close> shows that the controller keeps to these phases, \<open>Network\<close> puts several of them
  together.
\<close>

datatype 'i phase =
    Idle                      \<comment> \<open>outside \<open>StopClient\<close>, or before it sets the status\<close>
  | Announced                 \<comment> \<open>the status is set, nobody has been asked\<close>
  | Polling "'i set" bool     \<comment> \<open>in \<open>ValidatePeers\<close>: peers still to answer, a refusal seen\<close>
  | Stopping                  \<comment> \<open>in \<open>stopProcesses\<close>\<close>
  | Cooling                   \<comment> \<open>in the sleep after a successful stop\<close>
  | Stuck                     \<comment> \<open>after a failed stop\<close>

text \<open>What a node status means to \<open>ValidatePeers\<close>.\<close>

definition refuses :: "NodeStatus \<Rightarrow> bool" where
  "refuses st \<longleftrightarrow> shutdown_loop [zero_NodeStatusInfo\<lparr>nsi_Status := st\<rparr>]"

lemma refuses_iff: "refuses st \<longleftrightarrow> st = ShutdownInprogress \<or> st = ConsensusWait"
  by (simp add: refuses_def)

text \<open>
  The status that the result of a query holds: a peer that gives no reply leaves the result as it
  was declared. Whether that refuses is for \<open>refuses\<close> to say, as for any other status.
\<close>

definition heard :: "NodeStatus option \<Rightarrow> NodeStatus" where
  "heard r = (case r of None \<Rightarrow> nsi_Status zero_NodeStatusInfo | Some st \<Rightarrow> st)"

lemma heard_simps [simp]: "heard (Some st) = st" "heard None = 0"
  by (simp_all add: heard_def zero_NodeStatusInfo_def)

text \<open>
  One step of a node whose peers \<open>P\<close> reply as \<open>reply\<close> says, \<open>None\<close> if not at all. A failed stop is
  left only by a \<open>StartClient\<close> that finds the client down.
\<close>

inductive phase_step ::
  "('i \<Rightarrow> NodeStatus option) \<Rightarrow> 'i set \<Rightarrow> NodeStatus \<times> 'i phase \<Rightarrow> NodeStatus \<times> 'i phase \<Rightarrow> bool"
  for reply P where
  announce: "st \<noteq> ShutdownInprogress \<Longrightarrow> st \<noteq> StartupInprogress \<Longrightarrow>
     phase_step reply P (st, Idle) (ShutdownInprogress, Announced)"
| ask: "phase_step reply P (st, Announced) (st, Polling P False)"
| result: "j \<in> Q \<Longrightarrow>
     phase_step reply P (st, Polling Q bad) (st, Polling (Q - {j}) (bad \<or> refuses (heard (reply j))))"
| refuse: "phase_step reply P (st, Polling {} True) (OK, Idle)"
| pass: "phase_step reply P (st, Polling {} False) (st, Stopping)"
| stopped: "phase_step reply P (st, Stopping) (ConsensusWait, Cooling)"
| stuck: "phase_step reply P (st, Stopping) (st, Stuck)"
| resume: "phase_step reply P (st, Cooling) (OK, Idle)"
| startup: "st' \<in> {StartupInprogress, OK} \<Longrightarrow> phase_step reply P (st, Idle) (st', Idle)"
| recover: "phase_step reply P (st, Stuck) (StartupInprogress, Idle)"

inductive_cases phase_stepE: "phase_step reply P (st, ph) (st', ph')"

text \<open>The status that a phase shows.\<close>

definition phase_status :: "'i phase \<Rightarrow> NodeStatus \<Rightarrow> bool" where
  "phase_status ph st = (case ph of
     Idle \<Rightarrow> st \<in> {StartupInprogress, OK}
   | Announced \<Rightarrow> st = ShutdownInprogress
   | Polling P b \<Rightarrow> st = ShutdownInprogress
   | Stopping \<Rightarrow> st = ShutdownInprogress
   | Cooling \<Rightarrow> st = ConsensusWait
   | Stuck \<Rightarrow> st = ShutdownInprogress)"

lemma phase_step_status: "phase_step reply P v v' \<Longrightarrow> phase_status (snd v) (fst v) \<Longrightarrow> phase_status (snd v') (fst v')"
  by (induction rule: phase_step.induct) (auto simp: phase_status_def)

text \<open>A whole poll: when all results are there, they decide.\<close>

lemma phase_poll:
  assumes "finite Q"
  shows "rtranclp (phase_step reply P) (st, Polling Q bad)
    (st, Polling {} (bad \<or> (\<exists>j\<in>Q. refuses (heard (reply j)))))"
  using assms
proof (induction Q arbitrary: bad rule: finite_induct)
  case (insert j Q)
  let ?bad = "bad \<or> refuses (heard (reply j))"
  have d: "insert j Q - {j} = Q" using insert.hyps(2) by simp
  have "phase_step reply P (st, Polling (insert j Q) bad) (st, Polling (insert j Q - {j}) ?bad)"
    by (rule phase_step.result) simp
  with insert.IH [of ?bad] show ?case unfolding d
    by (auto intro: converse_rtranclp_into_rtranclp simp: disj_assoc)
qed simp

end
