(* ===== verification/Network.thy ===== *)
theory Network
  imports Node_Service Phases
begin

text \<open>
  Several hibernators at once, each of which keeps to the phases of \<open>Phases\<close>; the replies are what
  \<open>NodeStatus\<close> sends at the moment a node is asked. Two nodes that list and reach each other never
  stop at the same time.
\<close>

section \<open>The network\<close>

record 'i net =
  net_status :: "'i \<Rightarrow> NodeStatus"
  net_phase :: "'i \<Rightarrow> 'i phase"

definition net_init :: "'i net" where
  "net_init = \<lparr>net_status = (\<lambda>i. OK), net_phase = (\<lambda>i. Idle)\<rparr>"

definition net_reply :: "'i net \<Rightarrow> 'i \<Rightarrow> NodeStatusInfo" where
  "net_reply s j = zero_NodeStatusInfo\<lparr>nsi_Status := net_status s j\<rparr>"

definition net_replies :: "('i \<Rightarrow> 'i \<Rightarrow> bool) \<Rightarrow> 'i net \<Rightarrow> 'i \<Rightarrow> 'i \<Rightarrow> NodeStatus option" where
  "net_replies reach s i j = (if j \<noteq> i \<and> reach i j then Some (nsi_Status (net_reply s j)) else None)"

definition net_set :: "'i \<Rightarrow> NodeStatus \<Rightarrow> 'i phase \<Rightarrow> 'i net \<Rightarrow> 'i net" where
  "net_set i st ph s = s\<lparr>net_status := (net_status s)(i := st), net_phase := (net_phase s)(i := ph)\<rparr>"

lemma net_set_simps [simp]:
  "net_status (net_set i st ph s) = (net_status s)(i := st)"
  "net_phase (net_set i st ph s) = (net_phase s)(i := ph)"
  by (simp_all add: net_set_def)

lemma net_replies_simps [simp]:
  "net_replies reach s i j = None \<longleftrightarrow> j = i \<or> \<not> reach i j"
  "net_replies reach s i j = Some r \<longleftrightarrow> j \<noteq> i \<and> reach i j \<and> r = net_status s j"
  "net_replies reach (net_set i st ph s) i = net_replies reach s i"
  by (auto simp: net_replies_def net_reply_def net_set_def fun_eq_iff)

text \<open>One node takes a step of its protocol.\<close>

inductive net_step :: "('i \<Rightarrow> 'i set) \<Rightarrow> ('i \<Rightarrow> 'i \<Rightarrow> bool) \<Rightarrow> 'i net \<Rightarrow> 'i net \<Rightarrow> bool" for peers reach where
  node: "phase_step (net_replies reach s i) (peers i - {i}) (net_status s i, net_phase s i) (st, ph) \<Longrightarrow>
     net_step peers reach s (net_set i st ph s)"

inductive net_reach :: "('i \<Rightarrow> 'i set) \<Rightarrow> ('i \<Rightarrow> 'i \<Rightarrow> bool) \<Rightarrow> 'i net \<Rightarrow> bool" for peers reach where
  init: "net_reach peers reach net_init"
| step: "net_reach peers reach s \<Longrightarrow> net_step peers reach s t \<Longrightarrow> net_reach peers reach t"

lemma net_reach_steps: "rtranclp (net_step peers reach) s t \<Longrightarrow> net_reach peers reach s \<Longrightarrow> net_reach peers reach t"
  by (induction rule: rtranclp_induct) (auto intro: net_reach.step)

lemma net_set_same [simp]: "net_set i (net_status s i) (net_phase s i) s = s"
  by (cases s) (simp add: net_set_def)

lemma net_set_twice [simp]: "net_set i st ph (net_set i st' ph' s) = net_set i st ph s"
  by (cases s) (simp add: net_set_def)

text \<open>Several steps of one node, the others unchanged.\<close>

lemma net_steps_node:
  assumes "rtranclp (phase_step (net_replies reach s i) (peers i - {i})) (net_status s i, net_phase s i) v"
  shows "rtranclp (net_step peers reach) s (net_set i (fst v) (snd v) s)"
  using assms
proof (induction rule: rtranclp_induct)
  case (step v u)
  have "net_step peers reach (net_set i (fst v) (snd v) s) (net_set i (fst u) (snd u) (net_set i (fst v) (snd v) s))"
    by (rule net_step.node) (use step.hyps(2) in simp)
  with step.IH show ?case by simp
qed simp

section \<open>Invariant\<close>

text \<open>Phases after the poll, and the nodes whose peer \<open>j\<close> has let them pass.\<close>

definition stopping :: "'i phase \<Rightarrow> bool" where
  "stopping ph \<longleftrightarrow> ph \<in> {Stopping, Cooling, Stuck}"

definition cleared :: "'i phase \<Rightarrow> 'i \<Rightarrow> bool" where
  "cleared ph j = (case ph of Idle \<Rightarrow> False | Announced \<Rightarrow> False | Polling P b \<Rightarrow> \<not> b \<and> j \<notin> P | _ \<Rightarrow> True)"

definition net_inv :: "'i \<Rightarrow> 'i \<Rightarrow> 'i net \<Rightarrow> bool" where
  "net_inv i j s \<longleftrightarrow>
     (\<forall>k. phase_status (net_phase s k) (net_status s k)) \<and>
     \<not> (cleared (net_phase s i) j \<and> cleared (net_phase s j) i)"

lemma refuses_phase: "phase_status ph st \<Longrightarrow> \<not> refuses st \<longleftrightarrow> ph = Idle"
  by (cases ph) (auto simp: phase_status_def refuses_iff)

text \<open>A node is cleared by a peer only in a step in which the result of that peer does not refuse.\<close>

lemma phase_step_cleared:
  assumes "phase_step reply P v v'" and "cleared (snd v') m" and "\<not> cleared (snd v) m" and "m \<in> P"
  shows "\<not> refuses (heard (reply m))"
  using assms by (induction rule: phase_step.induct) (auto simp: cleared_def split: if_splits)

lemma net_inv_step:
  assumes "net_step peers reach s t" and "net_inv i j s"
    and ij: "i \<noteq> j" "j \<in> peers i" "i \<in> peers j" "reach i j" "reach j i"
  shows "net_inv i j t"
  using assms(1,2)
proof (induction rule: net_step.induct)
  case (node s k st ph)
  have ps: "phase_status (net_phase s m) (net_status s m)" for m using node.prems by (simp add: net_inv_def)
  have nc: "\<not> (cleared (net_phase s i) j \<and> cleared (net_phase s j) i)" using node.prems by (simp add: net_inv_def)
  have k: "phase_status ph st" using phase_step_status [OF node.hyps] ps [of k] by simp
  have idle: "net_phase s m = Idle" if "cleared ph m" "\<not> cleared (net_phase s k) m" "m \<in> peers k - {k}" "reach k m" for m
  proof -
    have r: "net_replies reach s k m = Some (net_status s m)" using that(3,4) by simp
    have "\<not> refuses (heard (net_replies reach s k m))"
      by (rule phase_step_cleared [OF node.hyps]) (use that in simp_all)
    then show ?thesis using refuses_phase [OF ps [of m]] unfolding r by simp
  qed
  have "\<not> (cleared (((net_phase s)(k := ph)) i) j \<and> cleared (((net_phase s)(k := ph)) j) i)"
  proof (cases "k = i \<or> k = j")
    case True
    with idle [of i] idle [of j] nc ij show ?thesis by (auto simp: cleared_def)
  next
    case False
    with nc show ?thesis by auto
  qed
  with k ps show ?case by (auto simp: net_inv_def)
qed

lemma net_inv_init: "net_inv i j net_init"
  by (simp add: net_inv_def net_init_def phase_status_def cleared_def)

lemma net_reach_inv:
  assumes "net_reach peers reach s" and "i \<noteq> j" "j \<in> peers i" "i \<in> peers j" "reach i j" "reach j i"
  shows "net_inv i j s"
  using assms(1) by (induction rule: net_reach.induct) (auto intro: net_inv_init net_inv_step [OF _ _ assms(2-)])

lemma stopping_cleared: "stopping ph \<Longrightarrow> cleared ph j"
  by (auto simp: stopping_def cleared_def)

lemma never_both_stopping:
  assumes "net_reach peers reach s" and "i \<noteq> j" "j \<in> peers i" "i \<in> peers j" "reach i j" "reach j i"
  shows "\<not> (stopping (net_phase s i) \<and> stopping (net_phase s j))"
  using net_reach_inv [OF assms] unfolding net_inv_def by (metis stopping_cleared)

section \<open>Runs\<close>

text \<open>The run of a node whose only peer is the other one, and replies and does not refuse.\<close>

definition passes :: "'i \<Rightarrow> 'i \<Rightarrow> 'i net \<Rightarrow> 'i net" where
  "passes i j s = net_set i ShutdownInprogress Stopping (net_set i ShutdownInprogress (Polling {} False)
     (net_set i ShutdownInprogress (Polling {j} False) (net_set i ShutdownInprogress Announced s)))"

lemma passes_reach:
  assumes "net_reach peers reach s" and "net_phase s i = Idle" and "net_status s i = OK" and "peers i - {i} = {j}"
    and "reach i j" and "\<not> refuses (net_status s j)"
  shows "net_reach peers reach (passes i j s)"
proof -
  let ?s0 = "net_set i ShutdownInprogress Announced s"
  let ?s1 = "net_set i ShutdownInprogress (Polling {j} False) ?s0"
  let ?s2 = "net_set i ShutdownInprogress (Polling {} False) ?s1"
  have "i \<noteq> j" using assms(4) by auto
  have "net_step peers reach s ?s0"
    using phase_step.announce [of OK "net_replies reach s i" "peers i - {i}"]
    by (intro net_step.node) (simp add: assms(2,3))
  moreover have "net_step peers reach ?s0 ?s1"
    using phase_step.ask [of _ "peers i - {i}" ShutdownInprogress] by (intro net_step.node) (simp add: assms(4))
  moreover have "net_step peers reach ?s1 ?s2"
  proof -
    have "phase_step (net_replies reach ?s1 i) (peers i - {i}) (ShutdownInprogress, Polling {j} False)
        (ShutdownInprogress, Polling ({j} - {j}) (False \<or> refuses (heard (net_replies reach ?s1 i j))))"
      by (rule phase_step.result) simp
    moreover have r: "net_replies reach s i j = Some (net_status s j)" using assms(5) \<open>i \<noteq> j\<close> by simp
    ultimately have "phase_step (net_replies reach ?s1 i) (peers i - {i}) (ShutdownInprogress, Polling {j} False)
        (ShutdownInprogress, Polling {} False)" using assms(6) by (simp add: r del: net_replies_simps(2))
    then show ?thesis by (intro net_step.node) simp
  qed
  moreover have "net_step peers reach ?s2 (passes i j s)"
    unfolding passes_def by (rule net_step.node) (simp add: phase_step.pass)
  ultimately show ?thesis using assms(1) by (blast intro: net_reach.step)
qed

lemma passes_simps [simp]:
  "net_phase (passes i j s) = (net_phase s)(i := Stopping)"
  "net_status (passes i j s) = (net_status s)(i := ShutdownInprogress)"
  by (simp_all add: passes_def)

text \<open>Between two nodes that reach each other one can stop, and then the other has not passed.\<close>

lemma one_stops:
  assumes "peers True = {False}" and "reach True False"
  shows "net_reach peers reach (passes True False net_init)"
  by (rule passes_reach [OF net_reach.init]) (auto simp: assms net_init_def refuses_iff)

end
