(* ===== verification/Controller_Steps.thy ===== *)
theory Controller_Steps
  imports Node_Facts
begin

text \<open>
  The operations of \<open>node/control.go\<close> in the small steps between which other goroutines can run:
  one step for every access to a status, every call of a process and every call of another
  component. \<open>CheckClientUpStatus\<close> does not take the start/stop mutex, so its steps fall between
  those of \<open>StopClient\<close> and \<open>StartClient\<close>. Run without interference, the steps compute what the
  definitions of \<open>Node_Control\<close> do.
\<close>

section \<open>Program points\<close>

text \<open>The operations that goroutines call: \<open>StopClient\<close>, \<open>StartClient\<close>, \<open>CheckClientUpStatus\<close>.\<close>

datatype ctl_op = Op_Stop | Op_Start | Op_Check bool

datatype pc =
    Chk_Up ctl_op | Chk_Fetch ctl_op | Chk_Pm ctl_op bool | Chk_Bc ctl_op bool | Chk_Set ctl_op bool
  | Stop_Up | Stop_Busy | Stop_Cons | Stop_Sleep | Stop_Announce | Stop_Peers | Stop_Refuse
  | Stop_Procs | Stop_Pm bool | Stop_Bc bool | Stop_Down | Stop_Wait | Stop_Cool | Stop_End
  | Start_Up | Start_Again | Start_Announce | Start_Pm | Start_Bc bool | Start_Mark | Start_End
  | Done ctl_op bool

text \<open>Where an operation begins, and what it does with the result of an up check.\<close>

definition entry :: "ctl_op \<Rightarrow> pc" where
  "entry opn = (case opn of Op_Stop \<Rightarrow> Stop_Up | Op_Start \<Rightarrow> Start_Up | Op_Check c \<Rightarrow> Chk_Up opn)"

definition connects :: "ctl_op \<Rightarrow> bool" where
  "connects opn = (case opn of Op_Check c \<Rightarrow> c | _ \<Rightarrow> True)"

definition checked :: "ctl_op \<Rightarrow> bool \<Rightarrow> pc" where
  "checked opn up = (if opn = Op_Start \<and> \<not> up then Start_Announce else Done opn up)"

section \<open>Steps\<close>

definition then_to :: "('a \<times> 'w NodeControl) go \<times> 'w \<Rightarrow> ('a \<Rightarrow> pc) \<Rightarrow> (pc \<times> 'w NodeControl) go \<times> 'w" where
  "then_to m f = io_bind m (\<lambda>(a, n) w. (Ret (f a, n), w))"

fun micro :: "'w env \<Rightarrow> pc \<Rightarrow> 'w NodeControl \<Rightarrow> 'w \<Rightarrow> (pc \<times> 'w NodeControl) go \<times> 'w" where
  "micro env (Chk_Up opn) n w = (Ret (if \<not> IsClientUp n \<and> \<not> connects opn then Done opn False else Chk_Fetch opn, n), w)"
| "micro env (Chk_Fetch opn) n w =
     (if \<not> nc_withPrivMan n then then_to (on_bc Proc_UpdateStatus env n w) (Chk_Set opn)
      else if first_first env w then then_to (on_bc Proc_UpdateStatus env n w) (Chk_Pm opn)
      else then_to (on_pm Proc_UpdateStatus env n w) (Chk_Bc opn))"
| "micro env (Chk_Pm opn b) n w = then_to (on_pm Proc_UpdateStatus env n w) (\<lambda>p. Chk_Set opn (b \<and> p))"
| "micro env (Chk_Bc opn p) n w = then_to (on_bc Proc_UpdateStatus env n w) (\<lambda>b. Chk_Set opn (b \<and> p))"
| "micro env (Chk_Set opn up) n w = (Ret (checked opn up, SetClntStatus (if up then Up else Down) n), w)"
| "micro env Stop_Up n w = (Ret (if IsClientUp n then Stop_Busy else Done Op_Stop True, n), w)"
| "micro env Stop_Busy n w = (Ret (if IsNodeBusy n \<noteq> None then Done Op_Stop False else Stop_Cons, n), w)"
| "micro env Stop_Cons n w =
     io_bind (checkAndValidateConsensus env n w) (\<lambda>((consensusNode, err), n1) w1.
       (Ret (if err \<noteq> None then Stop_Refuse
             else if consensusNode \<and> \<not> b_DisableStrictMode (basic n1) then Done Op_Stop False
             else Stop_Sleep, n1), w1))"
| "micro env Stop_Sleep n w =
     io_bind (RandomInt env 10 5000 w) (\<lambda>ms w1. (Ret (Stop_Announce, n), sleep env (ms * Millisecond) w1))"
| "micro env Stop_Announce n w = (Ret (Stop_Peers, SetNodeStatus ShutdownInprogress n), w)"
| "micro env Stop_Peers n w =
     io_bind (ValidatePeers env (nc_nh n) w) (\<lambda>((peersStatus, err), pm) w1.
       (Ret (if err \<noteq> None then Stop_Refuse else Stop_Procs, n\<lparr>nc_nh := pm\<rparr>), w1))"
| "micro env Stop_Refuse n w = (Ret (Done Op_Stop False, SetNodeStatus OK n), w)"
| "micro env Stop_Procs n w =
     (if nc_pmclntProcess n = None then
        then_to (lift_proc (on_bc Proc_Stop env n w)) (\<lambda>e. if e = None then Stop_Down else Done Op_Stop False)
      else if first_first env w then then_to (lift_proc (on_bc Proc_Stop env n w)) (\<lambda>e. Stop_Pm (e = None))
      else then_to (lift_proc (on_pm Proc_Stop env n w)) (\<lambda>e. Stop_Bc (e = None)))"
| "micro env (Stop_Pm b) n w =
     then_to (lift_proc (on_pm Proc_Stop env n w)) (\<lambda>e. if b \<and> e = None then Stop_Down else Done Op_Stop False)"
| "micro env (Stop_Bc p) n w =
     then_to (lift_proc (on_bc Proc_Stop env n w)) (\<lambda>e. if e = None \<and> p then Stop_Down else Done Op_Stop False)"
| "micro env Stop_Down n w = (Ret (Stop_Wait, SetClntStatus Down n), w)"
| "micro env Stop_Wait n w = (Ret (Stop_Cool, SetNodeStatus ConsensusWait n), w)"
| "micro env Stop_Cool n w = (Ret (Stop_End, n), sleep env (CONSENSUS_WAIT_TIME * Second) w)"
| "micro env Stop_End n w = (Ret (Done Op_Stop True, SetNodeStatus OK n), w)"
| "micro env Start_Up n w = (Ret (if IsClientUp n then Done Op_Start True else Start_Again, n), w)"
| "micro env Start_Again n w = (Ret (if \<not> IsClientUp n then Chk_Up Op_Start else Start_Announce, n), w)"
| "micro env Start_Announce n w = (Ret (Start_Pm, SetNodeStatus StartupInprogress n), w)"
| "micro env Start_Pm n w =
     (if nc_withPrivMan n then then_to (lift_proc (on_pm Proc_Start env n w)) (\<lambda>e. Start_Bc (e = None))
      else (Ret (Start_Bc True, n), w))"
| "micro env (Start_Bc gs) n w =
     then_to (lift_proc (on_bc Proc_Start env n w)) (\<lambda>e. if gs \<and> e = None then Start_Mark else Done Op_Start False)"
| "micro env Start_Mark n w = (Ret (Start_End, SetClntStatus Up n), w)"
| "micro env Start_End n w = (Ret (Done Op_Start True, SetNodeStatus OK n), w)"
| "micro env (Done opn b) n w = (Ret (Done opn b, n), w)"

primrec micro_run :: "'w env \<Rightarrow> nat \<Rightarrow> pc \<Rightarrow> 'w NodeControl \<Rightarrow> 'w \<Rightarrow> (pc \<times> 'w NodeControl) go \<times> 'w" where
  "micro_run env 0 pc n w = (Ret (pc, n), w)"
| "micro_run env (Suc k) pc n w = io_bind (micro env pc n w) (\<lambda>(pc1, n1) w1. micro_run env k pc1 n1 w1)"

text \<open>The operation as a whole.\<close>

definition run_op :: "'w env \<Rightarrow> ctl_op \<Rightarrow> 'w NodeControl \<Rightarrow> 'w \<Rightarrow> (bool \<times> 'w NodeControl) go \<times> 'w" where
  "run_op env opn n w = (case opn of
     Op_Stop \<Rightarrow> StopClient env n w
   | Op_Start \<Rightarrow> StartClient env n w
   | Op_Check c \<Rightarrow> CheckClientUpStatus env c n w)"

section \<open>The end of an operation\<close>

text \<open>How many steps an operation still takes at most; every step but that of \<open>Done\<close> lowers it.\<close>

fun rank :: "pc \<Rightarrow> nat" where
  "rank (Done opn b) = 0"
| "rank Stop_Refuse = 1" | "rank Stop_End = 1" | "rank Stop_Cool = 2" | "rank Stop_Wait = 3" | "rank Stop_Down = 4"
| "rank (Stop_Pm b) = 5" | "rank (Stop_Bc p) = 5" | "rank Stop_Procs = 6" | "rank Stop_Peers = 7"
| "rank Stop_Announce = 8" | "rank Stop_Sleep = 9" | "rank Stop_Cons = 10" | "rank Stop_Busy = 11" | "rank Stop_Up = 12"
| "rank Start_End = 1" | "rank Start_Mark = 2" | "rank (Start_Bc gs) = 3" | "rank Start_Pm = 4" | "rank Start_Announce = 5"
| "rank (Chk_Set opn up) = 6" | "rank (Chk_Pm opn b) = 7" | "rank (Chk_Bc opn p) = 7" | "rank (Chk_Fetch opn) = 8"
| "rank (Chk_Up opn) = 9" | "rank Start_Again = 10" | "rank Start_Up = 11"

lemma then_to_eq_Ret: "then_to m f = (Ret (pc', n'), w') \<longleftrightarrow> (\<exists>a. m = (Ret (a, n'), w') \<and> pc' = f a)"
  by (auto simp: then_to_def io_bind_eq_Ret)

lemma micro_rank:
  assumes "micro env pc n w = (Ret (pc', n'), w')" and "0 < rank pc"
  shows "rank pc' < rank pc"
  using assms by (cases pc) (auto simp: then_to_eq_Ret io_bind_eq_Ret checked_def split: if_splits)

lemma rank_zero: "rank pc = 0 \<Longrightarrow> \<exists>opn b. pc = Done opn b"
  by (cases pc) simp_all

lemma micro_rank_le:
  assumes "micro env pc n w = (Ret (pc', n'), w')"
  shows "rank pc' \<le> rank pc"
proof (cases "rank pc = 0")
  case True
  with rank_zero [of pc] assms show ?thesis by auto
next
  case False
  with micro_rank [OF assms] show ?thesis by simp
qed

lemma rank_entry: "rank (entry opn) \<le> 12"
  by (cases opn) (simp_all add: entry_def)

lemma micro_run_Done [simp]: "micro_run env k (Done opn b) n w = (Ret (Done opn b, n), w)"
  by (induction k) simp_all

lemma micro_run_rank: "micro_run env k pc n w = (Ret (pc', n'), w') \<Longrightarrow> rank pc' \<le> rank pc"
proof (induction k arbitrary: pc n w)
  case (Suc k)
  then obtain pc1 n1 w1 where "micro env pc n w = (Ret (pc1, n1), w1)" "micro_run env k pc1 n1 w1 = (Ret (pc', n'), w')"
    by (auto elim!: io_bindE)
  with Suc.IH micro_rank_le show ?case by fastforce
qed simp

lemma micro_run_more: "rank pc \<le> k \<Longrightarrow> micro_run env (Suc k) pc n w = micro_run env k pc n w"
proof (induction k arbitrary: pc n w)
  case 0
  with rank_zero [of pc] show ?case by auto
next
  case (Suc k)
  show ?case
  proof (cases "rank pc = 0")
    case True
    with rank_zero [of pc] show ?thesis by auto
  next
    case False
    obtain r w1 where m: "micro env pc n w = (r, w1)" by fastforce
    show ?thesis
    proof (cases r)
      case (Ret x)
      obtain pc1 n1 where x: "x = (pc1, n1)" by fastforce
      from micro_rank m Ret x False have "rank pc1 < rank pc" by simp
      with Suc.prems have "rank pc1 \<le> k" by simp
      from Suc.IH [OF this] show ?thesis unfolding micro_run.simps(2) [of env _ pc] m Ret x by simp
    qed (unfold micro_run.simps(2) [of env _ pc] m, simp_all)
  qed
qed

text \<open>What an operation returns from a program point on, when nobody interferes.\<close>

definition outcome_at :: "'w env \<Rightarrow> pc \<Rightarrow> 'w NodeControl \<Rightarrow> 'w \<Rightarrow> (pc \<times> 'w NodeControl) go \<times> 'w" where
  "outcome_at env pc n w = micro_run env (rank pc) pc n w"

lemma micro_run_outcome: "rank pc \<le> k \<Longrightarrow> micro_run env k pc n w = outcome_at env pc n w"
proof (induction k)
  case 0
  then show ?case by (simp add: outcome_at_def)
next
  case (Suc k)
  show ?case
  proof (cases "rank pc = Suc k")
    case False
    with Suc.prems have "rank pc \<le> k" by simp
    with Suc.IH show ?thesis by (simp only: micro_run_more)
  qed (simp only: outcome_at_def)
qed

lemma outcome_step: "outcome_at env pc n w = io_bind (micro env pc n w) (\<lambda>(pc1, n1) w1. outcome_at env pc1 n1 w1)"
proof -
  obtain r w1 where m: "micro env pc n w = (r, w1)" by fastforce
  have "outcome_at env pc n w = micro_run env (Suc (rank pc)) pc n w" by (simp only: outcome_at_def micro_run_more order_refl)
  also have "\<dots> = io_bind (micro env pc n w) (\<lambda>(pc1, n1) w1. outcome_at env pc1 n1 w1)"
  proof (cases r)
    case (Ret x)
    obtain pc1 n1 where x: "x = (pc1, n1)" by fastforce
    have "rank pc1 \<le> rank pc" using micro_rank_le m Ret x by simp
    then show ?thesis by (simp add: m Ret x micro_run_outcome)
  qed (simp_all add: m)
  finally show ?thesis .
qed

section \<open>Without interference\<close>

lemma io_bind_assoc: "io_bind (io_bind m f) g = io_bind m (\<lambda>x w. io_bind (f x w) g)"
  by (auto simp: io_bind_def split: prod.splits go.splits)

lemma io_bind_ext: "(\<And>x w. f x w = g x w) \<Longrightarrow> io_bind m f = io_bind m g"
  by (auto simp: io_bind_def split: prod.splits go.splits)

lemma outcome_then_to:
  "io_bind (then_to m f) (\<lambda>p. outcome_at env (fst p) (snd p)) = io_bind m (\<lambda>x. outcome_at env (f (fst x)) (snd x))"
  by (simp add: then_to_def io_bind_assoc case_prod_unfold)

lemma outcome_Done [simp]: "outcome_at env (Done opn b) n w = (Ret (Done opn b, n), w)"
  by (simp add: outcome_at_def)

lemma outcome_if:
  "outcome_at env (if c then p else q) n w = (if c then outcome_at env p n w else outcome_at env q n w)"
  by simp

lemmas outcome_simps = outcome_then_to outcome_if io_bind_assoc case_prod_unfold

lemma outcome_stopped:
  "outcome_at env Stop_Down n w =
     (Ret (Done Op_Stop True, SetNodeStatus OK (SetNodeStatus ConsensusWait (SetClntStatus Down n))),
      sleep env (CONSENSUS_WAIT_TIME * Second) w)"
  by (simp add: outcome_step [of _ Stop_Down] outcome_step [of _ Stop_Wait] outcome_step [of _ Stop_Cool]
      outcome_step [of _ Stop_End])

lemma outcome_processes:
  "outcome_at env Stop_Procs n w =
     io_bind (stopProcesses env n w) (\<lambda>((b, p), n1) w1.
       if b \<and> p then outcome_at env Stop_Down n1 w1 else (Ret (Done Op_Stop False, n1), w1))"
  by (auto simp: outcome_step [of _ Stop_Procs] outcome_step [of _ "Stop_Pm b" for b] outcome_step [of _ "Stop_Bc b" for b]
      outcome_simps stopProcesses_def intro!: io_bind_ext)

lemma outcome_stop_checks:
  "outcome_at env Stop_Cons n w =
     io_bind (stop_checks env n w) (\<lambda>(go_ahead, n1) w1.
       if go_ahead then outcome_at env Stop_Procs n1 w1 else (Ret (Done Op_Stop False, n1), w1))"
  by (auto simp: outcome_step [of _ Stop_Cons] outcome_step [of _ Stop_Sleep] outcome_step [of _ Stop_Announce]
      outcome_step [of _ Stop_Peers] outcome_step [of _ Stop_Refuse] outcome_simps stop_checks_def Let_def
      intro!: io_bind_ext split: option.split)

lemma outcome_check:
  "outcome_at env (Chk_Up opn) n w =
     io_bind (CheckClientUpStatus env (connects opn) n w) (\<lambda>(up, n1) w1. outcome_at env (checked opn up) n1 w1)"
proof (cases "\<not> IsClientUp n \<and> \<not> connects opn")
  case True
  then have "checked opn False = Done opn False" by (cases opn) (auto simp: checked_def connects_def)
  with True show ?thesis by (simp add: outcome_step [of _ "Chk_Up opn" for opn] CheckClientUpStatus_def)
next
  case False
  then show ?thesis
    by (auto simp: outcome_step [of _ "Chk_Up opn" for opn] outcome_step [of _ "Chk_Fetch opn" for opn]
      outcome_step [of _ "Chk_Pm opn b" for opn b] outcome_step [of _ "Chk_Bc opn b" for opn b]
      outcome_step [of _ "Chk_Set opn b" for opn b] outcome_simps CheckClientUpStatus_def
      fetchCurrentClientStatuses_def Let_def intro!: io_bind_ext)
qed

lemma outcome_start:
  "outcome_at env Start_Announce n w =
     (let n2 = SetNodeStatus StartupInprogress n in
      io_bind (if nc_withPrivMan n2 then lift_proc (on_pm Proc_Start env n2 w) else (Ret (None, n2), w)) (\<lambda>(pe, n3) w3.
        io_bind (lift_proc (on_bc Proc_Start env n3 w3)) (\<lambda>(be, n4) w4.
          if pe = None \<and> be = None then (Ret (Done Op_Start True, SetNodeStatus OK (SetClntStatus Up n4)), w4)
          else (Ret (Done Op_Start False, n4), w4))))"
  by (auto simp: outcome_step [of _ Start_Announce] outcome_step [of _ Start_Pm] outcome_step [of _ "Start_Bc b" for b]
      outcome_step [of _ Start_Mark] outcome_step [of _ Start_End] outcome_simps Let_def intro!: io_bind_ext)

lemma outcome_entry:
  "outcome_at env (entry opn) n w = io_bind (run_op env opn n w) (\<lambda>(b, n') w'. (Ret (Done opn b, n'), w'))"
proof (cases opn)
  case Op_Stop
  then show ?thesis
    by (auto simp: entry_def run_op_def StopClient_def outcome_step [of _ Stop_Up] outcome_step [of _ Stop_Busy]
        outcome_stop_checks outcome_processes outcome_stopped outcome_simps Let_def intro!: io_bind_ext)
next
  case Op_Start
  have "outcome_at env Start_Up n w = io_bind (if IsClientUp n then (Ret (True, n), w) else CheckClientUpStatus env True n w)
      (\<lambda>(up, n1) w1. if up then (Ret (Done Op_Start True, n1), w1) else outcome_at env Start_Announce n1 w1)"
    by (auto simp: outcome_step [of _ Start_Up] outcome_step [of _ Start_Again] outcome_check outcome_simps
        connects_def checked_def intro!: io_bind_ext)
  with Op_Start show ?thesis
    by (auto simp: entry_def run_op_def StartClient_def outcome_start outcome_simps Let_def intro!: io_bind_ext)
next
  case (Op_Check c)
  then show ?thesis
    by (auto simp: entry_def run_op_def outcome_check connects_def checked_def intro!: io_bind_ext)
qed

text \<open>Twelve steps are enough for every operation.\<close>

lemma micro_run_op:
  "micro_run env (12 + k) (entry opn) n w = io_bind (run_op env opn n w) (\<lambda>(b, n') w'. (Ret (Done opn b, n'), w'))"
  using micro_run_outcome [of "entry opn" "12 + k" env n w] rank_entry [of opn] by (simp add: outcome_entry)

end
