(* ===== verification/Simulation.thy ===== *)
theory Simulation
  imports Main
begin

text \<open>
  Forward simulation between two step relations, as an interface: a detailed system with an
  invariant, a coarse one, and a view that maps every detailed step to coarse steps. What holds of
  all runs of the coarse system then holds of the views of the detailed one.
\<close>

locale simulation =
  fixes cstep :: "'c \<Rightarrow> 'c \<Rightarrow> bool" and cinv :: "'c \<Rightarrow> bool"
    and astep :: "'a \<Rightarrow> 'a \<Rightarrow> bool" and view :: "'c \<Rightarrow> 'a"
  assumes inv_step: "cstep s t \<Longrightarrow> cinv s \<Longrightarrow> cinv t"
    and sim_step: "cstep s t \<Longrightarrow> cinv s \<Longrightarrow> rtranclp astep (view s) (view t)"
begin

lemma inv_reach: "rtranclp cstep s t \<Longrightarrow> cinv s \<Longrightarrow> cinv t"
  by (induction rule: rtranclp_induct) (blast intro: inv_step)+

lemma sim_reach: "rtranclp cstep s t \<Longrightarrow> cinv s \<Longrightarrow> rtranclp astep (view s) (view t)"
proof (induction rule: rtranclp_induct)
  case (step t u)
  with inv_reach [OF step.hyps(1)] show ?case by (blast intro: rtranclp_trans sim_step)
qed simp

lemma safe_reach:
  assumes "rtranclp cstep s t" and "cinv s" and "\<And>a. rtranclp astep (view s) a \<Longrightarrow> P a"
  shows "P (view t)"
  using assms sim_reach by blast

end

end
