(* ===== verification/Controller_Runs.thy ===== *)
theory Controller_Runs
  imports Controller_Steps Phases Simulation
begin

text \<open>
  A controller (\<open>node/control.go\<close>) with its goroutines: any number of threads that call its
  operations, the start/stop mutex, and the steps of \<open>Controller_Steps\<close> in any order. At most one
  thread is between the first and the last line of \<open>StopClient\<close> or \<open>StartClient\<close>, only that one
  sets the node status, and the controller moves through the phases of \<open>Phases\<close>. Up checks do
  not take the mutex, so the client status has no such owner.
\<close>

section \<open>The effect of one step\<close>

text \<open>What a call of a process keeps.\<close>

definition keeps :: "'w NodeControl \<Rightarrow> 'w NodeControl \<Rightarrow> bool" where
  "keeps n n' \<longleftrightarrow> nc_nodeStatus n' = nc_nodeStatus n \<and> nc_clientStatus n' = nc_clientStatus n \<and>
     nc_withPrivMan n' = nc_withPrivMan n \<and> (nc_wf n \<longrightarrow> nc_wf n')"

lemma on_bc_keeps:
  assumes "on_bc f env n w = (Ret (r, n'), w')" and "\<And>p r p' w'. f env p w = ((r, p'), w') \<Longrightarrow> proc_ok p \<Longrightarrow> proc_ok p'"
  shows "keeps n n'"
  using assms by (fastforce simp: keeps_def on_bc_def nc_wf_def config_def split: option.split_asm prod.split_asm)

lemma on_pm_keeps:
  assumes "on_pm f env n w = (Ret (r, n'), w')" and "\<And>p r p' w'. f env p w = ((r, p'), w') \<Longrightarrow> proc_ok p \<Longrightarrow> proc_ok p'"
  shows "keeps n n'"
  using assms by (fastforce simp: keeps_def on_pm_def nc_wf_def config_def split: option.split_asm prod.split_asm)

lemma lift_proc_Ret: "lift_proc m = (Ret (e, n'), w') \<Longrightarrow> m = (Ret (Ret e, n'), w')"
  by (auto simp: lift_proc_def io_bind_eq_Ret go_bind_eq_Ret)

lemma proc_call_keeps:
  "on_bc Proc_UpdateStatus env n w = (Ret (b, n'), w') \<Longrightarrow> keeps n n'"
  "on_pm Proc_UpdateStatus env n w = (Ret (b, n'), w') \<Longrightarrow> keeps n n'"
  "lift_proc (on_bc Proc_Start env n w) = (Ret (e, n'), w') \<Longrightarrow> keeps n n'"
  "lift_proc (on_pm Proc_Start env n w) = (Ret (e, n'), w') \<Longrightarrow> keeps n n'"
  "lift_proc (on_bc Proc_Stop env n w) = (Ret (e, n'), w') \<Longrightarrow> keeps n n'"
  "lift_proc (on_pm Proc_Stop env n w) = (Ret (e, n'), w') \<Longrightarrow> keeps n n'"
  by (erule on_bc_keeps on_pm_keeps on_bc_keeps [OF lift_proc_Ret] on_pm_keeps [OF lift_proc_Ret],
      erule (1) Proc_UpdateStatus_ok Proc_Start_ok Proc_Stop_ok)+

lemma SetStatus_keeps [simp]:
  "nc_wf (SetNodeStatus st n) \<longleftrightarrow> nc_wf n" "nc_nodeStatus (SetNodeStatus st n) = st"
  "nc_nodeStatus (SetClntStatus cs n) = nc_nodeStatus n"
  "nc_withPrivMan (SetNodeStatus st n) = nc_withPrivMan n" "nc_withPrivMan (SetClntStatus cs n) = nc_withPrivMan n"
  by (simp_all add: SetNodeStatus_def SetClntStatus_def nc_wf_def config_def)

text \<open>The node status that a program point sets.\<close>

fun sets_to :: "pc \<Rightarrow> NodeStatus option" where
  "sets_to Stop_Announce = Some ShutdownInprogress"
| "sets_to Stop_Refuse = Some OK"
| "sets_to Stop_Wait = Some ConsensusWait"
| "sets_to Stop_End = Some OK"
| "sets_to Start_Announce = Some StartupInprogress"
| "sets_to Start_End = Some OK"
| "sets_to pc = None"

lemma micro_effect:
  assumes "micro env pc n w = (Ret (pc', n'), w')" and "nc_wf n"
  shows "nc_wf n' \<and> nc_nodeStatus n' = (case sets_to pc of None \<Rightarrow> nc_nodeStatus n | Some st \<Rightarrow> st) \<and>
    nc_withPrivMan n' = nc_withPrivMan n"
proof (cases pc)
  case Stop_Cons
  with assms obtain m e w1 where "checkAndValidateConsensus env n w = (Ret ((m, e), n'), w1)"
    by (auto simp: io_bind_eq_Ret)
  then obtain v where "n' = n\<lparr>nc_consValid := v\<rparr>" by (metis checkAndValidateConsensus_Ret(1))
  with Stop_Cons assms(2) show ?thesis by (simp add: nc_wf_def config_def)
next
  case Stop_Peers
  with assms obtain r pm w1 where v: "ValidatePeers env (nc_nh n) w = (Ret (r, pm), w1)" "n' = n\<lparr>nc_nh := pm\<rparr>"
    by (auto simp: io_bind_eq_Ret)
  with ValidatePeers_keeps [OF v(1)] Stop_Peers assms(2) show ?thesis by (simp add: nc_wf_def config_def)
qed (use assms in \<open>auto simp: then_to_eq_Ret keeps_def split: if_split_asm dest!: proc_call_keeps\<close>,
    auto simp: io_bind_eq_Ret)

section \<open>Threads and the mutex\<close>

text \<open>A thread is outside every operation, waits for the mutex, or is inside one.\<close>

datatype thread = Quiet | Blocked ctl_op | At pc

record 'w sys =
  sy_node :: "'w NodeControl"
  sy_world :: 'w
  sy_mux :: "nat option"
  sy_thread :: "nat \<Rightarrow> thread"

definition needs_mutex :: "ctl_op \<Rightarrow> bool" where
  "needs_mutex opn \<longleftrightarrow> opn = Op_Stop \<or> opn = Op_Start"

definition set_thread :: "nat \<Rightarrow> thread \<Rightarrow> 'w sys \<Rightarrow> 'w sys" where
  "set_thread i t s = s\<lparr>sy_thread := (sy_thread s)(i := t)\<rparr>"

text \<open>
  A panic ends the program and a call that hangs leaves its thread where it is, so neither is a
  step. \<open>PrepareNodeHibernatorForPrivateTx\<close> touches no status and is one step; the world changes
  on its own at any time.
\<close>

inductive sys_step :: "'w env \<Rightarrow> 'w sys \<Rightarrow> 'w sys \<Rightarrow> bool" for env where
  call: "sy_thread s i = Quiet \<Longrightarrow>
     sys_step env s (set_thread i (if needs_mutex opn then Blocked opn else At (entry opn)) s)"
| lock: "sy_thread s i = Blocked opn \<Longrightarrow> sy_mux s = None \<Longrightarrow>
     sys_step env s (set_thread i (At (entry opn)) (s\<lparr>sy_mux := Some i\<rparr>))"
| run: "sy_thread s i = At pc \<Longrightarrow> 0 < rank pc \<Longrightarrow> micro env pc (sy_node s) (sy_world s) = (Ret (pc', n'), w') \<Longrightarrow>
     sys_step env s (set_thread i (At pc') (s\<lparr>sy_node := n', sy_world := w'\<rparr>))"
| return: "sy_thread s i = At (Done opn b) \<Longrightarrow>
     sys_step env s (set_thread i Quiet (s\<lparr>sy_mux := if needs_mutex opn then None else sy_mux s\<rparr>))"
| prepare: "PrepareNodeHibernatorForPrivateTx env keys (sy_node s) (sy_world s) = (Ret (r, n'), w') \<Longrightarrow>
     sys_step env s (s\<lparr>sy_node := n', sy_world := w'\<rparr>)"
| world: "sys_step env s (s\<lparr>sy_world := w'\<rparr>)"

inductive_cases sys_stepE: "sys_step env s t"

definition sys_start :: "'w NodeControl \<Rightarrow> 'w \<Rightarrow> 'w sys" where
  "sys_start n w = \<lparr>sy_node = n, sy_world = w, sy_mux = None, sy_thread = (\<lambda>i. Quiet)\<rparr>"

lemma set_thread_simps [simp]:
  "sy_node (set_thread i t s) = sy_node s" "sy_world (set_thread i t s) = sy_world s"
  "sy_mux (set_thread i t s) = sy_mux s" "sy_thread (set_thread i t s) = (sy_thread s)(i := t)"
  by (simp_all add: set_thread_def)

section \<open>Invariant\<close>

text \<open>The operation that a program point belongs to; it stays the same until the end.\<close>

fun op_of :: "pc \<Rightarrow> ctl_op" where
  "op_of (Chk_Up opn) = opn" | "op_of (Chk_Fetch opn) = opn" | "op_of (Chk_Pm opn b) = opn"
| "op_of (Chk_Bc opn p) = opn" | "op_of (Chk_Set opn up) = opn" | "op_of (Done opn b) = opn"
| "op_of Start_Up = Op_Start" | "op_of Start_Again = Op_Start" | "op_of Start_Announce = Op_Start"
| "op_of Start_Pm = Op_Start" | "op_of (Start_Bc gs) = Op_Start" | "op_of Start_Mark = Op_Start" | "op_of Start_End = Op_Start"
| "op_of pc = Op_Stop"

definition locked :: "pc \<Rightarrow> bool" where
  "locked pc \<longleftrightarrow> needs_mutex (op_of pc)"

lemma op_of_entry [simp]: "op_of (entry opn) = opn"
  by (cases opn) (simp_all add: entry_def)

lemma micro_op: "micro env pc n w = (Ret (pc', n'), w') \<Longrightarrow> op_of pc' = op_of pc"
  by (cases pc) (auto simp: then_to_eq_Ret io_bind_eq_Ret checked_def split: if_split_asm)

text \<open>The node status while the owner of the mutex is at a program point.\<close>

fun pc_status :: "pc \<Rightarrow> NodeStatus set" where
  "pc_status Stop_Cons = {OK}" | "pc_status Stop_Sleep = {OK}" | "pc_status Stop_Announce = {OK}"
| "pc_status Stop_Peers = {ShutdownInprogress}" | "pc_status Stop_Refuse = {OK, ShutdownInprogress}"
| "pc_status Stop_Procs = {ShutdownInprogress}" | "pc_status (Stop_Pm b) = {ShutdownInprogress}"
| "pc_status (Stop_Bc p) = {ShutdownInprogress}" | "pc_status Stop_Down = {ShutdownInprogress}"
| "pc_status Stop_Wait = {ShutdownInprogress}" | "pc_status Stop_Cool = {ConsensusWait}"
| "pc_status Stop_End = {ConsensusWait}" | "pc_status Start_Pm = {StartupInprogress}"
| "pc_status (Start_Bc gs) = {StartupInprogress}" | "pc_status Start_Mark = {StartupInprogress}"
| "pc_status Start_End = {StartupInprogress}"
| "pc_status pc = {OK, ShutdownInprogress, StartupInprogress}"

definition owner :: "'w sys \<Rightarrow> pc option" where
  "owner s = (case sy_mux s of None \<Rightarrow> None
     | Some i \<Rightarrow> (case sy_thread s i of At pc \<Rightarrow> Some pc | _ \<Rightarrow> None))"

definition owner_status :: "pc option \<Rightarrow> NodeStatus set" where
  "owner_status p = (case p of None \<Rightarrow> {OK, ShutdownInprogress, StartupInprogress} | Some pc \<Rightarrow> pc_status pc)"

text \<open>Program points that need the process of the privacy manager are reached only if there is one.\<close>

definition pm_point :: "pc \<Rightarrow> bool" where
  "pm_point pc \<longleftrightarrow> (\<exists>opn b. pc = Chk_Pm opn b) \<or> (\<exists>b. pc = Stop_Pm b)"

lemma pm_point_next:
  "micro env pc n w = (Ret (pc', n'), w') \<Longrightarrow> nc_wf n \<Longrightarrow> pm_point pc' \<Longrightarrow> nc_withPrivMan n"
  by (cases pc) (auto simp: then_to_eq_Ret io_bind_eq_Ret checked_def pm_point_def nc_wf_pm split: if_split_asm)

definition sys_inv :: "'w sys \<Rightarrow> bool" where
  "sys_inv s \<longleftrightarrow> nc_wf (sy_node s) \<and> nc_nodeStatus (sy_node s) \<in> owner_status (owner s) \<and>
     (\<forall>i pc. sy_thread s i = At pc \<longrightarrow> (locked pc \<longleftrightarrow> sy_mux s = Some i) \<and>
        (pm_point pc \<longrightarrow> nc_withPrivMan (sy_node s))) \<and>
     (\<forall>i. sy_mux s = Some i \<longrightarrow> (\<exists>pc. sy_thread s i = At pc)) \<and>
     (\<forall>i opn. sy_thread s i = Blocked opn \<longrightarrow> needs_mutex opn)"

lemma pc_status_next:
  assumes "micro env pc n w = (Ret (pc', n'), w')" and "nc_wf n" and "nc_nodeStatus n \<in> pc_status pc" and "locked pc"
  shows "nc_nodeStatus n' \<in> pc_status pc'"
proof -
  define st where "st = nc_nodeStatus n"
  have st': "nc_nodeStatus n' = (case sets_to pc of None \<Rightarrow> st | Some st1 \<Rightarrow> st1)"
    using micro_effect [OF assms(1,2)] by (simp add: st_def split: option.splits)
  have busy: "IsNodeBusy n = None \<Longrightarrow> st \<in> {OK, ShutdownInprogress, StartupInprogress} \<Longrightarrow> st = OK"
    by (auto simp: IsNodeBusy_def st_def split: if_split_asm)
  have "st \<in> pc_status pc" using assms(3) by (simp only: st_def)
  then show ?thesis unfolding st' using assms(1,4) busy
    by (cases pc) (auto simp: then_to_eq_Ret io_bind_eq_Ret checked_def locked_def needs_mutex_def
        simp del: OK_def ShutdownInprogress_def StartupInprogress_def ConsensusWait_def split: if_split_asm)
qed

lemma sets_to_locked: "\<not> locked pc \<Longrightarrow> sets_to pc = None"
  by (cases pc) (auto simp: locked_def needs_mutex_def)

lemma owner_other [simp]: "sy_mux s \<noteq> Some i \<Longrightarrow> owner (set_thread i t s) = owner s"
  by (cases "sy_mux s") (auto simp: owner_def)

lemma owner_own [simp]: "sy_mux s = Some i \<Longrightarrow> owner (set_thread i (At pc) s) = Some pc"
  by (simp add: owner_def)

lemma owner_update [simp]: "owner (s\<lparr>sy_node := n\<rparr>) = owner s" "owner (s\<lparr>sy_world := w\<rparr>) = owner s"
  by (simp_all add: owner_def split: option.split)

lemma owner_free [simp]: "sy_mux s = None \<Longrightarrow> owner s = None" "owner (s\<lparr>sy_mux := None\<rparr>) = None"
  by (simp_all add: owner_def)

lemma sys_inv_owner: "sys_inv s \<Longrightarrow> sy_mux s = Some i \<Longrightarrow> \<exists>pc. owner s = Some pc \<and> sy_thread s i = At pc \<and> locked pc"
  by (fastforce simp: sys_inv_def owner_def)

lemma sys_inv_thread: "sys_inv s \<Longrightarrow> sy_thread s i = At pc \<Longrightarrow> locked pc \<longleftrightarrow> sy_mux s = Some i"
  by (simp add: sys_inv_def)

lemma entry_locked: "locked (entry opn) \<longleftrightarrow> needs_mutex opn" "\<not> pm_point (entry opn)"
  by (simp_all add: locked_def) (cases opn; simp add: entry_def pm_point_def)

lemma entry_status: "needs_mutex opn \<Longrightarrow> pc_status (entry opn) = owner_status None"
  by (auto simp: needs_mutex_def entry_def owner_status_def)

lemma Done_status: "pc_status (Done opn b) = owner_status None"
  by (simp add: owner_status_def)

lemma run_status:
  assumes "sys_inv s" and "sy_thread s i = At pc" and m: "micro env pc (sy_node s) (sy_world s) = (Ret (pc', n'), w')"
  shows "nc_nodeStatus n' \<in> owner_status (owner (set_thread i (At pc') (s\<lparr>sy_node := n', sy_world := w'\<rparr>)))"
proof -
  have wf: "nc_wf (sy_node s)" and st: "nc_nodeStatus (sy_node s) \<in> owner_status (owner s)" using assms(1) by (simp_all add: sys_inv_def)
  show ?thesis
  proof (cases "locked pc")
    case True
    with assms(1,2) have x: "sy_mux s = Some i" by (simp add: sys_inv_def)
    then have "owner s = Some pc" by (simp add: owner_def assms(2))
    with st have "nc_nodeStatus (sy_node s) \<in> pc_status pc" by (simp add: owner_status_def)
    from pc_status_next [OF m wf this True] x show ?thesis by (simp add: owner_status_def)
  next
    case False
    with assms(1,2) have "sy_mux s \<noteq> Some i" by (auto simp: sys_inv_def)
    with micro_effect [OF m wf] sets_to_locked [OF False] st show ?thesis by simp
  qed
qed

lemma sys_inv_step: "sys_step env s t \<Longrightarrow> sys_inv s \<Longrightarrow> sys_inv t"
proof (induction rule: sys_step.induct)
  case (call s i opn)
  then have "sy_mux s \<noteq> Some i" by (auto simp: sys_inv_def)
  with call show ?case by (auto simp: sys_inv_def entry_locked)
next
  case (lock s i opn)
  then have "needs_mutex opn" by (auto simp: sys_inv_def)
  with lock entry_status show ?case by (auto simp: sys_inv_def entry_locked owner_status_def)
next
  case (run s i pc pc' n' w')
  have "nc_wf n'" using micro_effect [OF run.hyps(3)] run.prems by (simp add: sys_inv_def)
  moreover have "locked pc' \<longleftrightarrow> locked pc" using micro_op [OF run.hyps(3)] by (simp add: locked_def)
  moreover have "nc_withPrivMan n' = nc_withPrivMan (sy_node s)" "pm_point pc' \<longrightarrow> nc_withPrivMan (sy_node s)"
    using micro_effect [OF run.hyps(3)] pm_point_next [OF run.hyps(3)] run.prems by (auto simp: sys_inv_def)
  ultimately show ?case using run_status [OF run.prems run.hyps(1,3)] run.prems run.hyps(1)
    by (auto simp: sys_inv_def)
next
  case (return s i opn b)
  have m: "needs_mutex opn \<longleftrightarrow> sy_mux s = Some i" 
    using sys_inv_thread [OF return.prems return.hyps] by (simp add: locked_def)
  show ?case
  proof (cases "needs_mutex opn")
    case True
    with m have "owner s = Some (Done opn b)" by (simp add: owner_def return.hyps)
    with True m return Done_status show ?thesis by (auto simp: sys_inv_def owner_status_def)
  next
    case False
    with m return show ?thesis by (auto simp: sys_inv_def)
  qed
next
  case (prepare keys s r n' w')
  then obtain pm where pm: "ValidatePeerPrivateTxStatus env (nc_nh (sy_node s)) keys (sy_world s) = (Ret (r, pm), w')"
    "n' = (sy_node s)\<lparr>nc_nh := pm\<rparr>"
    by (auto simp: PrepareNodeHibernatorForPrivateTx_def io_bind_eq_Ret)
  have "nc_wf (sy_node s)" using prepare(2) by (simp add: sys_inv_def)
  with ValidatePeerPrivateTxStatus_keeps [OF pm(1)] have "nc_wf n'" by (simp add: pm(2) nc_wf_def config_def)
  with prepare(2) show ?case by (simp add: pm(2) sys_inv_def)
next
  case (world s w')
  then show ?case by (simp add: sys_inv_def)
qed

lemma sys_reach_inv: "rtranclp (sys_step env) s t \<Longrightarrow> sys_inv s \<Longrightarrow> sys_inv t"
  by (induction rule: rtranclp_induct) (auto intro: sys_inv_step)

lemma sys_inv_start: "nc_wf n \<Longrightarrow> settled n \<Longrightarrow> sys_inv (sys_start n w)"
  by (simp add: sys_inv_def sys_start_def settled_def owner_def owner_status_def)

section \<open>Phases\<close>

text \<open>The phase that a program point of the mutex owner, or a free mutex, belongs to.\<close>

definition resting :: "NodeStatus \<Rightarrow> 'i phase" where
  "resting st = (if st = ShutdownInprogress then Stuck else Idle)"

fun pc_phase :: "pc \<Rightarrow> NodeStatus \<Rightarrow> 'i phase" where
  "pc_phase Stop_Peers st = Announced"
| "pc_phase Stop_Refuse st = (if st = ShutdownInprogress then Polling {} True else Idle)"
| "pc_phase Stop_Procs st = Stopping" | "pc_phase (Stop_Pm b) st = Stopping" | "pc_phase (Stop_Bc p) st = Stopping"
| "pc_phase Stop_Down st = Stopping" | "pc_phase Stop_Wait st = Stopping"
| "pc_phase Stop_Cool st = Cooling" | "pc_phase Stop_End st = Cooling"
| "pc_phase pc st = resting st"

definition view :: "'w sys \<Rightarrow> NodeStatus \<times> 'i phase" where
  "view s = (let st = nc_nodeStatus (sy_node s)
     in (st, case owner s of None \<Rightarrow> resting st | Some pc \<Rightarrow> pc_phase pc st))"

text \<open>The answers that \<open>ValidatePeers\<close> collects, by position.\<close>

definition poll_answers :: "'w env \<Rightarrow> 'w NodeControl \<Rightarrow> 'w \<Rightarrow> NodeStatusInfo list" where
  "poll_answers env n w = (case fst (ValidatePeers env (nc_nh n) w) of Ret ((arr, e), pm) \<Rightarrow> arr | _ \<Rightarrow> [])"

text \<open>Replies of peers, or none, that amount to what \<open>ValidatePeers\<close> collects.\<close>

definition polled :: "'w env \<Rightarrow> 'w NodeControl \<Rightarrow> 'w \<Rightarrow> ('i \<Rightarrow> NodeStatus option) \<Rightarrow> 'i set \<Rightarrow> bool" where
  "polled env n w reply P \<longleftrightarrow> finite P \<and>
     ((\<exists>j\<in>P. refuses (heard (reply j))) \<longleftrightarrow> shutdown_loop (poll_answers env n w))"

lemma polled_answers:
  "polled env n w (\<lambda>k. Some (map nsi_Status (poll_answers env n w) ! k)) {..<length (map nsi_Status (poll_answers env n w))}"
proof -
  have "(\<exists>k<length arr. refuses (nsi_Status (arr ! k))) \<longleftrightarrow> shutdown_loop arr" for arr
    unfolding shutdown_loop_iff refuses_iff by (metis in_set_conv_nth)
  moreover have "k < length arr \<Longrightarrow> refuses (map nsi_Status arr ! k) \<longleftrightarrow> refuses (nsi_Status (arr ! k))" for arr k by simp
  ultimately show ?thesis by (simp add: polled_def Bex_def cong: conj_cong)
qed

lemma poll_all:
  assumes "polled env n w reply P"
  shows "rtranclp (phase_step reply P) (st, Announced) (st, Polling {} (shutdown_loop (poll_answers env n w)))"
proof -
  have "phase_step reply P (st, Announced) (st, Polling P False)" by (rule phase_step.ask)
  moreover have "rtranclp (phase_step reply P) (st, Polling P False) (st, Polling {} (shutdown_loop (poll_answers env n w)))"
    using phase_poll [of P reply P st False] assms by (simp add: polled_def)
  ultimately show ?thesis by (rule converse_rtranclp_into_rtranclp)
qed

lemma peers_step:
  assumes "micro env Stop_Peers n w = (Ret (pc', n'), w')" and "sched_ok env"
  shows "pc' = (if shutdown_loop (poll_answers env n w) then Stop_Refuse else Stop_Procs) \<and> nc_nodeStatus n' = nc_nodeStatus n"
proof -
  from assms(1) obtain arr e pm where v: "ValidatePeers env (nc_nh n) w = (Ret ((arr, e), pm), w')"
    and "n' = n\<lparr>nc_nh := pm\<rparr>" "pc' = (if e \<noteq> None then Stop_Refuse else Stop_Procs)"
    by (auto simp: io_bind_eq_Ret)
  with ValidatePeers_error [OF assms(2) v] show ?thesis by (simp add: poll_answers_def)
qed

lemma own_step_peers:
  assumes "micro env Stop_Peers n w = (Ret (pc', n'), w')" and "sched_ok env" and "nc_nodeStatus n = ShutdownInprogress"
    and p: "polled env n w reply P"
  shows "rtranclp (phase_step reply P) (nc_nodeStatus n, pc_phase Stop_Peers (nc_nodeStatus n))
    (nc_nodeStatus n', pc_phase pc' (nc_nodeStatus n'))"
proof (cases "shutdown_loop (poll_answers env n w)")
  case True
  with poll_all [OF p, of ShutdownInprogress] peers_step [OF assms(1,2)] assms(3) show ?thesis by simp
next
  case False
  have "phase_step reply P (ShutdownInprogress, Polling {} False) (ShutdownInprogress, Stopping)"
    by (rule phase_step.pass)
  with poll_all [OF p, of ShutdownInprogress] False peers_step [OF assms(1,2)] assms(3) show ?thesis
    by (simp add: rtranclp.rtrancl_into_rtrancl)
qed

lemma own_step:
  assumes "micro env pc n w = (Ret (pc', n'), w')" and "sched_ok env" and "nc_wf n"
    and "nc_nodeStatus n \<in> pc_status pc" and "locked pc" and "pc = Stop_Peers \<Longrightarrow> polled env n w reply P"
  shows "rtranclp (phase_step reply P) (nc_nodeStatus n, pc_phase pc (nc_nodeStatus n))
    (nc_nodeStatus n', pc_phase pc' (nc_nodeStatus n'))"
proof (cases "pc = Stop_Peers")
  case True
  then have "nc_nodeStatus n = ShutdownInprogress" using assms(4) by simp
  from own_step_peers [OF assms(1) [unfolded True] assms(2) this assms(6) [OF True]] show ?thesis unfolding True .
next
  case False
  define st where "st = nc_nodeStatus n"
  have st': "nc_nodeStatus n' = (case sets_to pc of None \<Rightarrow> st | Some st1 \<Rightarrow> st1)"
    using micro_effect [OF assms(1,3)] by (simp add: st_def split: option.splits)
  have "st \<in> pc_status pc" using assms(4) by (simp only: st_def)
  then have "(st, pc_phase pc st) = (nc_nodeStatus n', pc_phase pc' (nc_nodeStatus n')) \<or>
      phase_step reply P (st, pc_phase pc st) (nc_nodeStatus n', pc_phase pc' (nc_nodeStatus n'))"
    unfolding st' using False assms(1,5)
    by (cases pc) (auto simp: then_to_eq_Ret io_bind_eq_Ret checked_def locked_def needs_mutex_def resting_def
        split: if_split_asm intro: phase_step.intros [simplified])
  then show ?thesis unfolding st_def by (metis r_into_rtranclp rtranclp.rtrancl_refl)
qed

text \<open>
  Every step of a controller, whoever takes it, is a sequence of steps of its protocol; a step of
  another thread than the owner of the mutex changes nothing that the peers can see.
\<close>

lemma sys_step_phases:
  fixes reply :: "'i \<Rightarrow> NodeStatus option"
  assumes "sys_step env s t" and "sys_inv s" and "sched_ok env"
    and "owner s = Some Stop_Peers \<Longrightarrow> polled env (sy_node s) (sy_world s) reply P"
  shows "rtranclp (phase_step reply P) (view s) (view t)"
  using assms(1,2,4)
proof (induction rule: sys_step.induct)
  case (call s i opn)
  then have "sy_mux s \<noteq> Some i" by (auto simp: sys_inv_def)
  then show ?case by (simp add: view_def)
next
  case (lock s i opn)
  then have "needs_mutex opn" by (auto simp: sys_inv_def)
  with lock(2) have "view (set_thread i (At (entry opn)) (s\<lparr>sy_mux := Some i\<rparr>)) = (view s :: NodeStatus \<times> 'i phase)"
    by (auto simp: view_def needs_mutex_def entry_def)
  then show ?case by simp
next
  case (run s i pc pc' n' w')
  have wf: "nc_wf (sy_node s)" and st: "nc_nodeStatus (sy_node s) \<in> owner_status (owner s)"
    using run.prems by (simp_all add: sys_inv_def)
  show ?case
  proof (cases "locked pc")
    case True
    with run have x: "sy_mux s = Some i" by (simp add: sys_inv_def)
    then have o: "owner s = Some pc" by (simp add: owner_def run.hyps(1))
    with st have "nc_nodeStatus (sy_node s) \<in> pc_status pc" by (simp add: owner_status_def)
    from own_step [OF run.hyps(3) assms(3) wf this True, of reply P] run.prems(2) x o show ?thesis
      by (simp add: view_def Let_def)
  next
    case False
    with run have "sy_mux s \<noteq> Some i" by (auto simp: sys_inv_def)
    with micro_effect [OF run.hyps(3) wf] sets_to_locked [OF False] show ?thesis by (simp add: view_def)
  qed
next
  case (return s i opn b)
  have m: "needs_mutex opn \<longleftrightarrow> sy_mux s = Some i"
    using sys_inv_thread [OF return.prems(1) return.hyps] by (simp add: locked_def)
  have "view (set_thread i Quiet (s\<lparr>sy_mux := if needs_mutex opn then None else sy_mux s\<rparr>)) =
      (view s :: NodeStatus \<times> 'i phase)"
  proof (cases "needs_mutex opn")
    case True
    with m have "owner s = Some (Done opn b)" by (simp add: owner_def return.hyps)
    with True show ?thesis by (simp add: view_def)
  next
    case False
    with m show ?thesis by (simp add: view_def)
  qed
  then show ?case by simp
next
  case (prepare keys s r n' w')
  then have "nc_nodeStatus n' = nc_nodeStatus (sy_node s)"
    by (auto simp: PrepareNodeHibernatorForPrivateTx_def io_bind_eq_Ret)
  then show ?case by (simp add: view_def)
qed (simp add: view_def)

text \<open>The phase shows in the node status.\<close>

lemma view_status:
  fixes s :: "'w sys"
  assumes "sys_inv s"
  shows "phase_status (snd (view s :: NodeStatus \<times> 'i phase)) (nc_nodeStatus (sy_node s))"
proof -
  define st where "st = nc_nodeStatus (sy_node s)"
  have st: "st \<in> owner_status (owner s)" using assms by (simp add: sys_inv_def st_def)
  have "phase_status ((case owner s of None \<Rightarrow> resting st | Some pc \<Rightarrow> pc_phase pc st) :: 'i phase) st"
  proof (cases "owner s")
    case (Some pc)
    with st show ?thesis by (cases pc) (auto simp: owner_status_def resting_def phase_status_def)
  qed (use st in \<open>auto simp: owner_status_def resting_def phase_status_def\<close>)
  then show ?thesis by (simp only: view_def st_def Let_def snd_conv)
qed

text \<open>The interface of \<open>Simulation\<close>, for every environment that schedules all its goroutines.\<close>

definition any_phase_step :: "NodeStatus \<times> nat phase \<Rightarrow> NodeStatus \<times> nat phase \<Rightarrow> bool" where
  "any_phase_step v v' \<longleftrightarrow> (\<exists>reply P. phase_step reply P v v')"

definition fair_step :: "'w sys \<Rightarrow> 'w sys \<Rightarrow> bool" where
  "fair_step s t \<longleftrightarrow> (\<exists>env. sched_ok env \<and> sys_step env s t)"

interpretation protocol: simulation fair_step sys_inv any_phase_step view
proof
  fix s t :: "'w sys"
  assume "fair_step s t" and inv: "sys_inv s"
  then obtain env where e: "sched_ok env" "sys_step env s t" by (auto simp: fair_step_def)
  show "sys_inv t" by (rule sys_inv_step [OF e(2) inv])
  have "phase_step reply P v v' \<longrightarrow> any_phase_step v v'" for reply P v v'
    by (auto simp: any_phase_step_def)
  with sys_step_phases [OF e(2) inv e(1) polled_answers] show "rtranclp any_phase_step (view s) (view t)"
    by (blast intro: rtranclp_mono [THEN predicate2D])
qed

end
