(* ===== verification/Controller_Facts.thy ===== *)
theory Controller_Facts
  imports Controller_Runs
begin

text \<open>
  Runs of a controller with its goroutines: the operations of \<open>Node_Control\<close> are runs of one
  thread, the mutex is given back unless the consensus check, the poll of the peers, or a command
  or Docker call of its owner does not return, and an up check that is overtaken by \<open>StopClient\<close>
  spoils its result.
\<close>

section \<open>One thread after the other\<close>

lemma sys_eq: "sy_node s = n \<Longrightarrow> sy_world s = w \<Longrightarrow> s\<lparr>sy_node := n, sy_world := w\<rparr> = s"
  by (cases s) simp

lemma set_thread_same [simp]: "sy_thread s i = t \<Longrightarrow> set_thread i t s = s"
  by (cases s) (auto simp: set_thread_def)

lemma set_thread_twice [simp]: "set_thread i t (set_thread i t' s) = set_thread i t s"
  by (cases s) (simp add: set_thread_def)

lemma set_thread_update:
  "(set_thread i t s)\<lparr>sy_node := n\<rparr> = set_thread i t (s\<lparr>sy_node := n\<rparr>)"
  "(set_thread i t s)\<lparr>sy_world := w\<rparr> = set_thread i t (s\<lparr>sy_world := w\<rparr>)"
  "(set_thread i t s)\<lparr>sy_mux := m\<rparr> = set_thread i t (s\<lparr>sy_mux := m\<rparr>)"
  by (cases s; simp add: set_thread_def)+

text \<open>A thread at a program point runs on while the others wait.\<close>

lemma sys_runs:
  assumes "micro_run env k pc (sy_node s) (sy_world s) = (Ret (pc', n'), w')"
  shows "rtranclp (sys_step env) (set_thread i (At pc) s) (set_thread i (At pc') (s\<lparr>sy_node := n', sy_world := w'\<rparr>))"
  using assms
proof (induction k arbitrary: pc s)
  case 0
  then have "s\<lparr>sy_node := n', sy_world := w'\<rparr> = s" "pc' = pc" by (auto intro: sys_eq)
  then show ?case by simp
next
  case (Suc k)
  show ?case
  proof (cases "rank pc = 0")
    case True
    with rank_zero [of pc] Suc.prems have "s\<lparr>sy_node := n', sy_world := w'\<rparr> = s" "pc' = pc" by (auto intro: sys_eq)
    then show ?thesis by simp
  next
    case False
    from Suc.prems obtain pc1 n1 w1 where m: "micro env pc (sy_node s) (sy_world s) = (Ret (pc1, n1), w1)"
      and r: "micro_run env k pc1 n1 w1 = (Ret (pc', n'), w')"
      by (auto simp: io_bind_eq_Ret)
    let ?s1 = "s\<lparr>sy_node := n1, sy_world := w1\<rparr>"
    have "sys_step env (set_thread i (At pc) s) (set_thread i (At pc1) ?s1)"
      using sys_step.run [of "set_thread i (At pc) s" i pc env pc1 n1 w1] m False by (simp add: set_thread_update)
    with Suc.IH [of pc1 ?s1] r show ?thesis by (simp add: converse_rtranclp_into_rtranclp)
  qed
qed

lemma micro_run_entry:
  assumes "run_op env opn n w = (Ret (b, n'), w')"
  shows "micro_run env 12 (entry opn) n w = (Ret (Done opn b, n'), w')"
  using micro_run_op [of env 0 opn n w] assms by simp

text \<open>An operation that a thread calls while the mutex is free, from its call to its return.\<close>

lemma sys_runs_op:
  assumes "run_op env opn (sy_node s) (sy_world s) = (Ret (b, n'), w')" and "sy_thread s i = Quiet" and "sy_mux s = None"
  shows "rtranclp (sys_step env) s (s\<lparr>sy_node := n', sy_world := w'\<rparr>)"
proof -
  let ?t = "s\<lparr>sy_node := n', sy_world := w'\<rparr>" and ?m = "if needs_mutex opn then Some i else None"
  let ?in = "s\<lparr>sy_mux := ?m\<rparr>"
  have start: "rtranclp (sys_step env) s (set_thread i (At (entry opn)) ?in)"
  proof (cases "needs_mutex opn")
    case True
    let ?b = "set_thread i (Blocked opn) s"
    have "sys_step env s ?b" using sys_step.call [OF assms(2), of env opn] True by simp
    moreover have "sys_step env ?b (set_thread i (At (entry opn)) ?in)"
      using sys_step.lock [of ?b i opn env] True assms(3) by (simp add: set_thread_update)
    ultimately show ?thesis by simp
  next
    case False
    have "?in = s" using False assms(3) by (cases s) simp
    with sys_step.call [OF assms(2), of env opn] False show ?thesis by simp
  qed
  have run: "rtranclp (sys_step env) (set_thread i (At (entry opn)) ?in) (set_thread i (At (Done opn b)) (?t\<lparr>sy_mux := ?m\<rparr>))"
  proof -
    have "?in\<lparr>sy_node := n', sy_world := w'\<rparr> = ?t\<lparr>sy_mux := ?m\<rparr>" by (cases s) simp
    moreover have "micro_run env 12 (entry opn) (sy_node ?in) (sy_world ?in) = (Ret (Done opn b, n'), w')"
      using micro_run_entry [OF assms(1)] by simp
    ultimately show ?thesis by (metis sys_runs)
  qed
  have "sys_step env (set_thread i (At (Done opn b)) (?t\<lparr>sy_mux := ?m\<rparr>)) ?t"
  proof -
    have "set_thread i Quiet (?t\<lparr>sy_mux := None\<rparr>) = ?t" using assms(2,3) by (cases s) (auto simp: set_thread_def)
    with sys_step.return [of "set_thread i (At (Done opn b)) (?t\<lparr>sy_mux := ?m\<rparr>)" i opn b env]
    show ?thesis by (simp add: set_thread_update split: if_split_asm)
  qed
  with start run show ?thesis by (meson rtranclp.rtrancl_into_rtrancl rtranclp_trans)
qed

section \<open>An up check that is overtaken\<close>

lemma fetch_runs:
  assumes "fetchCurrentClientStatuses env n w = (Ret ((b, p), n1), w1)"
  shows "\<exists>k. micro_run env k (Chk_Fetch opn) n w = (Ret (Chk_Set opn (b \<and> p), n1), w1)"
proof (cases "nc_withPrivMan n")
  case True
  have "micro_run env 2 (Chk_Fetch opn) n w = (Ret (Chk_Set opn (b \<and> p), n1), w1)"
    using assms True by (auto simp: fetchCurrentClientStatuses_def io_bind_eq_Ret then_to_def numeral_2_eq_2 split: if_split_asm)
  then show ?thesis by blast
next
  case False
  have "micro_run env 1 (Chk_Fetch opn) n w = (Ret (Chk_Set opn (b \<and> p), n1), w1)"
    using assms False by (auto simp: fetchCurrentClientStatuses_def io_bind_eq_Ret then_to_def)
  then show ?thesis by blast
qed

lemma fetch_keeps:
  assumes "fetchCurrentClientStatuses env n w = (Ret (r, n1), w1)" and "nc_wf n"
  shows "nc_wf n1 \<and> nc_clientStatus n1 = nc_clientStatus n"
  using assms by (auto simp: fetchCurrentClientStatuses_def keeps_def elim!: io_bindE split: if_split_asm dest!: proc_call_keeps)

text \<open>
  The up check has asked the processes, \<open>StopClient\<close> stops them and records the client as down, and
  then the check writes what it has seen.
\<close>

lemma check_overtaken:
  assumes up: "IsClientUp n" and f: "fetchCurrentClientStatuses env n w = (Ret ((b, p), n1), w1)"
    and st: "StopClient env n1 w1 = (Ret (r, n2), w2)"
  shows "rtranclp (sys_step env) (sys_start n w) (sys_start (SetClntStatus (if b \<and> p then Up else Down) n2) w2)"
proof -
  let ?c = "Op_Check False" and ?up = "b \<and> p"
  let ?n3 = "SetClntStatus (if ?up then Up else Down) n2"
  have "sys_step env (sys_start n w) (set_thread 0 (At (entry ?c)) (sys_start n w))"
    using sys_step.call [of "sys_start n w" 0 env ?c] by (simp add: sys_start_def needs_mutex_def)
  moreover have "rtranclp (sys_step env) (set_thread 0 (At (entry ?c)) (sys_start n w))
      (set_thread 0 (At (Chk_Set ?c ?up)) (sys_start n1 w1))"
  proof -
    obtain k where k: "micro_run env k (Chk_Fetch ?c) n w = (Ret (Chk_Set ?c ?up, n1), w1)"
      using fetch_runs [OF f] by blast
    have "micro_run env (Suc k) (entry ?c) (sy_node (sys_start n w)) (sy_world (sys_start n w)) =
        (Ret (Chk_Set ?c ?up, n1), w1)"
      using k up by (simp add: entry_def sys_start_def)
    from sys_runs [OF this, of 0] show ?thesis by (simp add: sys_start_def)
  qed
  moreover have "rtranclp (sys_step env) (set_thread 0 (At (Chk_Set ?c ?up)) (sys_start n1 w1))
      (set_thread 0 (At (Chk_Set ?c ?up)) (sys_start n2 w2))"
    using sys_runs_op [of env Op_Stop "set_thread 0 (At (Chk_Set ?c ?up)) (sys_start n1 w1)" r n2 w2 1] st
    by (simp add: run_op_def sys_start_def set_thread_update)
  moreover have "sys_step env (set_thread 0 (At (Chk_Set ?c ?up)) (sys_start n2 w2))
      (set_thread 0 (At (Done ?c ?up)) (sys_start ?n3 w2))"
    using sys_step.run [of "set_thread 0 (At (Chk_Set ?c ?up)) (sys_start n2 w2)" 0 "Chk_Set ?c ?up" env]
    by (simp add: sys_start_def set_thread_update checked_def)
  moreover have "sys_step env (set_thread 0 (At (Done ?c ?up)) (sys_start ?n3 w2)) (sys_start ?n3 w2)"
  proof -
    have "set_thread 0 Quiet (sys_start ?n3 w2) = sys_start ?n3 w2" by (simp add: sys_start_def set_thread_def fun_eq_iff)
    with sys_step.return [of "set_thread 0 (At (Done ?c ?up)) (sys_start ?n3 w2)" 0 ?c ?up env] show ?thesis
      by (simp add: needs_mutex_def set_thread_update sys_start_def)
  qed
  ultimately show ?thesis
    by (meson rtranclp.rtrancl_into_rtrancl rtranclp_trans converse_rtranclp_into_rtranclp)
qed

section \<open>The mutex is given back\<close>

lemma call_waits:
  assumes "nc_wf n"
  shows "returns (fst (on_bc Proc_UpdateStatus env n w))"
    and "waits_only env (fst (lift_proc (on_bc Proc_Stop env n w)))"
    and "waits_only env (fst (lift_proc (on_bc Proc_Start env n w)))"
    and "nc_withPrivMan n \<Longrightarrow> returns (fst (on_pm Proc_UpdateStatus env n w))"
    and "nc_withPrivMan n \<Longrightarrow> waits_only env (fst (lift_proc (on_pm Proc_Stop env n w)))"
    and "nc_withPrivMan n \<Longrightarrow> waits_only env (fst (lift_proc (on_pm Proc_Start env n w)))"
proof -
  have pm: "nc_withPrivMan n \<Longrightarrow> nc_pmclntProcess n \<noteq> None" using nc_wf_pm [OF assms] by simp
  show "returns (fst (on_bc Proc_UpdateStatus env n w))"
    using assms by (auto simp: nc_wf_def on_bc_def split: prod.split)
  show "nc_withPrivMan n \<Longrightarrow> returns (fst (on_pm Proc_UpdateStatus env n w))"
    using pm by (auto simp: on_pm_def split: prod.split)
qed (use assms nc_wf_pm [OF assms] in \<open>auto intro!: lifted_bc_waits lifted_pm_waits Proc_Stop_sets Proc_Start_sets\<close>)

lemma then_to_returns [simp]: "returns (fst (then_to m f)) \<longleftrightarrow> returns (fst m)"
  by (auto simp: then_to_def io_bind_def split: prod.splits go.splits)

lemma RandomInt_returns: "0 \<le> lo \<Longrightarrow> lo \<le> hi \<Longrightarrow> hi < 2 ^ 62 \<Longrightarrow> returns (fst (RandomInt env lo hi w))"
  by (auto simp: RandomInt_def go_add_def go_sub_def split: prod.splits)

lemma then_to_waits [simp]: "waits_only env (fst (then_to m f)) \<longleftrightarrow> waits_only env (fst m)"
  by (auto simp: waits_only_def then_to_def io_bind_def split: prod.splits go.splits)

text \<open>The program points that run a command or ask the Docker daemon.\<close>

fun calls_out :: "pc \<Rightarrow> bool" where
  "calls_out Stop_Procs = True" | "calls_out (Stop_Pm b) = True" | "calls_out (Stop_Bc p) = True"
| "calls_out Start_Pm = True" | "calls_out (Start_Bc gs) = True" | "calls_out pc = False"

text \<open>
  Of all steps only the consensus check and the poll of the peers may panic; besides them only
  those that call out may fail to return, and only because the call does.
\<close>

lemma micro_waits:
  assumes "nc_wf n" and "pm_point pc \<Longrightarrow> nc_withPrivMan n" and "pc \<noteq> Stop_Cons" and "pc \<noteq> Stop_Peers"
  shows "waits_only env (fst (micro env pc n w)) \<and> (\<not> calls_out pc \<longrightarrow> returns (fst (micro env pc n w)))"
proof (cases pc)
  case Stop_Sleep
  obtain ms w1 where "RandomInt env 10 5000 w = (Ret ms, w1)"
    using RandomInt_returns [of 10 5000 env w] by (cases "RandomInt env 10 5000 w") (auto simp: returns_iff)
  with Stop_Sleep show ?thesis by simp
next
  case (Chk_Fetch opn)
  with assms call_waits [OF assms(1), of env w] show ?thesis by (auto simp: returns_waits)
next
  case (Chk_Pm opn b)
  with assms call_waits [OF assms(1), of env w] show ?thesis by (auto simp: pm_point_def returns_waits)
next
  case (Chk_Bc opn p)
  with assms call_waits [OF assms(1), of env w] show ?thesis by (auto simp: returns_waits)
qed (use assms call_waits [OF assms(1), of env w] nc_wf_pm [OF assms(1)] in \<open>auto simp: pm_point_def\<close>)

text \<open>
  The owner of the mutex: every step of the system leaves it where it is or brings it closer to its
  end, and its own next step is possible unless it does not return.
\<close>

lemma mutex_step:
  assumes "sys_step env s t" and "sys_inv s" and "sy_mux s = Some i" and "sy_thread s i = At pc"
  shows "sy_mux t = None \<or>
    sy_mux t = Some i \<and> (\<exists>pc'. sy_thread t i = At pc' \<and> (pc' = pc \<or> rank pc' < rank pc))"
  using assms
proof (induction rule: sys_step.induct)
  case (run s j q pc' n' w')
  with micro_rank [OF run.hyps(3,2)] show ?case by (cases "j = i") auto
next
  case (return s j opn b)
  have m: "needs_mutex opn \<longleftrightarrow> sy_mux s = Some j"
    using sys_inv_thread [OF return.prems(1) return.hyps] by (simp add: locked_def)
  with return show ?case by auto
qed auto

lemma owner_can_move:
  assumes "sys_inv s" and "sy_mux s = Some i"
  obtains pc where "owner s = Some pc" and "sy_thread s i = At pc"
    and "returns (fst (micro env pc (sy_node s) (sy_world s))) \<longrightarrow> (\<exists>t. sys_step env s t \<and> sy_thread t i \<noteq> At pc)"
    and "pc \<notin> {Stop_Cons, Stop_Peers} \<longrightarrow> waits_only env (fst (micro env pc (sy_node s) (sy_world s))) \<and>
      (\<not> calls_out pc \<longrightarrow> returns (fst (micro env pc (sy_node s) (sy_world s))))"
proof -
  obtain pc where pc: "owner s = Some pc" "sy_thread s i = At pc" "locked pc"
    using sys_inv_owner [OF assms] by blast
  have moves: "\<exists>t. sys_step env s t \<and> sy_thread t i \<noteq> At pc" if r: "returns (fst (micro env pc (sy_node s) (sy_world s)))"
  proof (cases "rank pc = 0")
    case True
    with rank_zero [of pc] obtain opn b where "pc = Done opn b" by blast
    with sys_step.return [of s i opn b env] pc(2) show ?thesis by (intro exI conjI) auto
  next
    case False
    from r obtain pc' n' w' where m: "micro env pc (sy_node s) (sy_world s) = (Ret (pc', n'), w')"
      by (cases "micro env pc (sy_node s) (sy_world s)") (auto simp: returns_iff)
    with False have "pc' \<noteq> pc" using micro_rank by fastforce
    with sys_step.run [OF pc(2) _ m] False show ?thesis by (intro exI conjI) auto
  qed
  have "waits_only env (fst (micro env pc (sy_node s) (sy_world s))) \<and>
      (\<not> calls_out pc \<longrightarrow> returns (fst (micro env pc (sy_node s) (sy_world s))))" if "pc \<noteq> Stop_Cons" "pc \<noteq> Stop_Peers"
    by (rule micro_waits) (use assms(1) pc(2) that in \<open>auto simp: sys_inv_def\<close>)
  with moves show thesis by (intro that [OF pc(1,2)]) auto
qed

end
