(* ===== verification/Fleet.thy ===== *)
theory Fleet
  imports Network Controller_Facts
begin

text \<open>
  Several controllers with all their goroutines: \<open>Network\<close> with the real \<open>StopClient\<close> in place of
  its phases. While a node asks its peers, its environment answers with their statuses.
\<close>

text \<open>
  The results that the node \<open>i\<close> collects: one for every peer, with its status, or as declared for one
  that is not reached.
\<close>

definition honest :: "'w env \<Rightarrow> 'i set \<Rightarrow> ('i \<Rightarrow> bool) \<Rightarrow> ('i \<Rightarrow> 'w sys) \<Rightarrow> 'i \<Rightarrow> bool" where
  "honest env P reached f i \<longleftrightarrow> finite P \<and>
     mset (map nsi_Status (poll_answers env (sy_node (f i)) (sy_world (f i)))) =
     image_mset (\<lambda>j. heard (if reached j then Some (nc_nodeStatus (sy_node (f j))) else None)) (mset_set P)"

inductive fleet_step :: "('i \<Rightarrow> 'i set) \<Rightarrow> ('i \<Rightarrow> 'i \<Rightarrow> bool) \<Rightarrow> ('i \<Rightarrow> 'w sys) \<Rightarrow> ('i \<Rightarrow> 'w sys) \<Rightarrow> bool" for peers reach where
  node: "sched_ok env \<Longrightarrow> sys_step env (f i) t \<Longrightarrow>
     (owner (f i) = Some Stop_Peers \<Longrightarrow> honest env (peers i - {i}) (reach i) f i) \<Longrightarrow>
     fleet_step peers reach f (f(i := t))"

definition fleet_inv :: "('i \<Rightarrow> 'w sys) \<Rightarrow> bool" where
  "fleet_inv f \<longleftrightarrow> (\<forall>i. sys_inv (f i))"

text \<open>The network that the peers see.\<close>

definition fleet_view :: "('i \<Rightarrow> 'w sys) \<Rightarrow> 'i net" where
  "fleet_view f = \<lparr>net_status = (\<lambda>i. fst (view (f i) :: NodeStatus \<times> 'i phase)), net_phase = (\<lambda>i. snd (view (f i)))\<rparr>"

lemma fleet_view_simps [simp]:
  "net_status (fleet_view f) i = nc_nodeStatus (sy_node (f i))" "net_phase (fleet_view f) i = snd (view (f i))"
  by (simp_all add: fleet_view_def view_def Let_def)

lemma fleet_view_update: "fleet_view (f(i := t)) = net_set i (fst (view t :: NodeStatus \<times> 'i phase)) (snd (view t)) (fleet_view f)"
  for f :: "'i \<Rightarrow> 'w sys"
  by (auto simp: fleet_view_def net_set_def fun_eq_iff)

text \<open>Honest answers amount to the replies of the network.\<close>

lemma honest_polled:
  assumes "honest env (P - {i}) (reach i) f i"
  shows "polled env (sy_node (f i)) (sy_world (f i)) (net_replies reach (fleet_view f) i) (P - {i})"
proof -
  let ?arr = "poll_answers env (sy_node (f i)) (sy_world (f i))"
  let ?r = "net_replies reach (fleet_view f) i"
  have fin: "finite (P - {i})" and m: "mset (map nsi_Status ?arr) =
      image_mset (\<lambda>j. heard (if reach i j then Some (nc_nodeStatus (sy_node (f j))) else None)) (mset_set (P - {i}))"
    using assms by (simp_all add: honest_def)
  have "set (map nsi_Status ?arr) =
      (\<lambda>j. heard (if reach i j then Some (nc_nodeStatus (sy_node (f j))) else None)) ` (P - {i})"
    using arg_cong [OF m, of set_mset] fin by simp
  also have "\<dots> = (\<lambda>j. heard (?r j)) ` (P - {i})"
    by (rule image_cong) (auto simp: net_replies_def net_reply_def)
  finally have "set (map nsi_Status ?arr) = (\<lambda>j. heard (?r j)) ` (P - {i})" .
  moreover have "shutdown_loop ?arr \<longleftrightarrow> (\<exists>st\<in>set (map nsi_Status ?arr). refuses st)"
    by (auto simp: shutdown_loop_iff refuses_iff)
  ultimately show ?thesis using fin by (simp add: polled_def)
qed

interpretation fleet: simulation "fleet_step peers reach" fleet_inv "net_step peers reach" fleet_view
  for peers :: "'i \<Rightarrow> 'i set" and reach :: "'i \<Rightarrow> 'i \<Rightarrow> bool"
proof
  fix f g
  assume "fleet_step peers reach f g" and inv: "fleet_inv f"
  then show "fleet_inv g"
    by (cases rule: fleet_step.cases) (auto simp: fleet_inv_def intro: sys_inv_step)
next
  fix f g
  assume "fleet_step peers reach f g" and inv: "fleet_inv f"
  then show "rtranclp (net_step peers reach) (fleet_view f) (fleet_view g)"
  proof (cases rule: fleet_step.cases)
    case (node env i t)
    have "sys_inv (f i)" using inv by (simp add: fleet_inv_def)
    have "rtranclp (phase_step (net_replies reach (fleet_view f) i) (peers i - {i})) (view (f i)) (view t)"
      by (rule sys_step_phases [OF node(3) \<open>sys_inv (f i)\<close> node(2)]) (intro honest_polled node(4))
    then have "rtranclp (phase_step (net_replies reach (fleet_view f) i) (peers i - {i}))
        (net_status (fleet_view f) i, net_phase (fleet_view f) i) (view t)"
      by (simp add: view_def Let_def)
    from net_steps_node [where s = "fleet_view f" and i = i and peers = peers, OF this] show ?thesis by (simp add: node(1) fleet_view_update)
  qed
qed

text \<open>Program points between a passed poll and the end of a successful stop.\<close>

fun stop_point :: "pc \<Rightarrow> bool" where
  "stop_point Stop_Procs = True" | "stop_point (Stop_Pm b) = True" | "stop_point (Stop_Bc p) = True"
| "stop_point Stop_Down = True" | "stop_point Stop_Wait = True" | "stop_point Stop_Cool = True"
| "stop_point Stop_End = True" | "stop_point pc = False"

lemma stop_point_phase: "owner s = Some pc \<Longrightarrow> stop_point pc \<Longrightarrow> stopping (snd (view s))"
  by (cases pc) (simp_all add: view_def Let_def stopping_def)

lemma fleet_start:
  assumes "\<And>i. nc_wf (n i) \<and> nc_nodeStatus (n i) = OK"
  shows "fleet_inv (\<lambda>i. sys_start (n i) (w i))" "fleet_view (\<lambda>i. sys_start (n i) (w i)) = net_init"
proof -
  show "fleet_inv (\<lambda>i. sys_start (n i) (w i))"
    using assms by (simp add: fleet_inv_def sys_inv_start settled_def)
  show "fleet_view (\<lambda>i. sys_start (n i) (w i)) = net_init"
    using assms by (simp add: fleet_view_def net_init_def view_def sys_start_def owner_def resting_def)
qed

lemma fleet_never_both:
  fixes f :: "'i \<Rightarrow> 'w sys"
  assumes "rtranclp (fleet_step peers reach) (\<lambda>i. sys_start (n i) (w i)) f"
    and n: "\<And>i. nc_wf (n i) \<and> nc_nodeStatus (n i) = OK"
    and ij: "i \<noteq> j" "j \<in> peers i" "i \<in> peers j" "reach i j" "reach j i"
    and "owner (f i) = Some p" "stop_point p" "owner (f j) = Some q"
  shows "\<not> stop_point q"
proof
  assume q: "stop_point q"
  have "rtranclp (net_step peers reach) net_init (fleet_view f)"
    using fleet.sim_reach [OF assms(1) fleet_start(1) [OF n]] unfolding fleet_start(2) [OF n] .
  from net_reach_steps [OF this net_reach.init] have "net_reach peers reach (fleet_view f)" .
  from never_both_stopping [OF this ij] have "\<not> (stopping (snd (view (f i) :: NodeStatus \<times> 'i phase)) \<and>
      stopping (snd (view (f j) :: NodeStatus \<times> 'i phase)))" by simp
  with stop_point_phase [OF assms(8,9)] stop_point_phase [OF assms(10) q] show False by blast
qed

section \<open>Runs\<close>

text \<open>Steps of one node in which it is not about to ask its peers.\<close>

definition calm :: "'w env \<Rightarrow> 'w sys \<Rightarrow> 'w sys \<Rightarrow> bool" where
  "calm env s t \<longleftrightarrow> sys_step env s t \<and> owner s \<noteq> Some Stop_Peers"

lemma calm_steps: "rtranclp (calm env) s t \<Longrightarrow> rtranclp (sys_step env) s t"
  by (induction rule: rtranclp_induct) (auto simp: calm_def intro: rtranclp.rtrancl_into_rtrancl)

lemma fleet_calm:
  "rtranclp (calm env) s t \<Longrightarrow> sched_ok env \<Longrightarrow> rtranclp (fleet_step peers reach) (f(i := s)) (f(i := t))"
proof (induction rule: rtranclp_induct)
  case (step t u)
  then have "fleet_step peers reach (f(i := t)) ((f(i := t))(i := u))"
    by (intro fleet_step.node [of env]) (simp_all add: calm_def)
  then have "fleet_step peers reach (f(i := t)) (f(i := u))" by (simp only: fun_upd_upd)
  with step.IH [OF step.prems] show ?case by (meson rtranclp.rtrancl_into_rtrancl)
qed simp

lemma calm_runs:
  assumes "micro_run env k pc (sy_node s) (sy_world s) = (Ret (pc', n'), w')" and "sy_mux s = Some i"
    and "rank Stop_Peers \<le> rank pc'"
  shows "rtranclp (calm env) (set_thread i (At pc) s) (set_thread i (At pc') (s\<lparr>sy_node := n', sy_world := w'\<rparr>))"
  using assms
proof (induction k arbitrary: pc s)
  case 0
  then have "s\<lparr>sy_node := n', sy_world := w'\<rparr> = s" "pc' = pc" by (auto intro: sys_eq)
  then show ?case by simp
next
  case (Suc k)
  from Suc.prems(1) obtain pc1 n1 w1 where m: "micro env pc (sy_node s) (sy_world s) = (Ret (pc1, n1), w1)"
    and r: "micro_run env k pc1 n1 w1 = (Ret (pc', n'), w')"
    by (auto elim!: io_bindE)
  have r1: "rank pc' \<le> rank pc1" by (rule micro_run_rank [OF r])
  with micro_rank_le [OF m] Suc.prems(3) have pos: "0 < rank pc" by simp
  with micro_rank [OF m] r1 Suc.prems(3) have "pc \<noteq> Stop_Peers" by auto
  let ?s1 = "s\<lparr>sy_node := n1, sy_world := w1\<rparr>"
  have "sys_step env (set_thread i (At pc) s) (set_thread i (At pc1) ?s1)"
    using sys_step.run [of "set_thread i (At pc) s" i pc env pc1 n1 w1] m pos by (simp add: set_thread_update)
  with \<open>pc \<noteq> Stop_Peers\<close> Suc.prems(2) have "calm env (set_thread i (At pc) s) (set_thread i (At pc1) ?s1)"
    by (simp add: calm_def)
  with Suc.IH [of pc1 ?s1] r Suc.prems(2,3) show ?case by (simp add: converse_rtranclp_into_rtranclp)
qed

text \<open>The first thread of a node at rest calls \<open>StopClient\<close> and gets as far as asking the peers.\<close>

lemma calm_stop:
  assumes "micro_run env k Stop_Up n w = (Ret (pc', n'), w')" and "rank Stop_Peers \<le> rank pc'"
  shows "rtranclp (calm env) (sys_start n w) (set_thread 0 (At pc') ((sys_start n' w')\<lparr>sy_mux := Some 0\<rparr>))"
proof -
  let ?b = "set_thread 0 (Blocked Op_Stop) (sys_start n w)" and ?in = "(sys_start n w)\<lparr>sy_mux := Some 0\<rparr>"
  have 1: "calm env (sys_start n w) ?b"
    using sys_step.call [of "sys_start n w" 0 env Op_Stop]
    by (simp add: calm_def sys_start_def needs_mutex_def owner_def)
  have 2: "calm env ?b (set_thread 0 (At Stop_Up) ?in)"
    using sys_step.lock [of ?b 0 Op_Stop env]
    by (simp add: calm_def sys_start_def owner_def set_thread_update entry_def)
  have "rtranclp (calm env) (set_thread 0 (At Stop_Up) ?in) (set_thread 0 (At pc') ((sys_start n' w')\<lparr>sy_mux := Some 0\<rparr>))"
    using calm_runs [of env k Stop_Up ?in pc' n' w' 0] assms by (simp add: sys_start_def)
  with 1 2 show ?thesis by (meson converse_rtranclp_into_rtranclp)
qed

section \<open>Silence\<close>

text \<open>
  A node at rest whose checks pass and whose peers cannot be reached: the checks of the code, in the
  worlds in which they are made.
\<close>

definition silent_stop :: "'w env \<Rightarrow> 'w NodeControl \<Rightarrow> 'w \<Rightarrow> nat \<Rightarrow> bool" where
  "silent_stop env n w k \<longleftrightarrow> sched_ok env \<and> IsClientUp n \<and> nc_nodeStatus n = OK \<and>
     (\<exists>m n1 w1 ms w2 ps pm w3.
        checkAndValidateConsensus env n w = (Ret ((m, None), n1), w1) \<and> (m \<longrightarrow> b_DisableStrictMode (basic n)) \<and>
        RandomInt env 10 5000 w1 = (Ret ms, w2) \<and>
        readPeersConfig env (nc_nh n) (sleep env (ms * Millisecond) w2) = (Ret (ps, pm), w3) \<and>
        length (remote_peers pm ps) = k \<and>
        (\<forall>p v. p \<in> set (remote_peers pm ps) \<longrightarrow> unreachable env (NodeStatusMethod (b_Name (basic n))) p v))"

lemma silent_stop_runs:
  assumes "silent_stop env n w k"
  obtains n1 w1 n2 w2 where "micro_run env 5 Stop_Up n w = (Ret (Stop_Peers, n1), w1)"
    and "micro env Stop_Peers n1 w1 = (Ret (Stop_Procs, n2), w2)"
    and "length (poll_answers env n1 w1) = k" and "\<forall>a\<in>set (poll_answers env n1 w1). nsi_Status a = 0"
proof -
  from assms obtain m n1 w1 ms w2 ps pm w3 where up: "IsClientUp n" "nc_nodeStatus n = OK" and "sched_ok env" and
    c: "checkAndValidateConsensus env n w = (Ret ((m, None), n1), w1)" "m \<longrightarrow> b_DisableStrictMode (basic n)" and
    r: "RandomInt env 10 5000 w1 = (Ret ms, w2)" and
    rd: "readPeersConfig env (nc_nh n) (sleep env (ms * Millisecond) w2) = (Ret (ps, pm), w3)" and
    k: "length (remote_peers pm ps) = k" and
    un: "\<And>p v. p \<in> set (remote_peers pm ps) \<Longrightarrow>
      unreachable env (NodeStatusMethod (b_Name (nd_BasicConfig (mgr_cfg (nc_nh n))))) p v"
    unfolding silent_stop_def config_def by blast
  from checkAndValidateConsensus_Ret(1) [OF c(1)] obtain v where n1: "n1 = n\<lparr>nc_consValid := v\<rparr>" by blast
  let ?n = "SetNodeStatus ShutdownInprogress n1" and ?w = "sleep env (ms * Millisecond) w2"
  have "IsNodeBusy n = None" using up(2) by (simp add: IsNodeBusy_def)
  then have run: "micro_run env 5 Stop_Up n w = (Ret (Stop_Peers, ?n), ?w)"
    using up(1) c r by (simp add: eval_nat_numeral n1 config_def)
  obtain arr w4 where v: "ValidatePeers env (nc_nh n) ?w = (Ret ((arr, None), pm), w4)"
    and arr: "length arr = length (remote_peers pm ps)" "\<forall>a\<in>set arr. nsi_Status a = 0"
    by (rule ValidatePeers_unreachable [OF \<open>sched_ok env\<close> rd un])
  have m: "micro env Stop_Peers ?n ?w = (Ret (Stop_Procs, ?n\<lparr>nc_nh := pm\<rparr>), w4)"
    using v by (simp add: n1)
  have "poll_answers env ?n ?w = arr" using v by (simp add: poll_answers_def n1)
  with arr k show thesis by (intro that [OF run m]) simp_all
qed

text \<open>Such a node gets past its poll, whatever the others are doing.\<close>

lemma silent_passes:
  assumes "silent_stop env n w (card (peers i - {i}))" and "finite (peers i)" and "f i = sys_start n w"
  obtains t where "rtranclp (fleet_step peers (\<lambda>i j. False)) f (f(i := t))" and "owner t = Some Stop_Procs"
proof -
  have ok: "sched_ok env" using assms(1) by (simp add: silent_stop_def)
  obtain n1 w1 n2 w2 where r: "micro_run env 5 Stop_Up n w = (Ret (Stop_Peers, n1), w1)"
    and m: "micro env Stop_Peers n1 w1 = (Ret (Stop_Procs, n2), w2)"
    and a: "length (poll_answers env n1 w1) = card (peers i - {i})" "\<forall>a\<in>set (poll_answers env n1 w1). nsi_Status a = 0"
    by (rule silent_stop_runs [OF assms(1)])
  let ?s = "set_thread 0 (At Stop_Peers) ((sys_start n1 w1)\<lparr>sy_mux := Some 0\<rparr>)"
  let ?t = "set_thread 0 (At Stop_Procs) ((sys_start n2 w2)\<lparr>sy_mux := Some 0\<rparr>)"
  have c: "rtranclp (calm env) (sys_start n w) ?s" by (rule calm_stop [OF r]) simp
  have 1: "rtranclp (fleet_step peers (\<lambda>i j. False)) f (f(i := ?s))"
    using fleet_calm [OF c ok, of peers "\<lambda>i j. False" f i] assms(3) by (simp add: fun_upd_idem)
  have st: "sys_step env ?s ?t" using sys_step.run [of ?s 0 Stop_Peers env] m
    by (simp add: sys_start_def set_thread_update)
  have "map nsi_Status (poll_answers env n1 w1) = replicate (card (peers i - {i})) 0"
    using a by (simp add: list_eq_iff_nth_eq)
  then have "honest env (peers i - {i}) (\<lambda>j. False) (f(i := ?s)) i"
    using assms(2) by (simp add: honest_def sys_start_def image_mset_const_eq)
  then have 2: "fleet_step peers (\<lambda>i j. False) (f(i := ?s)) ((f(i := ?s))(i := ?t))"
    by (intro fleet_step.node [OF ok]) (use st in simp_all)
  then have "fleet_step peers (\<lambda>i j. False) (f(i := ?s)) (f(i := ?t))" by (simp only: fun_upd_upd)
  with 1 show thesis by (intro that [of ?t]) (simp_all add: owner_def rtranclp.rtrancl_into_rtrancl)
qed

lemma silent_all_pass:
  assumes "finite I" and "\<And>i. i \<in> I \<Longrightarrow> finite (peers i) \<and> silent_stop (env i) (n i) (w i) (card (peers i - {i}))"
  shows "\<exists>f. rtranclp (fleet_step peers (\<lambda>i j. False)) (\<lambda>i. sys_start (n i) (w i)) f \<and>
    (\<forall>i\<in>I. owner (f i) = Some Stop_Procs) \<and> (\<forall>i. i \<notin> I \<longrightarrow> f i = sys_start (n i) (w i))"
  using assms
proof (induction I rule: finite_induct)
  case (insert i I)
  then obtain f where f: "rtranclp (fleet_step peers (\<lambda>i j. False)) (\<lambda>i. sys_start (n i) (w i)) f"
    "\<forall>i\<in>I. owner (f i) = Some Stop_Procs" "\<forall>i. i \<notin> I \<longrightarrow> f i = sys_start (n i) (w i)" by blast
  from insert.prems have p: "silent_stop (env i) (n i) (w i) (card (peers i - {i}))" "finite (peers i)" by simp_all
  have fi: "f i = sys_start (n i) (w i)" using f(3) insert.hyps(2) by simp
  obtain t where t: "rtranclp (fleet_step peers (\<lambda>i j. False)) f (f(i := t))" "owner t = Some Stop_Procs"
    by (rule silent_passes [where peers = peers and f = f and i = i and env = "env i", OF p fi])
  have "\<forall>j\<in>insert i I. owner ((f(i := t)) j) = Some Stop_Procs"
    "\<forall>j. j \<notin> insert i I \<longrightarrow> (f(i := t)) j = sys_start (n j) (w j)" using f(2,3) t(2) by simp_all
  with rtranclp_trans [OF f(1) t(1)] show ?case by blast
qed auto

end
