(* ===== verification/Request_Text.thy ===== *)
theory Request_Text
  imports P2P
begin

text \<open>
  The two JSON-RPC requests that hibernators send each other are built by pasting the node's name
  into a text. For a name of plain characters the text is the intended JSON document; the lemmas
  read JSON text left to right.
\<close>

definition plain_char :: "char \<Rightarrow> bool" where
  "plain_char c \<longleftrightarrow> c \<noteq> CHR 0x22 \<and> c \<noteq> CHR 0x5C \<and> 32 \<le> (of_char c :: nat)"

lemma special_chars: "char_of (34::nat) = CHR 0x22" "char_of (92::nat) = CHR 0x5C"
  by code_simp+

lemma parse_chars_plain:
  "list_all plain_char s \<Longrightarrow> parse_chars None (s @ CHR 0x22 # r) = Some (s, r)"
  by (induction s) (simp_all add: plain_char_def surrogate_def special_chars)

lemma skip_ws_nonspace: "\<not> is_ws c \<Longrightarrow> skip_ws (c # s) = c # s"
  by (simp add: skip_ws_def)

lemma not_ws [simp]:
  "\<not> is_ws (CHR 0x22)" "\<not> is_ws (CHR ''{'')" "\<not> is_ws (CHR ''}'')" "\<not> is_ws (CHR '','')" "\<not> is_ws (CHR '':'')"
  "\<not> is_ws (CHR ''['')" "\<not> is_ws (CHR '']'')"
  by code_simp+

lemma parse_string_value:
  "list_all plain_char s \<Longrightarrow> parse_value (CHR 0x22 # s @ CHR 0x22 # r) = Some (JStr s, r)"
  by (simp add: parse_value.simps skip_ws_nonspace parse_chars_plain special_chars)

lemma parse_single_array:
  assumes "list_all plain_char s"
  shows "parse_value (CHR ''['' # CHR 0x22 # s @ CHR 0x22 # CHR '']'' # r) = Some (JArr [JStr s], r)"
  using parse_string_value [OF assms, of "CHR '']'' # r"]
  by (subst parse_value.simps) (simp add: skip_ws_nonspace special_chars parse_elems.simps)

lemma parse_members_more:
  assumes "skip_ws s = CHR 0x22 # k @ CHR 0x22 # CHR '':'' # vt" and "list_all plain_char k"
    and "parse_value vt = Some (v, CHR '','' # r)" and "length r < length vt"
  shows "parse_members s = map_option (apfst (Cons (k, v))) (parse_members r)"
proof -
  have "length vt < length s" using assms(1) length_skip_ws [of s] by simp
  with assms show ?thesis
    by (subst parse_members.simps) (simp add: skip_ws_nonspace parse_chars_plain special_chars)
qed

definition rpc_request :: "string \<Rightarrow> string \<Rightarrow> json" where
  "rpc_request m p = JObj [(''jsonrpc'', JStr ''2.0''), (''method'', JStr m), (''params'', JArr [JStr p]),
     (''id'', JNum ''77'')]"

definition request_text :: "string \<Rightarrow> string \<Rightarrow> string" where
  \<open>request_text m p = ''{"jsonrpc":"2.0", "method":"'' @ m @ ''", "params":["'' @ p @ ''"], "id":77}''\<close>

lemma request_text_parses:
  assumes m: "list_all plain_char m" and p: "list_all plain_char p"
  shows "parse_json (request_text m p) = Some (rpc_request m p)"
proof -
  let ?t4 = \<open>'' "id":77}''\<close>
  let ?t3 = \<open>'' "params":["'' @ p @ ''"],'' @ ?t4\<close>
  let ?t2 = \<open>'' "method":"'' @ m @ ''",'' @ ?t3\<close>
  let ?t1 = \<open>''"jsonrpc":"2.0",'' @ ?t2\<close>
  have plain: "list_all plain_char ''jsonrpc''" "list_all plain_char ''2.0''" "list_all plain_char ''method''"
    "list_all plain_char ''params''" by code_simp+
  have ws: "skip_ws (CHR '' '' # CHR 0x22 # s) = CHR 0x22 # s" for s
    by (simp add: skip_ws_def is_ws_def)
  have e4: "parse_members ?t4 = Some ([(''id'', JNum ''77'')], [])"
    by code_simp
  have e3: "parse_members ?t3 = Some ([(''params'', JArr [JStr p]), (''id'', JNum ''77'')], [])"
    using e4 by (subst parse_members_more [OF _ plain(4) parse_single_array [OF p]]) (simp_all add: ws)
  have e2: "parse_members ?t2 = Some ([(''method'', JStr m), (''params'', JArr [JStr p]), (''id'', JNum ''77'')], [])"
    using e3 by (subst parse_members_more [OF _ plain(3) parse_string_value [OF m]]) (simp_all add: ws)
  have e1: "parse_members ?t1 = Some ([(''jsonrpc'', JStr ''2.0''), (''method'', JStr m), (''params'', JArr [JStr p]),
      (''id'', JNum ''77'')], [])"
    using e2 by (subst parse_members_more [OF _ plain(1) parse_string_value [OF plain(2)]])
      (simp_all add: skip_ws_nonspace)
  have "request_text m p = CHR ''{'' # ?t1" by (simp add: request_text_def)
  moreover have "parse_value (CHR ''{'' # ?t1) = Some (rpc_request m p, [])"
    using e1 by (subst parse_value.simps) (simp add: skip_ws_nonspace rpc_request_def)
  ultimately show ?thesis by (simp add: parse_json_def skip_ws_def)
qed

lemma NodeStatusMethod_text: "NodeStatusMethod name = request_text ''node.NodeStatus'' name"
  by (simp add: NodeStatusMethod_def request_text_def)

lemma PreparePvtTxMethod_text: "PreparePvtTxMethod name = request_text ''node.PrepareForPrivateTx'' name"
  by (simp add: PreparePvtTxMethod_def request_text_def)

lemma plain_methods: "list_all plain_char ''node.NodeStatus''" "list_all plain_char ''node.PrepareForPrivateTx''"
  by code_simp+

end
