(* ===== verification/Logger.thy ===== *)
theory Logger
  imports Prelude "HOL-Library.Word"
begin

text \<open>
  \<open>log/logger.go\<close>: how the arguments of a log call become a message and its fields. Values have
  any type; \<open>fmt\<close> prints one as \<open>fmt.Sprintf\<close> does, and \<open>blank\<close> is the empty string as a value; and
  which messages are written under the level that is set. The text of an entry is logrus's. No
  other part of the program depends on it, so the calls are left out of the other theories.
\<close>

datatype log_level = ErrorLevel | WarnLevel | InfoLevel | DebugLevel | TraceLevel

text \<open>\<open>logrus.Level\<close>: an unsigned 32-bit number, higher for less severe messages.\<close>

primrec level_number :: "log_level \<Rightarrow> 32 word" where
  "level_number ErrorLevel = 2" | "level_number WarnLevel = 3" | "level_number InfoLevel = 4"
| "level_number DebugLevel = 5" | "level_number TraceLevel = 6"

instantiation log_level :: linorder
begin

definition less_eq_log_level :: "log_level \<Rightarrow> log_level \<Rightarrow> bool" where
  "less_eq_log_level a b \<longleftrightarrow> level_number a \<le> level_number b"

definition less_log_level :: "log_level \<Rightarrow> log_level \<Rightarrow> bool" where
  "less_log_level a b \<longleftrightarrow> level_number a < level_number b"

instance
proof
  fix a b :: log_level
  show "a \<le> b \<Longrightarrow> b \<le> a \<Longrightarrow> a = b" by (cases a; cases b) (simp_all add: less_eq_log_level_def)
qed (auto simp: less_eq_log_level_def less_log_level_def)

end

text \<open>The level that \<open>init\<close> sets, and which messages are written under a level.\<close>

definition logrus_init :: "32 word" where
  "logrus_init = level_number InfoLevel"

definition emits :: "32 word \<Rightarrow> log_level \<Rightarrow> bool" where
  "emits level lvl \<longleftrightarrow> level_number lvl \<le> level"

lemma emits_antimono: "a \<le> b \<Longrightarrow> emits level b \<Longrightarrow> emits level a"
  by (simp add: emits_def less_eq_log_level_def)

lemma emits_init: "emits logrus_init lvl \<longleftrightarrow> lvl \<le> InfoLevel"
  by (simp add: emits_def logrus_init_def less_eq_log_level_def)

fun log_fields :: "('a \<Rightarrow> string) \<Rightarrow> 'a list \<Rightarrow> (string \<times> 'a) list \<Rightarrow> (string \<times> 'a) list" where
  "log_fields fmt (k # v # args) entries = log_fields fmt args (AList.update (fmt k) v entries)"
| "log_fields fmt args entries = entries"

definition logMsg :: "('a \<Rightarrow> string) \<Rightarrow> 'a \<Rightarrow> log_level \<Rightarrow> 'a list \<Rightarrow> (log_level \<times> 'a \<times> (string \<times> 'a) list) option" where
  "logMsg fmt blank lvl args =
     (if length args = 0 then None
      else (let args' = (if length args mod 2 = 0 then args @ [blank] else args)
            in Some (lvl, hd args', log_fields fmt (tl args') [])))"

text \<open>\<open>Error\<close> to \<open>Trace\<close>: what each of them hands to logrus under the level that is set.\<close>

definition log_call :: "('a \<Rightarrow> string) \<Rightarrow> 'a \<Rightarrow> 32 word \<Rightarrow> log_level \<Rightarrow> 'a list \<Rightarrow> (log_level \<times> 'a \<times> (string \<times> 'a) list) option" where
  "log_call fmt blank level lvl args =
     (case logMsg fmt blank lvl args of
        None \<Rightarrow> None | Some entry \<Rightarrow> if emits level lvl then Some entry else None)"

definition log_Error where "log_Error fmt blank level = log_call fmt blank level ErrorLevel"
definition log_Warn where "log_Warn fmt blank level = log_call fmt blank level WarnLevel"
definition log_Info where "log_Info fmt blank level = log_call fmt blank level InfoLevel"
definition log_Debug where "log_Debug fmt blank level = log_call fmt blank level DebugLevel"
definition log_Trace where "log_Trace fmt blank level = log_call fmt blank level TraceLevel"

lemma log_call_Some:
  "(\<exists>e. log_call fmt blank level lvl args = Some e) \<longleftrightarrow> args \<noteq> [] \<and> emits level lvl"
  by (simp add: log_call_def logMsg_def Let_def)

text \<open>Every key that is printed has a field, the last one with its name when there are several.\<close>

fun keys_of :: "'a list \<Rightarrow> 'a list" where
  "keys_of (k # v # args) = k # keys_of args"
| "keys_of args = []"

lemma dom_log_fields: "fst ` set (log_fields fmt args entries) = fst ` set entries \<union> fmt ` set (keys_of args)"
  by (induction fmt args entries rule: log_fields.induct) (auto simp: dom_update)

lemma logMsg_keys:
  assumes "logMsg fmt blank lvl args = Some (l, m, fields)"
  shows "l = lvl \<and> m = hd args \<and> fst ` set fields =
    fmt ` set (keys_of (tl args @ (if even (length args) then [blank] else [])))"
proof -
  have "l = lvl" "m = hd args" and f: "fields = log_fields fmt (tl args @ (if even (length args) then [blank] else [])) []"
    using assms by (cases args; auto simp: logMsg_def split: if_split_asm)+
  then show ?thesis by (simp only: f dom_log_fields) simp
qed

end
