(* ===== verification/Main_Program.thy ===== *)
theory Main_Program
  imports App Logger
begin

text \<open>
  The command line and \<open>main\<close> (\<open>main.go\<close>): what the standard library's \<open>flag\<close> package makes of the
  arguments for the two flags that the program defines, the log level, and the program up to the
  point where it waits for its end. \<open>Lifecycle\<close> goes on from there.
\<close>

section \<open>Integers on the command line\<close>

text \<open>
  \<open>strconv.ParseInt(s, 0, 64)\<close>, which reads the value of an \<open>int\<close> flag: an optional sign, a base from
  the prefix, underscores between digits, and the range check. All errors are one here.
\<close>

definition base_prefix :: "string \<Rightarrow> nat \<times> string" where
  "base_prefix u = (case u of
     CHR ''0'' # c # r \<Rightarrow>
       if r \<noteq> [] \<and> lower_char c = CHR ''b'' then (2, r)
       else if r \<noteq> [] \<and> lower_char c = CHR ''o'' then (8, r)
       else if r \<noteq> [] \<and> lower_char c = CHR ''x'' then (16, r)
       else (8, c # r)
   | CHR ''0'' # r \<Rightarrow> (8, r)
   | _ \<Rightarrow> (10, u))"

fun digits_value :: "nat \<Rightarrow> nat \<Rightarrow> string \<Rightarrow> nat option" where
  "digits_value base acc [] = Some acc"
| "digits_value base acc (c # cs) =
     (if c = CHR ''_'' then digits_value base acc cs
      else (case hex_digit c of
              None \<Rightarrow> None
            | Some d \<Rightarrow> if d < base then digits_value base (base * acc + d) cs else None))"

text \<open>Underscores stand after a digit, or the base prefix, and before one.\<close>

datatype saw = SawNothing | SawDigit | SawUnderscore | SawOther

fun underscores :: "bool \<Rightarrow> saw \<Rightarrow> string \<Rightarrow> bool" where
  "underscores hex s [] = (s \<noteq> SawUnderscore)"
| "underscores hex s (c # cs) =
     (if is_digit c \<or> hex \<and> hex_digit c \<noteq> None then underscores hex SawDigit cs
      else if c = CHR ''_'' then s = SawDigit \<and> underscores hex SawUnderscore cs
      else s \<noteq> SawUnderscore \<and> underscores hex SawOther cs)"

definition underscoreOK :: "string \<Rightarrow> bool" where
  "underscoreOK u = (case u of
     CHR ''0'' # c # r \<Rightarrow>
       if lower_char c \<in> {CHR ''b'', CHR ''o'', CHR ''x''} then underscores (lower_char c = CHR ''x'') SawDigit r
       else underscores False SawNothing u
   | _ \<Rightarrow> underscores False SawNothing u)"

definition sign_of :: "string \<Rightarrow> bool \<times> string" where
  "sign_of s = (case s of
     CHR ''+'' # u \<Rightarrow> (False, u) | CHR ''-'' # u \<Rightarrow> (True, u) | _ \<Rightarrow> (False, s))"

definition ParseInt0 :: "string \<Rightarrow> int option" where
  "ParseInt0 s =
     (let (neg, u) = sign_of s; (base, ds) = base_prefix u in
      if u = [] then None
      else (case digits_value base 0 ds of
              None \<Rightarrow> None
            | Some n \<Rightarrow>
                (let i = (if neg then - int n else int n) in
                 if CHR ''_'' \<in> set u \<and> \<not> underscoreOK u then None
                 else if int64_range i then Some i else None)))"

section \<open>Flags\<close>

record flags =
  fl_verbosity :: int
  fl_config :: string

definition default_flags :: flags where
  "default_flags = \<lparr>fl_verbosity = 2, fl_config = ''config.toml''\<rparr>"

datatype flag_end = FlagHelp | FlagError err

definition set_flag :: "string \<Rightarrow> string \<Rightarrow> flags \<Rightarrow> flags option" where
  "set_flag name v fl =
     (if name = ''config'' then Some (fl\<lparr>fl_config := v\<rparr>)
      else map_option (\<lambda>i. fl\<lparr>fl_verbosity := i\<rparr>) (ParseInt0 v))"

text \<open>A name and the value after its first equals sign.\<close>

definition split_flag :: "string \<Rightarrow> string \<times> string option" where
  "split_flag name = (let v = dropWhile (\<lambda>c. c \<noteq> CHR ''='') name
     in (takeWhile (\<lambda>c. c \<noteq> CHR ''='') name, if v = [] then None else Some (tl v)))"

fun parse_flags :: "string list \<Rightarrow> flags \<Rightarrow> flag_end + flags" where
  "parse_flags [] fl = Inr fl"
| "parse_flags (s # args) fl =
     (if length s < 2 \<or> hd s \<noteq> CHR ''-'' then Inr fl
      else if s = ''--'' then Inr fl
      else
        (let flag = (if s ! 1 = CHR ''-'' then drop 2 s else drop 1 s); (name, val) = split_flag flag in
         if flag = [] \<or> hd flag = CHR ''-'' \<or> hd flag = CHR ''='' then Inl (FlagError ''bad flag syntax'')
         else if name \<notin> {''verbosity'', ''config''} then
           (if name = ''help'' \<or> name = ''h'' then Inl FlagHelp else Inl (FlagError ''flag provided but not defined''))
         else
           (case val of
              Some v \<Rightarrow> (case set_flag name v fl of
                  None \<Rightarrow> Inl (FlagError ''invalid value'') | Some fl' \<Rightarrow> parse_flags args fl')
            | None \<Rightarrow>
                (case args of
                   [] \<Rightarrow> Inl (FlagError ''flag needs an argument'')
                 | v # args' \<Rightarrow> (case set_flag name v fl of
                     None \<Rightarrow> Inl (FlagError ''invalid value'') | Some fl' \<Rightarrow> parse_flags args' fl')))))"

section \<open>The log level\<close>

text \<open>The conversion \<open>logrus.Level(verbosity + 2)\<close>.\<close>

definition logrus_level :: "int \<Rightarrow> 32 word" where
  "logrus_level verbosity = word_of_int (go_add verbosity 2)"

definition logged :: "int \<Rightarrow> log_level \<Rightarrow> bool" where
  "logged verbosity lvl \<longleftrightarrow> emits (logrus_level verbosity) lvl"

section \<open>The program\<close>

text \<open>
  How \<open>main\<close> goes on: the process exits in \<open>flag.Parse\<close>, \<open>main\<close> returns because there is no
  configuration or \<open>Start\<close> fails, or it waits for its end while the parts run.
\<close>

datatype 'w main_result =
    Exits int | NoConfig load_err | NotStarted "'w NodeHibernatorApp option" | Runs "'w NodeHibernatorApp option"

definition main_program ::
  "'w env \<Rightarrow> (string \<Rightarrow> err + Basic) \<Rightarrow> (string \<Rightarrow> err + NodeHibernatorList) \<Rightarrow> err option \<Rightarrow> string list \<Rightarrow> 'w
   \<Rightarrow> 'w main_result go \<times> 'w" where
  "main_program env tomlNode tomlPeers register_err args w =
     (case parse_flags args default_flags of
        Inl FlagHelp \<Rightarrow> (Ret (Exits 0), w)
      | Inl (FlagError e) \<Rightarrow> (Ret (Exits 2), w)
      | Inr fl \<Rightarrow>
          io_bind (readNodeConfigFromFile env tomlNode tomlPeers (fl_config fl) w) (\<lambda>r w1. case r of
            Inl e \<Rightarrow> (Ret (NoConfig e), w1)
          | Inr nodeConfig \<Rightarrow>
              io_bind (App_Start env tomlPeers register_err nodeConfig w1) (\<lambda>(ok, app) w2.
                (Ret (if ok then Runs app else NotStarted app), w2))))"

section \<open>Round trips\<close>

lemma digit_char: "(n::nat) < 10 \<Longrightarrow> hex_digit (char_of (48 + n)) = Some n" "(n::nat) < 10 \<Longrightarrow> is_digit (char_of (48 + n))"
  by (simp_all add: hex_digit_def is_digit_def)

lemma is_digit_neq [simp]:
  "is_digit c \<Longrightarrow> c \<noteq> CHR ''_''" "is_digit c \<Longrightarrow> c \<noteq> CHR ''-''" "is_digit c \<Longrightarrow> c \<noteq> CHR ''+''"
  by (auto simp: is_digit_def)

lemma digits_value_append:
  "digits_value base acc (xs @ ys) = Option.bind (digits_value base acc xs) (\<lambda>v. digits_value base v ys)"
  by (induction base acc xs rule: digits_value.induct) (auto split: option.split)

lemma digits_value_show: "digits_value 10 0 (show_nat n) = Some n"
proof (induction n rule: show_nat.induct)
  case (1 n)
  show ?case
  proof (cases "n < 10")
    case True
    then show ?thesis by (subst show_nat.simps) (simp add: digit_char)
  next
    case False
    have "n mod 10 < 10" by simp
    with False 1 show ?thesis
      by (subst show_nat.simps) (simp add: digits_value_append digit_char)
  qed
qed

lemma show_nat_digits: "list_all is_digit (show_nat n)"
proof (induction n rule: show_nat.induct)
  case (1 n)
  then show ?case by (subst show_nat.simps) (simp add: digit_char)
qed

text \<open>A positive number does not begin with a zero, so that its base is ten.\<close>

lemma show_nat_head: "0 < n \<Longrightarrow> \<exists>c r. show_nat n = c # r \<and> is_digit c \<and> c \<noteq> CHR ''0''"
proof (induction n rule: show_nat.induct)
  case (1 n)
  show ?case
  proof (cases "n < 10")
    case True
    have "char_of (48 + n) \<noteq> CHR ''0''"
    proof
      assume "char_of (48 + n) = CHR ''0''"
      then have "(of_char (char_of (48 + n)) :: nat) = of_char (CHR ''0'')" by (rule arg_cong)
      with True 1 show False by simp
    qed
    with True show ?thesis by (subst show_nat.simps) (simp add: digit_char)
  next
    case False
    then have "0 < n div 10" by (simp add: div_greater_zero_iff)
    with 1 False obtain c r where "show_nat (n div 10) = c # r" "is_digit c" "c \<noteq> CHR ''0''" by auto
    with False show ?thesis by (subst show_nat.simps) simp
  qed
qed

lemma base_prefix_show: "base_prefix (show_nat n) = (if n = 0 then (8, []) else (10, show_nat n))"
proof (cases "n = 0")
  case True
  have "base_prefix (show_nat 0) = (8, [])" by code_simp
  with True show ?thesis by simp
next
  case False
  then obtain c r where c: "show_nat n = c # r" "is_digit c" "c \<noteq> CHR ''0''" using show_nat_head by blast
  with False show ?thesis by (simp add: base_prefix_def split: char.split bool.split)
qed

lemma show_nat_nonempty: "show_nat n \<noteq> []"
  by (subst show_nat.simps) simp

lemma ParseInt0_show:
  assumes "int64_range i"
  shows "ParseInt0 (show_int i) = Some i"
proof -
  have u: "CHR ''_'' \<notin> set (show_nat n)" "CHR ''-'' \<notin> set (show_nat n)" "CHR ''+'' \<notin> set (show_nat n)" for n
    using show_nat_digits [of n] is_digit_neq by (metis list_all_iff)+
  have sg: "sign_of (show_nat n) = (False, show_nat n)" for n
    using u(2,3) [of n] by (cases "show_nat n") (auto simp: sign_of_def split: char.split bool.split)
  have v: "(let (base, ds) = base_prefix (show_nat n) in digits_value base 0 ds) = Some n" for n
    by (simp add: base_prefix_show digits_value_show)
  show ?thesis
  proof (cases "i < 0")
    case True
    with assms v [of "nat (- i)"] u(1) show_nat_nonempty show ?thesis
      by (simp add: ParseInt0_def show_int_def sign_of_def case_prod_unfold Let_def)
  next
    case False
    with assms v [of "nat i"] u(1) show_nat_nonempty sg show ?thesis
      by (simp add: ParseInt0_def show_int_def case_prod_unfold Let_def)
  qed
qed

text \<open>Settings as a user writes them, in any order and number; the last one of a kind counts.\<close>

datatype setting = Verbosity int | Config_File string

fun written :: "setting \<Rightarrow> string list" where
  "written (Verbosity v) = [''--verbosity'', show_int v]"
| "written (Config_File f) = [''--config'', f]"

fun written_eq :: "setting \<Rightarrow> string list" where
  "written_eq (Verbosity v) = [''-verbosity='' @ show_int v]"
| "written_eq (Config_File f) = [''-config='' @ f]"

fun setting_ok :: "setting \<Rightarrow> bool" where
  "setting_ok (Verbosity v) = int64_range v"
| "setting_ok (Config_File f) = True"

fun apply_setting :: "setting \<Rightarrow> flags \<Rightarrow> flags" where
  "apply_setting (Verbosity v) fl = fl\<lparr>fl_verbosity := v\<rparr>"
| "apply_setting (Config_File f) fl = fl\<lparr>fl_config := f\<rparr>"

lemma parse_flags_written:
  "setting_ok x \<Longrightarrow> parse_flags (written x @ args) fl = parse_flags args (apply_setting x fl)"
  "setting_ok x \<Longrightarrow> parse_flags (written_eq x @ args) fl = parse_flags args (apply_setting x fl)"
  by (cases x; simp add: split_flag_def set_flag_def ParseInt0_show Let_def)+

lemma parse_flags_settings:
  assumes "list_all setting_ok xs" and "rest = [] \<or> hd (hd rest) \<noteq> CHR ''-'' \<or> length (hd rest) < 2"
  shows "parse_flags (concat (map written xs) @ rest) fl = Inr (fold apply_setting xs fl)"
    and "parse_flags (concat (map written_eq xs) @ rest) fl = Inr (fold apply_setting xs fl)"
proof -
  have r: "parse_flags rest fl = Inr fl" for fl using assms(2) by (cases rest) auto
  show "parse_flags (concat (map written xs) @ rest) fl = Inr (fold apply_setting xs fl)"
    using assms(1) by (induction xs arbitrary: fl) (simp_all add: r parse_flags_written del: parse_flags.simps)
  show "parse_flags (concat (map written_eq xs) @ rest) fl = Inr (fold apply_setting xs fl)"
    using assms(1) by (induction xs arbitrary: fl) (simp_all add: r parse_flags_written del: parse_flags.simps)
qed

section \<open>What \<open>main\<close> has checked when it waits\<close>

lemma main_program_Runs:
  assumes "main_program env tn tp reg args w = (Ret (Runs a), w')"
  obtains fl cfg w1 app where "parse_flags args default_flags = Inr fl" and "a = Some app"
    and "readNodeConfigFromFile env tn tp (fl_config fl) w = (Ret (Inr cfg), w1)"
    and "App_Start env tp reg cfg w1 = (Ret (True, Some app), w')"
proof -
  from assms obtain fl where fl: "parse_flags args default_flags = Inr fl"
    by (auto simp: main_program_def split: sum.split_asm flag_end.split_asm)
  with assms obtain cfg w1 where c: "readNodeConfigFromFile env tn tp (fl_config fl) w = (Ret (Inr cfg), w1)"
    and s: "App_Start env tp reg cfg w1 = (Ret (True, a), w')"
    by (auto simp: main_program_def elim!: io_bindE split: sum.split_asm if_split_asm)
  from s obtain app where "a = Some app"
    by (auto simp: App_Start_def Let_def elim!: io_bindE split: sum.split_asm)
  with fl c s show thesis by (intro that) auto
qed

lemma main_program_returns:
  assumes "parse_flags args default_flags = Inr fl"
    and "readNodeConfigFromFile env tn tp (fl_config fl) w = (Ret (Inr cfg), w1)"
    and "rand_ok env" and "b_InactivityTime (nd_BasicConfig cfg) < 2 ^ 61"
  shows "returns (fst (main_program env tn tp reg args w)) \<longleftrightarrow> startable (nd_BasicConfig cfg)"
proof -
  have "main_program env tn tp reg args w = io_bind (App_Start env tp reg cfg w1) (\<lambda>(ok, app) w2.
      (Ret (if ok then Runs app else NotStarted app), w2))"
    using assms(1,2) by (simp add: main_program_def)
  then have "returns (fst (main_program env tn tp reg args w)) = returns (fst (App_Start env tp reg cfg w1))"
    by (auto simp: io_bind_def split: prod.split go.split)
  with App_Start_returns_iff [OF assms(2-4), of reg w1] show ?thesis by simp
qed

lemma main_program_service:
  assumes "rand_ok env" and run: "main_program env tn tp reg args w = (Ret (Runs a), w')"
    and fl: "parse_flags args default_flags = Inr fl"
    and ld: "readNodeConfigFromFile env tn tp (fl_config fl) w = (Ret (Inr cfg), w1)"
    and t: "b_InactivityTime (nd_BasicConfig cfg) < 2 ^ 61"
  obtains app where "a = Some app" and "app_rpc app \<noteq> None" and "svc_inv (app_service app)"
    and "nc_nodeStatus (sv_node (app_service app)) = OK"
    and "list_all2 proxy_built (b_Proxies (nd_BasicConfig cfg)) (app_proxyServers app)"
proof -
  obtain fl' cfg' w1' app where "parse_flags args default_flags = Inr fl'" "a = Some app"
    "readNodeConfigFromFile env tn tp (fl_config fl') w = (Ret (Inr cfg'), w1')"
    and s: "App_Start env tp reg cfg' w1' = (Ret (True, Some app), w')"
    by (rule main_program_Runs [OF run])
  with fl ld have a: "a = Some app" and s: "App_Start env tp reg cfg w1 = (Ret (True, Some app), w')" by simp_all
  have "returns (fst (App_Start env tp reg cfg w1))" using s by simp
  with App_Start_returns_iff [OF ld assms(1) t] have "startable (nd_BasicConfig cfg)" by blast
  then obtain b app' w2 where app': "App_Start env tp reg cfg w1 = (Ret (b, Some app'), w2)" "svc_inv (app_service app')"
    "nc_nodeStatus (sv_node (app_service app')) = OK" "b \<longleftrightarrow> app_rpc app' \<noteq> None"
    "list_all2 proxy_built (b_Proxies (nd_BasicConfig cfg)) (app_proxyServers app')"
    by (rule App_Start_loaded [OF ld assms(1) t])
  from s app'(1) have same: "app' = app" b by simp_all
  with app'(4) have "app_rpc app \<noteq> None" by simp
  with app'(2,3,5) a show thesis unfolding same(1) by (intro that)
qed

section \<open>Bounds of the log level\<close>

lemma logrus_level_unat:
  assumes "- 2 \<le> v" and "v < 2 ^ 32 - 2"
  shows "uint (logrus_level v) = v + 2"
proof -
  have "logrus_level v = word_of_int (v + 2)" using assms by (simp only: logrus_level_def go_add_def) simp
  then have "uint (logrus_level v) = (v + 2) mod 2 ^ 32" by (simp only: uint_word_of_int) simp
  with assms show ?thesis by simp
qed

lemma logged_iff:
  assumes "- 2 \<le> v" and "v < 2 ^ 32 - 2"
  shows "logged v lvl \<longleftrightarrow> uint (level_number lvl) \<le> v + 2"
  using logrus_level_unat [OF assms] by (simp add: logged_def emits_def word_le_def)

text \<open>A verbosity below -2 wraps around to a level above all others.\<close>

lemma logged_negative:
  assumes "- (2 ^ 31) \<le> v" and "v < - 2"
  shows "logged v lvl"
proof -
  have "logrus_level v = word_of_int (v + 2)" using assms by (simp only: logrus_level_def go_add_def) simp
  then have "uint (logrus_level v) = (v + 2) mod 2 ^ 32" by (simp only: uint_word_of_int) simp
  also have "\<dots> = (v + 2 + 2 ^ 32) mod 2 ^ 32" by (simp only: mod_add_self2)
  also have "\<dots> = v + 2 + 2 ^ 32" by (rule mod_pos_pos_trivial) (use assms in simp_all)
  finally have "uint (logrus_level v) = v + 2 + 2 ^ 32" .
  moreover have "uint (level_number lvl) \<le> 6" by (cases lvl) simp_all
  ultimately show ?thesis using assms by (simp add: logged_def emits_def word_le_def)
qed

end
