(* ===== verification/Samples.thy ===== *)
theory Samples
  imports Lifecycle Ws_Serve Fleet Request_Text Main_Program
begin

text \<open>
  Concrete configurations, controllers and scripts of outcomes on which the properties are
  instantiated: a GoQuorum Raft node with a shell-controlled client, alone in its peers file.
\<close>

section \<open>Configurations\<close>

definition sample_upcheck :: Upcheck where
  "sample_upcheck = \<lparr>up_UpcheckUrl = ''http://client/upcheck'', up_ReturnType = ''rpcresult'',
     up_Method = ''POST'', up_Body = ''{}'', up_Expected = ''''\<rparr>"

definition sample_process :: Process where
  "sample_process = \<lparr>pr_Name = ''bcclnt'', pr_ControlType = ''shell'', pr_ContainerId = '''',
     pr_StopCommand = [''stop.sh''], pr_StartCommand = [''start.sh''], pr_UpcheckCfg = Some sample_upcheck\<rparr>"

definition sample_container :: Process where
  "sample_container = sample_process\<lparr>pr_ControlType := ''docker'', pr_ContainerId := ''c1''\<rparr>"

definition sample_client :: BlockchainClient where
  "sample_client = \<lparr>bc_ClientType = ''goquorum'', bc_Consensus = ''raft'', bc_BcClntRpcUrl = ''http://client'',
     bc_BcClntTLSConfig = None, bc_BcClntProcess = Some sample_process\<rparr>"

definition sample_proxy :: Proxy where
  "sample_proxy = \<lparr>px_Name = ''rpc'', px_Type = ''http'', px_ProxyAddr = ''localhost:9091'',
     px_UpstreamAddr = ''http://client'', px_ProxyPaths = [''/''], px_IgnorePathsForActivity = [''/health''],
     px_ReadTimeout = 15, px_WriteTimeout = 15, px_ProxyServerTLSConfig = None, px_ClientTLSConfig = None\<rparr>"

definition sample_server :: RPCServer where
  "sample_server = \<lparr>rs_RPCAddr = ''localhost:8081'', rs_RPCCorsList = [''*''], rs_RPCVHosts = [], rs_TLSConfig = None\<rparr>"

definition sample_basic :: Basic where
  "sample_basic = \<lparr>b_Name = ''n1'', b_DisableStrictMode = True, b_UpchkPollingInterval = 1,
     b_PeersConfigFile = ''peers.toml'', b_InactivityTime = 60, b_ResyncTime = 0,
     b_BlockchainClient = Some sample_client, b_PrivacyManager = None, b_Server = Some sample_server,
     b_Proxies = [Some sample_proxy]\<rparr>"

definition sample_peer :: "string \<Rightarrow> Peer" where
  "sample_peer name = \<lparr>peer_Name = name, peer_PrivManKey = ''key '' @ name, peer_RpcUrl = ''http://'' @ name,
     peer_TLSConfig = None\<rparr>"

section \<open>Controllers\<close>

definition sample_shell :: ShellProcessControl where
  "sample_shell = \<lparr>sp_cfg = sample_process, sp_upcheck = sample_upcheck, sp_status = True, sp_client = None\<rparr>"

definition sample_docker :: DockerControl where
  "sample_docker = \<lparr>dc_cfg = sample_container, dc_upcheck = sample_upcheck, dc_status = True, dc_client = None\<rparr>"

text \<open>A manager whose peers file always names the given peers.\<close>

definition sample_manager :: "Peer list \<Rightarrow> script PeerManager" where
  "sample_manager ps = \<lparr>mgr_cfg = \<lparr>nd_BasicConfig = sample_basic, nd_Peers = ps\<rparr>,
     mgr_Read = Some (\<lambda>w. (Inr (map Some ps), w))\<rparr>"

definition sample_node :: "script NodeControl" where
  "sample_node = \<lparr>nc_nh = sample_manager [], nc_bcclntProcess = Some (ShellProc sample_shell),
     nc_pmclntProcess = None, nc_bcclntHttpClient = Some defaultClient, nc_pmclntHttpClient = None,
     nc_consensus = Some (RaftConsensus (Some defaultClient)), nc_txh = Some QuorumTxHandler,
     nc_withPrivMan = False, nc_consValid = True, nc_clientStatus = Up, nc_nodeStatus = OK\<rparr>"

definition sample_node_down :: "script NodeControl" where
  "sample_node_down = sample_node\<lparr>nc_clientStatus := Down,
     nc_bcclntProcess := Some (ShellProc (sample_shell\<lparr>sp_status := False\<rparr>))\<rparr>"

definition sample_service :: "script Service" where
  "sample_service = started sample_node"

lemmas sample_defs = sample_node_def sample_node_down_def sample_manager_def sample_basic_def config_def

lemma sample_proc_ok: "proc_ok (ShellProc sample_shell)" "proc_ok (ShellProc (sample_shell\<lparr>sp_status := b\<rparr>))"
  by (simp_all add: proc_ok_def sample_shell_def sample_process_def)

lemma sample_wf: "nc_wf sample_node"
  unfolding nc_wf_def by (simp add: sample_defs sample_proc_ok)

lemma sample_down_wf: "nc_wf sample_node_down"
  unfolding nc_wf_def by (simp add: sample_defs sample_proc_ok)

lemma sample_up: "IsClientUp sample_node" "IsNodeBusy sample_node = None" "\<not> IsClientUp sample_node_down"
  by (simp_all add: IsClientUp_def IsNodeBusy_def sample_node_def sample_node_down_def)

lemma sample_inv: "svc_inv sample_service"
  unfolding sample_service_def
  by (rule svc_inv_start [OF sample_wf]) (simp_all add: sample_defs)

section \<open>Scripts\<close>

definition raft_answers :: script where
  \<open>raft_answers = [Ok200 ''{"result":"verifier"}'',
     Ok200 ''{"result":[{"nodeActive":true},{"nodeActive":true},{"nodeActive":true},{"nodeActive":true}]}'']\<close>

text \<open>The consensus check passes, the stop command works, the next up check fails; or the command fails.\<close>

definition stop_script :: script where
  "stop_script = raft_answers @ [CallOk, CallErr ''connection refused'']"

definition failing_stop_script :: script where
  "failing_stop_script = raft_answers @ [CallErr ''exit status 1'']"

definition stop_result :: "script \<Rightarrow> (bool \<times> script NodeControl) go" where
  "stop_result s = fst (StopClient script_env sample_node s)"

lemma stop_script_runs: "map_go fst (stop_result stop_script) = Ret True"
  "map_go fst (stop_result failing_stop_script) = Ret False"
  by code_simp+

lemma sample_stop:
  obtains n' w' where "StopClient script_env sample_node stop_script = (Ret (True, n'), w')"
proof -
  obtain r w' where r: "StopClient script_env sample_node stop_script = (r, w')" by fastforce
  with stop_script_runs(1) have "map_go fst r = Ret True" by (simp add: stop_result_def)
  with r that show thesis by (cases r) auto
qed

lemma sample_failing_stop:
  obtains n' w' where "StopClient script_env sample_node failing_stop_script = (Ret (False, n'), w')"
proof -
  obtain r w' where r: "StopClient script_env sample_node failing_stop_script = (r, w')" by fastforce
  with stop_script_runs(2) have "map_go fst r = Ret False" by (simp add: stop_result_def)
  with r that show thesis by (cases r) auto
qed

text \<open>The checks pass in the failing script too: what fails is the stop command.\<close>

lemma sample_checks_run: "map_go fst (fst (stop_checks script_env sample_node failing_stop_script)) = Ret True"
  by code_simp

lemma sample_checks:
  obtains n1 w1 where "stop_checks script_env sample_node failing_stop_script = (Ret (True, n1), w1)"
proof -
  obtain r w' where r: "stop_checks script_env sample_node failing_stop_script = (r, w')" by fastforce
  with sample_checks_run have "map_go fst r = Ret True" by simp
  with r that show thesis by (cases r) auto
qed

text \<open>The node of the scripts is a member of consensus, in the world in which it asks for the verdict.\<close>

lemma sample_member:
  "handler_member script_env (RaftConsensus (Some defaultClient)) ''http://client'' stop_script"
  "handler_view script_env (RaftConsensus (Some defaultClient)) ''http://client'' stop_script = Some (0, 4)"
  by code_simp+

lemma sample_consensus: "consensus_world script_env sample_node w = w"
  "nc_consensus sample_node = Some (RaftConsensus (Some defaultClient))"
  "b_BlockchainClient (basic sample_node) = Some sample_client" "bc_BcClntRpcUrl sample_client = ''http://client''"
  by (simp_all add: consensus_world_def sample_defs sample_client_def)

text \<open>An environment in which every command succeeds at once.\<close>

definition prompt_env :: "script env" where
  "prompt_env = script_env\<lparr>cmd_run := (\<lambda>c w. (Some None, w)), container_stop := (\<lambda>i w. (Some None, w)),
     container_start := (\<lambda>i w. (Some None, w))\<rparr>"

lemma prompt_returns: "calls_return prompt_env"
  by (simp add: calls_return_def prompt_env_def)

lemma sample_start_runs:
  "map_go fst (fst (StartClient prompt_env sample_node_down [CallErr ''down'', Ok200 ''{}''])) = Ret True"
  "map_go fst (fst (StartClient script_env sample_node_down [CallErr ''down'', NoReply])) = Hang"
  by code_simp+

section \<open>Files, peers and processes\<close>

definition sample_toml_peers :: "string \<Rightarrow> err + NodeHibernatorList" where
  "sample_toml_peers body = Inr \<lparr>nhl_Peers = [Some (sample_peer ''n2'')]\<rparr>"

definition sample_toml_node :: "string \<Rightarrow> err + Basic" where
  "sample_toml_node body = Inr sample_basic"

definition sample_config :: Node where
  "sample_config = \<lparr>nd_BasicConfig = sample_basic, nd_Peers = [sample_peer ''n2'']\<rparr>"

lemma sample_load:
  "readNodeConfigFromFile script_env sample_toml_node sample_toml_peers ''config.toml'' [Ok200 '''', Ok200 ''''] =
     (Ret (Inr sample_config), [])"
  by code_simp

text \<open>From the command line to the running program.\<close>

lemma sample_main_runs:
  "case main_program script_env sample_toml_node sample_toml_peers None [''--config'', ''config.toml'']
       [Ok200 '''', Ok200 ''''] of
     (Ret (Runs (Some app)), w) \<Rightarrow> map ps_paths (app_proxyServers app) = [[''/'']]
   | _ \<Rightarrow> False"
  by code_simp

lemma sample_valid: "Basic_IsValid script_env [] sample_basic = Ret (None, sample_basic)"
  by code_simp

text \<open>Networks that answer the same whenever they are asked: nobody, or every peer with one text.\<close>

definition silent_env :: "script env" where
  "silent_env = script_env\<lparr>client_do := (\<lambda>c q w. (Inl ''connection refused'', w))\<rparr>"

definition answering_env :: "string \<Rightarrow> script env" where
  "answering_env body = script_env\<lparr>client_do := (\<lambda>c q w.
     (Inr \<lparr>hr_StatusCode = 200, hr_Status = ''200 OK'', hr_Body = body\<rparr>, w))\<rparr>"

lemma sample_envs: "sched_ok silent_env" "sched_ok (answering_env b)" "stateless (answering_env b) (\<lambda>c q.
    Inr \<lparr>hr_StatusCode = 200, hr_Status = ''200 OK'', hr_Body = b\<rparr>)" "isl (fst (client_do silent_env c q w))"
  by (simp_all add: sched_ok_def silent_env_def answering_env_def script_env_def stateless_def)

lemma sample_peers_valid:
  "PeerArr_IsValid silent_env w [Some (sample_peer ''n2'')] = Ret (Inr [sample_peer ''n2''])"
  "PeerArr_IsValid (answering_env b) w [Some (sample_peer ''n2'')] = Ret (Inr [sample_peer ''n2''])"
  by (simp_all add: PeerArr_IsValid_def Peer_IsValid_def sample_peer_def silent_env_def answering_env_def
      script_env_def has_key_def)

lemma sample_reads:
  "reads_as silent_env (sample_manager [sample_peer ''n2'']) [sample_peer ''n2'']"
  "reads_as (answering_env b) (sample_manager [sample_peer ''n2'']) [sample_peer ''n2'']"
  by (simp_all add: reads_as_def sample_manager_def sample_peers_valid)

lemma sample_remote: "remote_peers (with_peers (sample_manager [sample_peer ''n2'']) [sample_peer ''n2'']) [sample_peer ''n2'']
    = [sample_peer ''n2'']"
  by (simp add: remote_peers_def isPeerSelf_def with_peers_def sample_manager_def sample_basic_def sample_peer_def)

text \<open>A peers file that is emptied after it has been read once.\<close>

definition vanishing_manager :: "script PeerManager" where
  "vanishing_manager = (sample_manager [])\<lparr>mgr_Read :=
     Some (\<lambda>w. if w = [] then (Inr [], []) else (Inr [Some (sample_peer ''n2'')], []))\<rparr>"

lemma sample_loop: "fst (fst (Shell_Stop script_env sample_shell [CallOk, CallErr ''down''])) = Ret None"
  by code_simp

section \<open>Answers and requests\<close>

definition sample_busy_body :: string where
  \<open>sample_busy_body = ''{"result":{"status":1}}''\<close>

lemma sample_busy_peer:
  "seen_status (answering_env sample_busy_body) (NodeStatusMethod ''n1'') (sample_peer ''n2'') [] = ShutdownInprogress"
  by code_simp

definition sample_ready_body :: string where
  \<open>sample_ready_body = ''{"result":{"status":true}}''\<close>

lemma sample_ready_peer:
  "answers (answering_env sample_ready_body) (PreparePvtTxMethod ''n1'') (sample_peer ''n2'') []"
  "ready (answering_env sample_ready_body) (PreparePvtTxMethod ''n1'') (sample_peer ''n2'') []"
  by code_simp+

definition sample_private_tx :: string where
  \<open>sample_private_tx = ''{"method":"eth_sendTransaction","params":[{"privateFor":["k1","k2"]}]}''\<close>

definition sample_private_obj :: "(string \<times> json) list" where
  "sample_private_obj = fst (Unmarshal dec_obj sample_private_tx [])"

lemma sample_private_decoded:
  "containsPrivateTxKeyWords sample_private_tx"
  "snd (Unmarshal dec_obj sample_private_tx []) = None"
  "participants_of sample_private_obj = Some (JArr [JStr ''k1'', JStr ''k2''])"
  "obj_get sample_private_obj ''method'' = Some (JStr ''eth_sendTransaction'')"
  by code_simp+

definition sample_request :: proxy_request where
  "sample_request = \<lparr>rq_RequestURI = ''/'', rq_Body = Inr sample_private_tx\<rparr>"

text \<open>A node with a privacy manager that is up, and a peer that holds the key of a participant.\<close>

definition sample_key_peer :: Peer where
  "sample_key_peer = (sample_peer ''n2'')\<lparr>peer_PrivManKey := ''k1''\<rparr>"

definition private_node :: "script NodeControl" where
  "private_node = sample_node\<lparr>nc_nh := sample_manager [sample_key_peer], nc_withPrivMan := True,
     nc_pmclntProcess := Some (ShellProc sample_shell)\<rparr>"

lemma private_node_wf: "nc_wf private_node"
  unfolding nc_wf_def by (simp add: private_node_def sample_defs sample_proc_ok)

text \<open>Nobody is blocked in the samples: a sender would wait for ever.\<close>

definition no_turn :: "script turn" where
  "no_turn ch s w = None"

lemma no_turn_ok: "turn_ok env no_turn"
  by (simp add: turn_ok_def no_turn_def)

definition sample_proxy_server :: ProxyServer where
  "sample_proxy_server = \<lparr>ps_proxyCfg = sample_proxy, ps_ignorePathMap = [(''/health'', True)], ps_paths = [''/''],
     ps_handler = proxy_handler sample_proxy, ps_Addr = ''localhost:9091'', ps_WriteTimeout = 15 * Second,
     ps_ReadTimeout = 15 * Second, ps_TLSConfig = None\<rparr>"

text \<open>A private transaction, one of whose participants is asked and answers that it is ready.\<close>

lemma sample_forward_runs:
  "map_go fst (fst (http_handler (answering_env sample_ready_body) no_turn sample_proxy_server (started private_node)
     sample_request [])) = Ret (Forward ''/'' sample_private_tx)"
  by code_simp

lemma sample_forward:
  obtains s' w' where "http_handler (answering_env sample_ready_body) no_turn sample_proxy_server
      (started private_node) sample_request [] = (Ret (Forward ''/'' sample_private_tx, s'), w')"
proof -
  obtain r w' where r: "http_handler (answering_env sample_ready_body) no_turn sample_proxy_server
      (started private_node) sample_request [] = (r, w')" by fastforce
  with sample_forward_runs have "map_go fst r = Ret (Forward ''/'' sample_private_tx)" by simp
  with r that show thesis by (cases r) auto
qed

lemma sample_keys: "IsPrivateTx sample_private_tx = Ret ([''k1'', ''k2''], None)"
  by code_simp

section \<open>Websocket proxies\<close>

definition sample_client_tls :: ClientTLS where
  "sample_client_tls = \<lparr>ct_CertFile = '''', ct_KeyFile = '''', ct_CACertFile = '''', ct_InsecureSkipVerify = True,
     ct_CipherSuites = None, ct_TlsCfg = Some zero_tls_config\<rparr>"

definition sample_tls_proxy_server :: ProxyServer where
  "sample_tls_proxy_server =
     sample_proxy_server\<lparr>ps_proxyCfg := sample_proxy\<lparr>px_Type := ''ws'', px_ClientTLSConfig := Some sample_client_tls\<rparr>\<rparr>"

definition sample_url :: url where
  "sample_url = \<lparr>u_Scheme = ''ws'', u_Opaque = '''', u_User = '''', u_Host = ''client'', u_Path = ''/'', u_RawPath = '''',
     u_ForceQuery = False, u_RawQuery = '''', u_Fragment = '''', u_RawFragment = ''''\<rparr>"

definition sample_ws_request :: ws_request where
  "sample_ws_request = \<lparr>wr_Header = [], wr_Host = ''node'', wr_RemoteAddr = ''10.0.0.1:8545'', wr_TLS = False\<rparr>"

definition sample_dial :: "tls_config option \<Rightarrow> url \<Rightarrow> header \<Rightarrow> script \<Rightarrow> dial_result \<times> script" where
  "sample_dial tls u h w = (Dialed \<lparr>wp_Header = [], wp_StatusCode = 101, wp_Body = '''', wp_Err = None\<rparr>, w)"

section \<open>Two nodes\<close>

text \<open>A node with one peer, and a script in which the peer answers that it is available.\<close>

definition fleet_node :: "script NodeControl" where
  "fleet_node = sample_node\<lparr>nc_nh := sample_manager [sample_peer ''n2'']\<rparr>"

definition fleet_script :: script where
  \<open>fleet_script = raft_answers @ [Ok200 ''{"result":{"status":4}}'']\<close>

lemma fleet_node_wf: "nc_wf fleet_node" "nc_nodeStatus fleet_node = OK"
  unfolding nc_wf_def by (simp_all add: fleet_node_def sample_defs sample_proc_ok)

lemma fleet_script_runs:
  "case micro_run script_env 5 Stop_Up fleet_node fleet_script of
     (Ret (pc, n), w) \<Rightarrow> pc = Stop_Peers \<and> nc_nodeStatus n = ShutdownInprogress \<and>
       map nsi_Status (poll_answers script_env n w) = [OK] \<and> map_go fst (fst (micro script_env pc n w)) = Ret Stop_Procs
   | _ \<Rightarrow> False"
  by code_simp

text \<open>The moment in which the first thread has asked the peer and sees that it may stop its processes.\<close>

lemma sample_poll:
  obtains s t where "rtranclp (calm script_env) (sys_start fleet_node fleet_script) s" and "sys_step script_env s t"
    and "owner s = Some Stop_Peers" and "owner t = Some Stop_Procs" and "nc_nodeStatus (sy_node s) = ShutdownInprogress"
    and "map nsi_Status (poll_answers script_env (sy_node s) (sy_world s)) = [OK]"
proof -
  obtain n w where r: "micro_run script_env 5 Stop_Up fleet_node fleet_script = (Ret (Stop_Peers, n), w)"
    and st: "nc_nodeStatus n = ShutdownInprogress" and a: "map nsi_Status (poll_answers script_env n w) = [OK]"
    and m: "map_go fst (fst (micro script_env Stop_Peers n w)) = Ret Stop_Procs"
    using fleet_script_runs by (auto split: prod.split_asm go.split_asm)
  from m obtain n1 w1 where m: "micro script_env Stop_Peers n w = (Ret (Stop_Procs, n1), w1)"
    by (cases "micro script_env Stop_Peers n w"; cases "fst (micro script_env Stop_Peers n w)") (auto simp del: micro.simps)
  let ?s = "set_thread 0 (At Stop_Peers) ((sys_start n w)\<lparr>sy_mux := Some 0\<rparr>)"
  let ?t = "set_thread 0 (At Stop_Procs) ((sys_start n1 w1)\<lparr>sy_mux := Some 0\<rparr>)"
  have c: "rtranclp (calm script_env) (sys_start fleet_node fleet_script) ?s" using calm_stop [OF r] by simp
  have "sys_step script_env ?s ?t" using sys_step.run [of ?s 0 Stop_Peers script_env] m
    by (simp add: sys_start_def set_thread_update)
  with c show thesis by (rule that) (use st a in \<open>simp_all add: owner_def sys_start_def\<close>)
qed

definition fleet_peers :: "bool \<Rightarrow> bool set" where
  "fleet_peers i = {\<not> i}"

abbreviation fleet_init :: "bool \<Rightarrow> script sys" where
  "fleet_init \<equiv> \<lambda>i. sys_start fleet_node fleet_script"

text \<open>One node has passed its poll and is about to stop its processes; the other has just entered \<open>StopClient\<close>.\<close>

lemma fleet_sample:
  obtains f where "rtranclp (fleet_step fleet_peers (\<lambda>i j. True)) fleet_init f"
    and "owner (f True) = Some Stop_Procs" and "owner (f False) = Some Stop_Up"
proof -
  obtain s t where c: "rtranclp (calm script_env) (sys_start fleet_node fleet_script) s" and st: "sys_step script_env s t"
    and "owner s = Some Stop_Peers" and o: "owner t = Some Stop_Procs" and "nc_nodeStatus (sy_node s) = ShutdownInprogress"
    and a: "map nsi_Status (poll_answers script_env (sy_node s) (sy_world s)) = [OK]"
    by (rule sample_poll)
  let ?u = "set_thread 0 (At Stop_Up) ((sys_start fleet_node fleet_script)\<lparr>sy_mux := Some 0\<rparr>)"
  let ?f1 = "fleet_init(True := s)" and ?f2 = "fleet_init(True := t)"
  have 1: "rtranclp (fleet_step fleet_peers (\<lambda>i j. True)) fleet_init ?f1"
    using fleet_calm [OF c sched_ok_script_env, of fleet_peers "\<lambda>i j. True" fleet_init True] by (simp add: fun_upd_idem)
  have 2: "fleet_step fleet_peers (\<lambda>i j. True) ?f1 (?f1(True := t))"
  proof (rule fleet_step.node [OF sched_ok_script_env])
    show "sys_step script_env (?f1 True) t" using st by simp
    have "fleet_peers True - {True} = {False}" by (auto simp: fleet_peers_def)
    then show "honest script_env (fleet_peers True - {True}) (\<lambda>j. True) ?f1 True"
      using a fleet_node_wf(2) by (simp add: honest_def sys_start_def)
  qed
  have 3: "rtranclp (fleet_step fleet_peers (\<lambda>i j. True)) ?f2 (?f2(False := ?u))"
  proof -
    have "micro_run script_env 0 Stop_Up fleet_node fleet_script = (Ret (Stop_Up, fleet_node), fleet_script)" by simp
    from fleet_calm [OF calm_stop [OF this] sched_ok_script_env, of fleet_peers "\<lambda>i j. True" ?f2 False]
    show ?thesis by (simp add: fun_upd_idem)
  qed
  from 2 have "fleet_step fleet_peers (\<lambda>i j. True) ?f1 ?f2" by (simp only: fun_upd_upd)
  with 1 3 have "rtranclp (fleet_step fleet_peers (\<lambda>i j. True)) fleet_init (?f2(False := ?u))"
    by (meson rtranclp.rtrancl_into_rtrancl rtranclp_trans)
  then show thesis by (rule that) (simp_all add: owner_def o [unfolded owner_def])
qed

text \<open>A network in which the peer cannot be reached, while the client answers as in the script.\<close>

definition parted_env :: "script env" where
  "parted_env = script_env\<lparr>client_do := (\<lambda>c q w.
     if hq_Url q = ''http://n2'' then (Inl ''no route to host'', w) else script_http w)\<rparr>"

lemma parted_runs:
  "case checkAndValidateConsensus parted_env fleet_node raft_answers of
     (Ret ((m, e), n1), w1) \<Rightarrow> m \<and> e = None \<and> w1 = [] | _ \<Rightarrow> False"
  by code_simp

lemma parted_stop: "silent_stop parted_env fleet_node raft_answers 1"
proof -
  obtain n1 where c: "checkAndValidateConsensus parted_env fleet_node raft_answers = (Ret ((True, None), n1), [])"
    using parted_runs by (auto split: prod.split_asm go.split_asm)
  have env: "sched_ok parted_env" "RandomInt parted_env 10 5000 [] = (Ret 10, [])" "sleep parted_env d w = w" for d w
    by (simp_all add: parted_env_def sched_ok_def script_env_def RandomInt_def go_add_def go_sub_def)
  have "PeerArr_IsValid parted_env w [Some (sample_peer ''n2'')] = Ret (Inr [sample_peer ''n2''])" for w
    by (simp add: PeerArr_IsValid_def Peer_IsValid_def sample_peer_def parted_env_def script_env_def has_key_def)
  then have "reads_as parted_env (nc_nh fleet_node) [sample_peer ''n2'']"
    by (simp add: reads_as_def fleet_node_def sample_manager_def)
  note rd = reads_as_read [OF this, of "[]"]
  have nh: "nc_nh fleet_node = sample_manager [sample_peer ''n2'']" by (simp add: fleet_node_def)
  have up: "IsClientUp fleet_node" "nc_nodeStatus fleet_node = OK" "b_DisableStrictMode (basic fleet_node)"
    by (simp_all add: fleet_node_def sample_defs IsClientUp_def)
  have un: "unreachable parted_env req (sample_peer ''n2'') v" for req v
    by (simp add: unreachable_def parted_env_def sample_peer_def)
  show ?thesis unfolding silent_stop_def
    using up c env rd un unfolding nh
    by (intro conjI exI [of _ True] exI [of _ n1] exI [of _ "[]"] exI [of _ "10::int"] exI [of _ "[sample_peer ''n2'']"]
        exI [of _ "with_peers (sample_manager [sample_peer ''n2'']) [sample_peer ''n2'']"])
       (simp_all add: sample_remote)
qed

section \<open>Two threads\<close>

text \<open>One thread has entered \<open>StopClient\<close>, another one waits for the mutex.\<close>

lemma sample_two_threads:
  obtains s where "rtranclp (sys_step script_env) (sys_start sample_node []) s" and "sy_thread s 0 = At Stop_Up"
    and "sy_thread s 1 = Blocked Op_Start" and "sy_mux s = Some 0"
proof -
  let ?s0 = "sys_start sample_node []"
  let ?s1 = "set_thread 0 (Blocked Op_Stop) ?s0"
  let ?s2 = "set_thread 0 (At (entry Op_Stop)) (?s1\<lparr>sy_mux := Some 0\<rparr>)"
  let ?s3 = "set_thread 1 (Blocked Op_Start) ?s2"
  have "sys_step script_env ?s0 ?s1"
    using sys_step.call [of ?s0 0 script_env Op_Stop] by (simp add: sys_start_def needs_mutex_def)
  moreover have "sys_step script_env ?s1 ?s2"
    by (rule sys_step.lock) (simp_all add: sys_start_def)
  moreover have "sys_step script_env ?s2 ?s3"
    using sys_step.call [of ?s2 1 script_env Op_Start] by (simp add: sys_start_def needs_mutex_def)
  ultimately have "rtranclp (sys_step script_env) ?s0 ?s3"
    by (meson rtranclp.rtrancl_into_rtrancl rtranclp.rtrancl_refl)
  then show thesis by (rule that) (simp_all add: sys_start_def entry_def)
qed

text \<open>A status check that finds both clients up, overtaken by a whole \<open>StopClient\<close>.\<close>

lemma sample_fetch_runs:
  "case fetchCurrentClientStatuses script_env sample_node (Ok200 ''{}'' # stop_script) of
     (Ret (b, n), w) \<Rightarrow> b = (True, True) \<and> map_go fst (fst (StopClient script_env n w)) = Ret True
   | _ \<Rightarrow> False"
  by code_simp

lemma sample_fetch:
  obtains n1 w1 n2 w2 where
    "fetchCurrentClientStatuses script_env sample_node (Ok200 ''{}'' # stop_script) = (Ret ((True, True), n1), w1)"
    and "StopClient script_env n1 w1 = (Ret (True, n2), w2)"
proof -
  obtain n1 w1 where f: "fetchCurrentClientStatuses script_env sample_node (Ok200 ''{}'' # stop_script) = (Ret ((True, True), n1), w1)"
    and s: "map_go fst (fst (StopClient script_env n1 w1)) = Ret True"
    using sample_fetch_runs by (auto split: prod.split_asm go.split_asm)
  from s obtain n2 w2 where "StopClient script_env n1 w1 = (Ret (True, n2), w2)"
    by (cases "StopClient script_env n1 w1"; cases "fst (StopClient script_env n1 w1)") auto
  with f show thesis by (rule that)
qed

end
