(* ===== verification/Further.thy ===== *)
theory Further
  imports Samples
begin

text \<open>
  Further properties of the program, each with an instance: what is not in the list of the root
  theory because another property there is stronger, or because it is about a corner of the code.
\<close>

text \<open>
  A configuration that validation accepts can still end the program at its start: a polling
  interval that is too large wraps around to a negative number of nanoseconds, and the ticker of
  the status monitor panics on it.
\<close>

theorem large_interval_panics:
  assumes "readNodeConfigFromFile env tn tp f w = (Ret (Inr cfg), w')" and "rand_ok env"
    and "b_InactivityTime (nd_BasicConfig cfg) < 2 ^ 61"
    and "9223372036 < b_UpchkPollingInterval (nd_BasicConfig cfg)" and "b_UpchkPollingInterval (nd_BasicConfig cfg) \<le> 18446744073"
  shows "\<not> returns (fst (App_Start env tp register_err cfg w0))"
proof -
  let ?i = "b_UpchkPollingInterval (nd_BasicConfig cfg)"
  have "go_mul ?i Second = ?i * 1000000000 - 2 ^ 64"
  proof -
    have "(?i * 1000000000 + 2 ^ 63) mod 2 ^ 64 = (?i * 1000000000 + 2 ^ 63 - 2 ^ 64) mod 2 ^ 64"
      by (simp only: minus_mod_self2)
    also have "\<dots> = ?i * 1000000000 + 2 ^ 63 - 2 ^ 64" by (rule mod_pos_pos_trivial) (use assms(4,5) in simp_all)
    finally show ?thesis by (simp add: go_mul_def wrap64_def Second_def)
  qed
  with assms(5) have "\<not> startable (nd_BasicConfig cfg)" by (simp add: startable_def polling_ok_def)
  with App_Start_returns_iff [OF assms(1-3)] show ?thesis by blast
qed

definition slow_config :: Basic where
  "slow_config = sample_basic\<lparr>b_UpchkPollingInterval := 10000000000\<rparr>"

lemma slow_load:
  "readNodeConfigFromFile script_env (\<lambda>t. Inr slow_config) sample_toml_peers ''config.toml'' [Ok200 '''', Ok200 ''''] =
     (Ret (Inr \<lparr>nd_BasicConfig = slow_config, nd_Peers = [sample_peer ''n2'']\<rparr>), [])"
  by code_simp

theorem large_interval_panics_witness:
  "\<exists>cfg. fst (readNodeConfigFromFile script_env (\<lambda>t. Inr slow_config) sample_toml_peers ''config.toml''
     [Ok200 '''', Ok200 '''']) = Ret (Inr cfg) \<and> \<not> returns (fst (App_Start script_env sample_toml_peers None cfg []))"
proof -
  have "b_InactivityTime slow_config < 2 ^ 61" "9223372036 < b_UpchkPollingInterval slow_config"
    "b_UpchkPollingInterval slow_config \<le> 18446744073" by (simp_all add: slow_config_def sample_basic_def)
  with large_interval_panics [OF slow_load rand_ok_script_env] slow_load show ?thesis by simp
qed

text \<open>
  A network in which no peer can be reached never prevents a shutdown: every silent peer counts
  as one that has answered.
\<close>

theorem unreachable_peers_pass:
  assumes "sched_ok env" and "readPeersConfig env pm w = (Ret (ps, pm1), w1)"
    and "\<And>p v. p \<in> set ps \<Longrightarrow> unreachable env (NodeStatusMethod (b_Name (nd_BasicConfig (mgr_cfg pm)))) p v"
  shows "\<exists>arr w2. ValidatePeers env pm w = (Ret ((arr, None), pm1), w2) \<and>
    length arr = length (filter (\<lambda>n. \<not> isPeerSelf pm1 (peer_Name n)) ps)"
proof -
  obtain arr w2 where "ValidatePeers env pm w = (Ret ((arr, None), pm1), w2)"
    and "length arr = length (remote_peers pm1 ps)"
    by (rule ValidatePeers_unreachable [OF assms(1,2)]) (use assms(3) in \<open>simp add: remote_peers_def\<close>)
  then show ?thesis by (simp add: remote_peers_def)
qed

theorem unreachable_peers_pass_witness:
  "\<exists>arr w2. ValidatePeers silent_env (sample_manager [sample_peer ''n2'']) [] =
     (Ret ((arr, None), with_peers (sample_manager [sample_peer ''n2'']) [sample_peer ''n2'']), w2) \<and> length arr = 1"
proof -
  have "unreachable silent_env req p v" for req p v by (simp add: unreachable_def silent_env_def)
  with unreachable_peers_pass [OF sample_envs(1) reads_as_read [OF sample_reads(1), of "[]"]] sample_remote
  show ?thesis by (simp add: remote_peers_def)
qed

text \<open>
  The answers that \<open>ValidatePeers\<close> reports decide its error: it is raised exactly when one
  of them says that a shutdown is under way or waits for consensus, and the other error of the
  code, that some peers did not respond, cannot occur.
\<close>

theorem validate_peers_error:
  assumes "sched_ok env" and "ValidatePeers env pm w = (Ret ((arr, e), pm'), w')"
  shows "(e \<noteq> None \<longleftrightarrow> (\<exists>n\<in>set arr. nsi_Status n = ShutdownInprogress \<or> nsi_Status n = ConsensusWait)) \<and>
    e \<noteq> Some ''some node managers did not respond''"
  using ValidatePeers_error [OF assms] by (simp add: shutdown_loop_iff)

theorem validate_peers_error_witness:
  "\<exists>arr e. ValidatePeers silent_env (sample_manager [sample_peer ''n2'']) [] =
     (Ret ((arr, e), with_peers (sample_manager [sample_peer ''n2'']) [sample_peer ''n2'']), []) \<and>
     e \<noteq> Some ''some node managers did not respond''"
proof -
  have st: "stateless silent_env (\<lambda>c q. Inl ''connection refused'')" by (simp add: stateless_def silent_env_def)
  obtain arr e where v: "ValidatePeers silent_env (sample_manager [sample_peer ''n2'']) [] =
      (Ret ((arr, e), with_peers (sample_manager [sample_peer ''n2'']) [sample_peer ''n2'']), [])"
    using ValidatePeers_stateless [OF sample_envs(1) st reads_as_read [OF sample_reads(1), of "[]"]] by blast
  from validate_peers_error [OF sample_envs(1) v] v show ?thesis by blast
qed

text \<open>
  A configuration that has been accepted, with the TLS settings that validation has filled
  in, is accepted again.
\<close>

theorem accepted_config_is_stable:
  assumes "Basic_IsValid env w c = Ret (None, c')"
  shows "\<exists>c''. Basic_IsValid env w c' = Ret (None, c'')"
  by (rule Basic_valid [THEN iffD2, OF Basic_IsValid_stable [OF assms]])

theorem accepted_config_is_stable_witness:
  "\<exists>c''. Basic_IsValid script_env [] sample_basic = Ret (None, c'')"
  by (rule accepted_config_is_stable [OF sample_valid])

text \<open>
  The verdicts that range over Go maps do not depend on the order of the iteration, which Go
  leaves open.
\<close>

theorem map_order_irrelevant:
  assumes "mset xs = mset ys"
  shows "istanbul_check \<lparr>isa_NumBlocks = b, isa_SealerActivity = xs\<rparr> =
      istanbul_check \<lparr>isa_NumBlocks = b, isa_SealerActivity = ys\<rparr> \<and>
    clique_check \<lparr>cst_InTurnPercent = p, cst_NumBlocks = b, cst_SealerActivity = xs\<rparr> =
      clique_check \<lparr>cst_InTurnPercent = p, cst_NumBlocks = b, cst_SealerActivity = ys\<rparr>"
  using istanbul_check_mset [OF assms] clique_check_mset [OF assms] by blast

theorem map_order_irrelevant_witness:
  "istanbul_check \<lparr>isa_NumBlocks = 64, isa_SealerActivity = [(''a'', 3), (''b'', 5)]\<rparr> =
     istanbul_check \<lparr>isa_NumBlocks = 64, isa_SealerActivity = [(''b'', 5), (''a'', 3)]\<rparr>"
proof -
  have "mset [(''a'', 3::int), (''b'', 5)] = mset [(''b'', 5), (''a'', 3)]" by simp
  from map_order_irrelevant [OF this] show ?thesis by blast
qed

text \<open>
  A node with a privacy manager but without a handler for private transactions, which is what
  a Besu configuration gives, panics on every request that counts as activity.
\<close>

theorem besu_with_privacy_manager_panics:
  assumes "nc_txh (sv_node s) = None" and "nc_withPrivMan (sv_node s)" and "IsClientUp (sv_node s)"
    and "IsNodeBusy (sv_node s) = None" and "rq_Body req = Inr b" and "\<not> CanIgnoreRequest ps (rq_RequestURI req)"
    and "\<not> sv_inactivityResetCh s" and "\<not> sv_syncResetCh s"
  shows "panics (fst (http_handler env turn ps s req w))"
  by (rule http_handler_no_txh [OF assms])

theorem besu_with_privacy_manager_panics_witness:
  "panics (fst (http_handler script_env no_turn sample_proxy_server
     (sample_service\<lparr>sv_node := sample_node\<lparr>nc_txh := None, nc_withPrivMan := True\<rparr>\<rparr>) sample_request []))"
  by (rule besu_with_privacy_manager_panics)
     (simp_all add: IsClientUp_def IsNodeBusy_def sample_defs sample_request_def CanIgnoreRequest_def
       sample_proxy_server_def has_key_def sample_service_def started_def)

end
