(* ===== verification/Spec2Isabelle.thy ===== *)
theory Spec2Isabelle
  imports Further
begin

text \<open>
  A verification development for Quorum Hibernate, which stops an Ethereum client and its privacy
  manager when they are idle and starts them again when a request arrives.

  \<^bold>\<open>The program.\<close> A hibernator runs beside every node. Its proxies (\<open>proxy\<close>) receive the
  requests for the client; each one resets the inactivity timer and starts the client if it is
  down. The controller (\<open>node/control.go\<close>) owns the processes (\<open>process\<close>) and the combined
  status. The inactivity tracker (\<open>node/activity.go\<close>) asks a monitor to stop the client after a
  period of silence; before it does, the controller asks the consensus engine (\<open>consensus\<close>)
  whether the network can spare the node, and the other hibernators (\<open>p2p\<close>) whether one of them
  is stopping. Hibernators call each other's JSON-RPC methods (\<open>node/api.go\<close>, \<open>rpc\<close>). A private
  transaction (\<open>privatetx\<close>) wakes the nodes of its participants first. The configuration
  (\<open>config\<close>) is read and validated at the start (\<open>main.go\<close>); the peers file is read again before
  every use.

  \<^bold>\<open>Conventions.\<close> A Go function is a definition of the same name; methods of equal names carry
  their type in front (\<open>Shell_Stop\<close>, \<open>Docker_Stop\<close>). Its result is a \<open>'a go\<close>: a value, a panic or a
  wait that does not end (\<open>Hang\<close>), be it for a channel, a command or the Docker daemon, which the
  code calls without a time limit (HTTP calls have one, and always end). A pointer receiver is an argument whose new value is part of the
  result; errors are options or sums of texts; an \<open>int\<close> is an integer whose sums and products wrap
  to 64 bits (\<open>Prelude\<close>), the two statuses are 8-bit words. The outside world is a state \<open>'w\<close> that is
  passed along, and the operations of the libraries on it are the fields of a record \<open>'w env\<close>
  (\<open>World\<close>): HTTP calls, commands, the Docker daemon, files, certificates, URLs, random numbers,
  sleeping, and the order in which goroutines are scheduled. Properties hold for every \<open>env\<close>, or
  for those that meet a named condition: \<open>rand_ok\<close> (\<open>Intn n\<close> is below n), \<open>sched_ok\<close> (the schedule
  is a permutation), \<open>stateless\<close> (a network that answers the same question in the same way),
  \<open>calls_return\<close> (no command and no call of the Docker daemon runs for ever). A send on a full
  channel waits: \<open>turn\<close> gives what the other goroutines have done when the sender goes on, if they
  ever make room, and \<open>turn_ok\<close> says that these are steps of the program.

  \<^bold>\<open>Theories.\<close>
  \<^item> \<open>Prelude\<close>, \<open>Json\<close>, \<open>World\<close>: results and integers of Go, \<open>encoding/json\<close>, the environment, and a
    script of outcomes on which the definitions can be run.
  \<^item> \<open>Core\<close> (\<open>core/*.go\<close>): statuses, messages, \<open>httpRequest\<close> and the calls on it.
  \<^item> \<open>Config_Base\<close>, \<open>Config\<close> (\<open>config\<close> but \<open>node.go\<close> and \<open>reader.go\<close>): the structs and their \<open>IsValid\<close>.
    \<open>Config_Spec\<close> states what they accept without an order of checks and proves the equivalence;
    \<open>Config_Stable\<close> shows that validation does not spoil what it accepts. \<open>Config_Node\<close>
    (\<open>config/node.go\<close>), \<open>Config_Reader\<close> (\<open>config/reader.go\<close>).
  \<^item> \<open>Consensus_Core\<close>: the contract of a shutdown check as a locale, with a majority and a
    two-thirds variant; \<open>Consensus_Quorum\<close> and \<open>Consensus_Besu\<close>: the four engines; \<open>Consensus\<close>: the
    interpretations, and exactly when the checks pass.
  \<^item> \<open>Process_Control\<close> (\<open>process/*.go\<close>): shell and Docker controllers, the contract of \<open>Process\<close> as a
    locale and its interpretations, the bounded waits.
  \<^item> \<open>Private_Tx\<close> (\<open>privatetx/quorum.go\<close>): recognising private transactions.
  \<^item> \<open>Fanout\<close>: the goroutines and channels of a status query as a step relation; \<open>P2P\<close>, \<open>P2P_Facts\<close>
    (\<open>p2p/*.go\<close>): the peer manager, which uses what \<open>Fanout\<close> shows; \<open>Request_Text\<close>: the requests it
    sends.
  \<^item> \<open>Node_Control\<close>, \<open>Node_Facts\<close> (\<open>node/control.go\<close>): the controller, its well-formedness and the
    outcomes of its operations, each as a whole. \<open>Node_Service\<close> (\<open>node/activity.go\<close>, \<open>node/api.go\<close>,
    the monitors of \<open>node/control.go\<close>): the goroutines around it as steps on channels of capacity
    one.
  \<^item> \<open>Controller_Steps\<close>, \<open>Controller_Runs\<close>, \<open>Controller_Facts\<close> (\<open>node/control.go\<close> again): \<open>StopClient\<close>,
    \<open>StartClient\<close> and \<open>CheckClientUpStatus\<close> cut where other goroutines can run, and that the pieces
    make up the operations; any number of threads that call them, with the start/stop mutex, and
    their invariant; who can move the owner of the mutex, and what a check without it can spoil.
  \<^item> \<open>Simulation\<close>: a concrete step relation simulated by an abstract one, as a locale. \<open>Phases\<close> and
    \<open>Network\<close> translate no code, they are the specification: the stop protocol of one node as its
    peers see it, and several nodes that run it against each other. \<open>Controller_Runs\<close> interprets the locale for one controller and the protocol, \<open>Fleet\<close> for
    several controllers with all their threads and the network.
  \<^item> \<open>Proxy_Server\<close> (\<open>proxy/core.go\<close>, \<open>http.go\<close>, \<open>server.go\<close>); \<open>Websocket\<close> and \<open>Ws_Serve\<close>
    (\<open>proxy/websocket.go\<close>): headers, admission and the copy loop, then the whole handler with the
    dialer that all handlers share.
  \<^item> \<open>App\<close> (\<open>rpc/service.go\<close>, \<open>main.go\<close>): loading the configuration and starting the parts.
    \<open>Main_Program\<close> (\<open>main.go\<close>): the command line and \<open>main\<close> up to its wait. \<open>Lifecycle\<close> (\<open>main.go\<close> and the \<open>Start\<close> and \<open>Stop\<close> methods): listeners, their error channels and
    \<open>Shutdown\<close> as a step relation. \<open>Logger\<close> (\<open>log/logger.go\<close>): messages, fields and levels.
  \<^item> \<open>Samples\<close>: concrete configurations, controllers and scripts for the witnesses. \<open>Further\<close>: more
    results with witnesses of their own, most of them on findings and corner cases.

  \<^bold>\<open>Properties.\<close> C1 to C6 are about the controller's operations, each as a whole, C7 to C10 about
  its threads, C11 to C14 about the running program, C15 to C17 about several hibernators, C18 to
  C21 about asking the peers, C22 and C23 about configurations, C24 to C27 about consensus, C28 to
  C31 about processes, C32 to C37 about requests, C38 about start-up, C39 and C40 about shutdown.
  C4, C10, C11, C14, C17, C19, C21, C22, C30, C31, C36 and C40, and \<open>large_interval_panics\<close>,
  \<open>unreachable_peers_pass\<close>, \<open>validate_peers_error\<close> and \<open>besu_with_privacy_manager_panics\<close> in \<open>Further\<close>,
  state what the code does where it falls short of its documentation.

  \<^bold>\<open>Bounds.\<close> Loops are structural, and the one recursive descent (the JSON parser) has a termination
  proof. \<open>micro_run\<close> counts steps: twelve are enough for every operation (\<open>rank\<close>), more change
  nothing, and the steps make up the operations (\<open>Controller_Steps.micro_run_op\<close>). The waits of a
  process controller make 30 checks, as in the code. Durations and times of a configuration are
  bounded below \<open>2 ^ 61\<close> where a sum must not wrap.

  \<^bold>\<open>Granularity.\<close> In \<open>Node_Control\<close>, and in the steps of \<open>Node_Service\<close>, \<open>StartClient\<close>, \<open>StopClient\<close> and
  the status check are one step each, and two goroutines that an operation starts and joins run one
  after the other in either order. \<open>Controller_Steps\<close> has a step for every access to a status and
  every call of a process; the consensus check and \<open>ValidatePeers\<close> stay one step each. In \<open>Network\<close>
  every peer answers in a step of its own; in \<open>Fleet\<close> a poll is one step, in which the answers are
  the statuses of the peers at that moment. The calls of a fan-out run in any order, each as a
  whole.

  \<^bold>\<open>Not modelled.\<close> Where the calls of the logger stand, and the format and output of logrus. What
  libraries do: the HTTP, CORS and JSON-RPC servers, the reverse proxy and the mux's dispatch,
  websocket connections, TOML, TLS, Docker. The time that a server's \<open>Shutdown\<close> waits for open
  requests. Two goroutines inside one process controller: a call of it is one step (\<open>Start\<close> and \<open>Stop\<close>
  take its lock, \<open>UpdateStatus\<close> does not). The goroutine that a refused \<open>PrepareForPrivateTx\<close> leaves behind is a later
  \<open>PrepareClient\<close> step.
\<close>

section \<open>Stopping and starting the client\<close>

text \<open>
  C1: a client that is up is stopped, or one of its processes touched, only if the hibernator is
  not busy and the checks of this very call have passed, one after the other: the consensus check,
  asked in the world of the call, reports no error (and a member of consensus only with strict
  mode off), and after the random sleep that follows it no peer reports a shutdown.
\<close>

theorem stop_client_needs_every_check:
  assumes "nc_wf n" and "IsClientUp n" and "StopClient env n w = (Ret (b, n'), w')"
    and "b \<or> nc_bcclntProcess n' \<noteq> nc_bcclntProcess n \<or> nc_pmclntProcess n' \<noteq> nc_pmclntProcess n"
  shows "IsNodeBusy n = None \<and>
    (\<exists>m n1 w1 ms w2 arr pm w3.
       checkAndValidateConsensus env n w = (Ret ((m, None), n1), w1) \<and>
       (m \<longrightarrow> b_DisableStrictMode (basic n)) \<and>
       RandomInt env 10 5000 w1 = (Ret ms, w2) \<and>
       ValidatePeers env (nc_nh n) (sleep env (ms * Millisecond) w2) = (Ret ((arr, None), pm), w3))"
  using StopClient_allowed [OF assms(3,1,2)] assms(4)
  by (simp add: same_processes_def shutdown_allowed_def)

theorem stop_client_needs_every_check_witness:
  "\<exists>n' w' m n1 w1 ms w2 arr pm w3. StopClient script_env sample_node stop_script = (Ret (True, n'), w') \<and>
     checkAndValidateConsensus script_env sample_node stop_script = (Ret ((m, None), n1), w1) \<and>
     RandomInt script_env 10 5000 w1 = (Ret ms, w2) \<and>
     ValidatePeers script_env (nc_nh sample_node) (sleep script_env (ms * Millisecond) w2) = (Ret ((arr, None), pm), w3)"
proof -
  obtain n' w' where s: "StopClient script_env sample_node stop_script = (Ret (True, n'), w')" by (rule sample_stop)
  with stop_client_needs_every_check [OF sample_wf sample_up(1) s] show ?thesis by blast
qed

text \<open>
  C2: if the client that is stopped takes part in consensus, what the engine reported to this very
  call (in the world in which it asked, \<open>consensus_world\<close>) leaves a majority of the nodes up without
  it, and under Istanbul more than two thirds; and strict mode is off.
\<close>

theorem stop_client_keeps_quorum:
  assumes "nc_wf n" and "IsClientUp n" and "StopClient env n w = (Ret (True, n'), w')"
  shows "\<exists>h bc. nc_consensus n = Some h \<and> b_BlockchainClient (basic n) = Some bc \<and>
    (handler_member env h (bc_BcClntRpcUrl bc) (consensus_world env n w) \<longrightarrow> b_DisableStrictMode (basic n) \<and>
      (\<exists>d t. handler_view env h (bc_BcClntRpcUrl bc) (consensus_world env n w) = Some (d, t) \<and> 0 \<le> d \<and>
        t < 2 * (t - (d + 1)) \<and> (\<forall>c. h = IstanbulConsensus c \<longrightarrow> 2 * t < 3 * (t - (d + 1)))))"
proof -
  have "shutdown_allowed env n w" using StopClient_allowed [OF assms(3,1,2)] by simp
  from this assms(1) obtain h bc where hb: "nc_consensus n = Some h" "b_BlockchainClient (basic n) = Some bc"
    and strict: "handler_member env h (bc_BcClntRpcUrl bc) (consensus_world env n w) \<longrightarrow> b_DisableStrictMode (basic n)"
    and room: "handler_member env h (bc_BcClntRpcUrl bc) (consensus_world env n w) \<longrightarrow>
          (\<exists>d t. handler_view env h (bc_BcClntRpcUrl bc) (consensus_world env n w) = Some (d, t) \<and>
          0 \<le> d \<and> d + 1 \<le> handler_budget h t \<and> t < 2 * (t - (d + 1)))"
    by (rule shutdown_allowed_room)
  have third: "2 * t < 3 * (t - (d + 1))" if "h = IstanbulConsensus c" "0 \<le> d" "d + 1 \<le> handler_budget h t" for c d t
    using that third_budget_third [of t] by simp
  from hb strict room third show ?thesis by blast
qed

theorem stop_client_keeps_quorum_witness:
  "\<exists>n' w' d t. StopClient script_env sample_node stop_script = (Ret (True, n'), w') \<and>
     handler_member script_env (RaftConsensus (Some defaultClient)) ''http://client'' stop_script \<and>
     handler_view script_env (RaftConsensus (Some defaultClient)) ''http://client'' stop_script = Some (d, t) \<and>
     t < 2 * (t - (d + 1))"
proof -
  obtain n' w' where s: "StopClient script_env sample_node stop_script = (Ret (True, n'), w')" by (rule sample_stop)
  with stop_client_keeps_quorum [OF sample_wf sample_up(1) s] sample_member(1) show ?thesis
    by (fastforce simp: sample_consensus)
qed

text \<open>
  C3: after a successful stop of a client that was up, every process is down, the client counts as
  down, and the node is available again.
\<close>

theorem stop_client_success:
  assumes "nc_wf n" and "IsClientUp n" and "StopClient env n w = (Ret (True, n'), w')"
  shows "pred_option (Not \<circ> Proc_Status) (nc_bcclntProcess n') \<and> pred_option (Not \<circ> Proc_Status) (nc_pmclntProcess n') \<and>
    nc_clientStatus n' = Down \<and> nc_nodeStatus n' = OK"
  using StopClient_success [OF assms(3,1,2)] by (simp add: procs_down_def)

theorem stop_client_success_witness:
  "\<exists>n' w'. StopClient script_env sample_node stop_script = (Ret (True, n'), w') \<and> nc_clientStatus n' = Down \<and>
     nc_nodeStatus n' = OK"
proof -
  obtain n' w' where s: "StopClient script_env sample_node stop_script = (Ret (True, n'), w')" by (rule sample_stop)
  with stop_client_success [OF sample_wf sample_up(1) s] show ?thesis by blast
qed

text \<open>
  C4: if a process cannot be stopped after the checks have passed, the hibernator stays in the
  state that announces a shutdown. As long as the client counts as up, whatever operations are
  called in whatever order and world, the status stays \<open>ShutdownInprogress\<close>, every \<open>StopClient\<close>
  refuses and every \<open>StartClient\<close> claims success, and neither changes anything. The only operation
  after which the client no longer counts as up is a status check that finds a process down; it
  leaves the status as it is. Then \<open>StopClient\<close> claims success and changes nothing, and
  \<open>StartClient\<close> either finds the client up again, the status still \<open>ShutdownInprogress\<close>, or starts the
  processes: if that succeeds they are up and the node is available again, and if it fails the
  status is \<open>StartupInprogress\<close>.
\<close>

theorem failed_stop_is_stuck:
  assumes "nc_wf n" and "IsClientUp n" and "IsNodeBusy n = None"
    and "stop_checks env n w = (Ret (True, n1), w1)" and "StopClient env n w = (Ret (False, n'), w')"
    and "rtranclp (step_up env2) n' n2"
  shows "nc_nodeStatus n2 = ShutdownInprogress \<and>
    StopClient env3 n2 w2 = (Ret (False, n2), w2) \<and> StartClient env3 n2 w2 = (Ret (True, n2), w2) \<and>
    (\<forall>n3. node_step env3 n2 n3 \<and> \<not> IsClientUp n3 \<longrightarrow>
      (\<exists>force v v'. CheckClientUpStatus env3 force n2 v = (Ret (False, n3), v')) \<and>
      nc_nodeStatus n3 = ShutdownInprogress \<and> StopClient env4 n3 w4 = (Ret (True, n3), w4) \<and>
      (\<forall>up n4 w5. StartClient env4 n3 w4 = (Ret (up, n4), w5) \<longrightarrow>
        (if fst (CheckClientUpStatus env4 True n3 w4) = Ret (True, n4)
         then up \<and> IsClientUp n4 \<and> nc_nodeStatus n4 = ShutdownInprogress
         else IsClientUp n4 = up \<and> nc_nodeStatus n4 = (if up then OK else StartupInprogress) \<and>
           (up \<longrightarrow> pred_option Proc_Status (nc_bcclntProcess n4) \<and> pred_option Proc_Status (nc_pmclntProcess n4)))))"
proof -
  have "stuck n'" using StopClient_failed [OF assms(5,1,2,3,4)] node_step_wf [OF node_step.stop [OF assms(5)] assms(1)]
    by (simp add: stuck_def)
  with assms(6) have st: "stuck n2" by (rule stuck_stays)
  then have s: "nc_nodeStatus n2 = ShutdownInprogress" "IsClientUp n2" by (simp_all add: stuck_def)
  have leave: "(\<exists>force v v'. CheckClientUpStatus env3 force n2 v = (Ret (False, n3), v')) \<and> nc_wf n3 \<and>
      nc_nodeStatus n3 = ShutdownInprogress" if "node_step env3 n2 n3" "\<not> IsClientUp n3" for n3
    using stuck_step [OF that(1) st] that(2) by (auto simp: stuck_def)
  have idle: "StopClient env4 n3 w4 = (Ret (True, n3), w4)" if "\<not> IsClientUp n3" for n3
    using that by (simp add: StopClient_def)
  have "if fst (CheckClientUpStatus env4 True n3 w4) = Ret (True, n4)
         then up \<and> IsClientUp n4 \<and> nc_nodeStatus n4 = ShutdownInprogress
         else IsClientUp n4 = up \<and> nc_nodeStatus n4 = (if up then OK else StartupInprogress) \<and>
           (up \<longrightarrow> pred_option Proc_Status (nc_bcclntProcess n4) \<and> pred_option Proc_Status (nc_pmclntProcess n4))"
    if "node_step env3 n2 n3" "\<not> IsClientUp n3" "StartClient env4 n3 w4 = (Ret (up, n4), w5)" for n3 up n4 w5
    using unstuck_start [OF that(3) _ that(2)] leave [OF that(1,2)] by (simp add: procs_up_def split: if_split_asm)
  with shutting_down_refuses [OF s, of env3 w2] s(1) leave idle show ?thesis by blast
qed

theorem failed_stop_is_stuck_witness:
  "\<exists>n' w'. StopClient script_env sample_node failing_stop_script = (Ret (False, n'), w') \<and>
     nc_nodeStatus n' = ShutdownInprogress \<and> StartClient script_env n' [CallOk] = (Ret (True, n'), [CallOk])"
proof -
  obtain n' w' where s: "StopClient script_env sample_node failing_stop_script = (Ret (False, n'), w')"
    by (rule sample_failing_stop)
  obtain n1 w1 where c: "stop_checks script_env sample_node failing_stop_script = (Ret (True, n1), w1)"
    by (rule sample_checks)
  have "rtranclp (step_up script_env) n' n'" by simp
  from failed_stop_is_stuck [OF sample_wf sample_up(1,2) c s this] s show ?thesis by blast
qed

text \<open>
  C5: \<open>StartClient\<close> never panics, and it can only be kept from returning by a command or a call of
  the Docker daemon that does not return (neither has a time limit). When it returns, it succeeds
  only with the client up, and with every process up if the client was not known to be; when it
  fails the node status stays \<open>StartupInprogress\<close>.
\<close>

theorem start_client_outcome:
  assumes "nc_wf n"
  shows "\<not> panics (fst (StartClient env n w)) \<and>
    (calls_return env \<longrightarrow> returns (fst (StartClient env n w))) \<and>
    (\<forall>up n' w'. StartClient env n w = (Ret (up, n'), w') \<longrightarrow> nc_wf n' \<and>
      (if up then IsClientUp n' \<and> (IsClientUp n \<longrightarrow> n' = n) \<and>
          (\<not> IsClientUp n \<longrightarrow> pred_option Proc_Status (nc_bcclntProcess n') \<and> pred_option Proc_Status (nc_pmclntProcess n'))
       else \<not> IsClientUp n \<and> \<not> IsClientUp n' \<and> nc_nodeStatus n' = StartupInprogress))"
proof -
  have "waits_only env (fst (StartClient env n w))" by (rule StartClient_waits [OF assms])
  moreover have "nc_wf n' \<and>
      (if up then IsClientUp n' \<and> (IsClientUp n \<longrightarrow> n' = n) \<and>
          (\<not> IsClientUp n \<longrightarrow> pred_option Proc_Status (nc_bcclntProcess n') \<and> pred_option Proc_Status (nc_pmclntProcess n'))
       else \<not> IsClientUp n \<and> \<not> IsClientUp n' \<and> nc_nodeStatus n' = StartupInprogress)"
    if "StartClient env n w = (Ret (up, n'), w')" for up n' w'
    using StartClient_Ret [OF that assms] by (cases up) (auto simp: start_outcome_def procs_up_def)
  ultimately show ?thesis by (auto simp: waits_only_def)
qed

theorem start_client_outcome_witness:
  "(\<exists>n' w'. StartClient prompt_env sample_node_down [CallErr ''down'', Ok200 ''{}''] = (Ret (True, n'), w') \<and>
      IsClientUp n' \<and> pred_option Proc_Status (nc_bcclntProcess n')) \<and>
    returns (fst (StartClient prompt_env sample_node_down [CallErr ''down'', NoReply])) \<and>
    fst (StartClient script_env sample_node_down [CallErr ''down'', NoReply]) = Hang"
proof -
  obtain n' w' where s: "StartClient prompt_env sample_node_down [CallErr ''down'', Ok200 ''{}''] = (Ret (True, n'), w')"
    using sample_start_runs(1)
    by (cases "StartClient prompt_env sample_node_down [CallErr ''down'', Ok200 ''{}'']";
        cases "fst (StartClient prompt_env sample_node_down [CallErr ''down'', Ok200 ''{}''])") auto
  have h: "fst (StartClient script_env sample_node_down [CallErr ''down'', NoReply]) = Hang"
    using sample_start_runs(2)
    by (cases "fst (StartClient script_env sample_node_down [CallErr ''down'', NoReply])") auto
  note out = start_client_outcome [OF sample_down_wf, of prompt_env]
  from out [of "[CallErr ''down'', Ok200 ''{}'']"] s sample_up(3)
  have "IsClientUp n' \<and> pred_option Proc_Status (nc_bcclntProcess n')" by auto
  with out [of "[CallErr ''down'', NoReply]"] prompt_returns s h show ?thesis by blast
qed

text \<open>
  C6: whatever operations other goroutines call on a controller, in whatever order and world, it
  stays well formed, so that \<open>StartClient\<close> and the status check cannot panic, and its node status
  is one of three between operations.
\<close>

theorem reachable_controllers:
  assumes "node_reach env n0 n" and "nc_wf n0" and "nc_nodeStatus n0 \<in> {OK, ShutdownInprogress, StartupInprogress}"
  shows "nc_wf n \<and> nc_nodeStatus n \<in> {OK, ShutdownInprogress, StartupInprogress}"
  using node_reach_wf [OF assms(1,2)] node_reach_settled [OF assms(1,2)] assms(3) by (simp add: settled_def)

theorem reachable_controllers_witness:
  "\<exists>n. StopClient script_env sample_node failing_stop_script \<noteq> (Hang, []) \<and> node_reach script_env sample_node n \<and>
     nc_nodeStatus n \<in> {OK, ShutdownInprogress, StartupInprogress} \<and> nc_wf n"
proof -
  obtain n' w' where s: "StopClient script_env sample_node failing_stop_script = (Ret (False, n'), w')"
    by (rule sample_failing_stop)
  have r: "node_reach script_env sample_node n'"
    by (rule node_reach.step [OF node_reach.refl node_step.stop [OF s]])
  have "nc_nodeStatus sample_node \<in> {OK, ShutdownInprogress, StartupInprogress}" by (simp add: sample_node_def)
  from reachable_controllers [OF r sample_wf this] r s show ?thesis by auto
qed

section \<open>The controller and its threads\<close>

text \<open>
  C7: in every state that the threads of a controller reach, in whatever order they run, at most
  one of them is inside \<open>StopClient\<close> or \<open>StartClient\<close>, the controller is well formed, and the node
  status is the one that belongs to the program point of that thread: with the mutex free never
  \<open>ConsensusWait\<close>.
\<close>

theorem one_operation_at_a_time:
  assumes "rtranclp (sys_step env) (sys_start n w) s" and "nc_wf n"
    and "nc_nodeStatus n \<in> {OK, ShutdownInprogress, StartupInprogress}"
  shows "(\<forall>i j p q. sy_thread s i = At p \<and> locked p \<and> sy_thread s j = At q \<and> locked q \<longrightarrow> i = j) \<and>
    nc_wf (sy_node s) \<and>
    (\<forall>i p. sy_thread s i = At p \<and> locked p \<longrightarrow> nc_nodeStatus (sy_node s) \<in> pc_status p) \<and>
    (sy_mux s = None \<longrightarrow> nc_nodeStatus (sy_node s) \<in> {OK, ShutdownInprogress, StartupInprogress})"
proof -
  have inv: "sys_inv s" by (rule sys_reach_inv [OF assms(1) sys_inv_start]) (use assms(2,3) in \<open>simp_all add: settled_def\<close>)
  then have mux: "sy_thread s i = At p \<Longrightarrow> locked p \<Longrightarrow> sy_mux s = Some i" for i p by (simp add: sys_inv_thread)
  have status: "nc_nodeStatus (sy_node s) \<in> pc_status p" if "sy_thread s i = At p" "locked p" for i p
    using inv mux [OF that] that by (simp add: sys_inv_def owner_def owner_status_def)
  have free: "nc_nodeStatus (sy_node s) \<in> {OK, ShutdownInprogress, StartupInprogress}" if "sy_mux s = None"
    using inv that by (simp add: sys_inv_def owner_status_def)
  have one: "i = j" if "sy_thread s i = At p" "locked p" "sy_thread s j = At q" "locked q" for i j p q
    using mux [OF that(1,2)] mux [OF that(3,4)] by simp
  show ?thesis using one status free inv by (auto simp only: sys_inv_def)
qed

theorem one_operation_at_a_time_witness:
  "\<exists>s. rtranclp (sys_step script_env) (sys_start sample_node []) s \<and> sy_thread s 0 = At Stop_Up \<and>
     sy_thread s 1 = Blocked Op_Start \<and> nc_nodeStatus (sy_node s) \<in> pc_status Stop_Up"
proof -
  obtain s where r: "rtranclp (sys_step script_env) (sys_start sample_node []) s" and "sy_thread s 0 = At Stop_Up"
    and "sy_thread s 1 = Blocked Op_Start" and "sy_mux s = Some 0" by (rule sample_two_threads)
  moreover have "nc_nodeStatus sample_node \<in> {OK, ShutdownInprogress, StartupInprogress}" by (simp add: sample_node_def)
  ultimately show ?thesis using one_operation_at_a_time [OF r sample_wf] by (fastforce simp: locked_def needs_mutex_def)
qed

text \<open>
  C8: a controller keeps to the stop protocol that its peers rely on: seen from outside, every step
  of every thread is a sequence of steps of the protocol, in which the peers answer what
  \<open>ValidatePeers\<close> collects at that moment, and the phase shows in the node status.
\<close>

theorem controller_follows_protocol:
  fixes s t :: "'w sys"
  assumes "rtranclp (sys_step env) (sys_start n w) s" and "nc_wf n"
    and "nc_nodeStatus n \<in> {OK, ShutdownInprogress, StartupInprogress}" and "sched_ok env" and "sys_step env s t"
  defines "answers_seen \<equiv> map nsi_Status (poll_answers env (sy_node s) (sy_world s))"
  shows "rtranclp (phase_step (\<lambda>k. Some (answers_seen ! k)) {..<length answers_seen}) (view s) (view t) \<and>
    phase_status (snd (view t :: NodeStatus \<times> nat phase)) (nc_nodeStatus (sy_node t))"
proof -
  have inv: "sys_inv s" by (rule sys_reach_inv [OF assms(1) sys_inv_start]) (use assms(2,3) in \<open>simp_all add: settled_def\<close>)
  have "rtranclp (phase_step (\<lambda>k. Some (answers_seen ! k)) {..<length answers_seen}) (view s) (view t)"
    by (rule sys_step_phases [OF assms(5) inv assms(4)]) (simp only: answers_seen_def polled_answers)
  moreover have "phase_status (snd (view t :: NodeStatus \<times> nat phase)) (nc_nodeStatus (sy_node t))"
    by (rule view_status [OF sys_inv_step [OF assms(5) inv]])
  ultimately show ?thesis ..
qed

theorem controller_follows_protocol_witness:
  "\<exists>s t. rtranclp (sys_step script_env) (sys_start fleet_node fleet_script) s \<and> sys_step script_env s t \<and>
     owner s = Some Stop_Peers \<and> owner t = Some Stop_Procs \<and>
     rtranclp (phase_step (\<lambda>k. Some ([OK] ! k)) {..<1}) (ShutdownInprogress, Announced :: nat phase) (view t)"
proof -
  obtain s t where c: "rtranclp (calm script_env) (sys_start fleet_node fleet_script) s" and st: "sys_step script_env s t"
    and os: "owner s = Some Stop_Peers" and ot: "owner t = Some Stop_Procs" and sd: "nc_nodeStatus (sy_node s) = ShutdownInprogress"
    and a: "map nsi_Status (poll_answers script_env (sy_node s) (sy_world s)) = [OK]"
    by (rule sample_poll)
  have r: "rtranclp (sys_step script_env) (sys_start fleet_node fleet_script) s" by (rule calm_steps [OF c])
  have "nc_nodeStatus fleet_node \<in> {OK, ShutdownInprogress, StartupInprogress}" by (simp only: fleet_node_wf) simp
  from controller_follows_protocol [OF r fleet_node_wf(1) this sched_ok_script_env st]
  have "rtranclp (phase_step (\<lambda>k. Some ([OK] ! k)) {..<length [OK]}) (view s :: NodeStatus \<times> nat phase) (view t)"
    unfolding a by (rule conjunct1)
  moreover have "view s = (ShutdownInprogress, Announced :: nat phase)" by (simp only: view_def Let_def os sd option.case pc_phase.simps)
  ultimately show ?thesis using r st os ot by (intro exI [of _ s] exI [of _ t]) simp
qed

text \<open>
  C9: the start/stop mutex is given back: its owner has at most twelve steps to go, no step of
  another thread sends it back, and its next step can be taken, with two exceptions. The consensus
  check and the poll of the peers may panic or hang. A step that starts or stops a process may
  hang, and only because the command or the Docker daemon does not return. No other step can.
\<close>

theorem mutex_is_given_back:
  assumes "rtranclp (sys_step env) (sys_start n w) s" and "nc_wf n"
    and "nc_nodeStatus n \<in> {OK, ShutdownInprogress, StartupInprogress}" and "sy_mux s = Some i"
  shows "\<exists>pc. sy_thread s i = At pc \<and> rank pc \<le> 12 \<and>
    (pc \<notin> {Stop_Cons, Stop_Peers} \<longrightarrow> \<not> panics (fst (micro env pc (sy_node s) (sy_world s))) \<and>
      (\<not> calls_out pc \<or> calls_return env \<longrightarrow> returns (fst (micro env pc (sy_node s) (sy_world s))))) \<and>
    (returns (fst (micro env pc (sy_node s) (sy_world s))) \<longrightarrow> (\<exists>t. sys_step env s t \<and> sy_thread t i \<noteq> At pc)) \<and>
    (\<forall>t. sys_step env s t \<longrightarrow> sy_mux t = None \<or>
       sy_mux t = Some i \<and> (\<exists>pc'. sy_thread t i = At pc' \<and> (pc' = pc \<or> rank pc' < rank pc)))"
proof -
  have inv: "sys_inv s" by (rule sys_reach_inv [OF assms(1) sys_inv_start]) (use assms(2,3) in \<open>simp_all add: settled_def\<close>)
  obtain pc where "owner s = Some pc" and th: "sy_thread s i = At pc"
    and move: "returns (fst (micro env pc (sy_node s) (sy_world s))) \<longrightarrow> (\<exists>t. sys_step env s t \<and> sy_thread t i \<noteq> At pc)"
    and wait: "pc \<notin> {Stop_Cons, Stop_Peers} \<longrightarrow> waits_only env (fst (micro env pc (sy_node s) (sy_world s))) \<and>
      (\<not> calls_out pc \<longrightarrow> returns (fst (micro env pc (sy_node s) (sy_world s))))"
    by (rule owner_can_move [where env = env, OF inv assms(4)])
  have "rank pc \<le> 12" by (cases pc) simp_all
  with th move wait mutex_step [OF _ inv assms(4) th] show ?thesis
    unfolding waits_only_def by blast
qed

theorem mutex_is_given_back_witness:
  "\<exists>s t. rtranclp (sys_step script_env) (sys_start sample_node []) s \<and> sy_mux s = Some 0 \<and> sys_step script_env s t \<and>
     sy_thread s 0 = At Stop_Up \<and> sy_thread t 0 \<noteq> At Stop_Up"
proof -
  obtain s where r: "rtranclp (sys_step script_env) (sys_start sample_node []) s" and th: "sy_thread s 0 = At Stop_Up"
    and "sy_thread s 1 = Blocked Op_Start" and m: "sy_mux s = Some 0" by (rule sample_two_threads)
  have "nc_nodeStatus sample_node \<in> {OK, ShutdownInprogress, StartupInprogress}" by (simp add: sample_node_def)
  from mutex_is_given_back [OF r sample_wf this m] th r m show ?thesis by auto
qed

text \<open>
  C10: an up check does not take the mutex. If it has found the client up and \<open>StopClient\<close> then stops
  it, the check afterwards records the client as up: every thread is done, every process is down,
  the node is available, and \<open>StartClient\<close> claims success without starting anything.
\<close>

theorem overtaken_check:
  assumes "nc_wf n" and "IsClientUp n" and "fetchCurrentClientStatuses env n w = (Ret ((True, True), n1), w1)"
    and "StopClient env n1 w1 = (Ret (True, n2), w2)"
  shows "\<exists>s. rtranclp (sys_step env) (sys_start n w) s \<and> sy_mux s = None \<and> (\<forall>i. sy_thread s i = Quiet) \<and>
    pred_option (Not \<circ> Proc_Status) (nc_bcclntProcess (sy_node s)) \<and>
    pred_option (Not \<circ> Proc_Status) (nc_pmclntProcess (sy_node s)) \<and> nc_nodeStatus (sy_node s) = OK \<and>
    StartClient env2 (sy_node s) w3 = (Ret (True, sy_node s), w3)"
proof -
  let ?s = "sys_start (SetClntStatus Up n2) w2"
  have "nc_wf n1" "IsClientUp n1" using fetch_keeps [OF assms(3,1)] assms(2) by (simp_all add: IsClientUp_def)
  from StopClient_success [OF assms(4) this] have down: "procs_down n2" "nc_nodeStatus n2 = OK" by simp_all
  have "rtranclp (sys_step env) (sys_start n w) ?s" using check_overtaken [OF assms(2-4)] by simp
  moreover have "StartClient env2 (SetClntStatus Up n2) w3 = (Ret (True, SetClntStatus Up n2), w3)"
    by (simp add: StartClient_def IsClientUp_def SetClntStatus_def)
  ultimately show ?thesis using down
    by (intro exI [of _ ?s]) (simp add: sys_start_def procs_down_def SetClntStatus_def)
qed

theorem overtaken_check_witness:
  "\<exists>s. rtranclp (sys_step script_env) (sys_start sample_node (Ok200 ''{}'' # stop_script)) s \<and> nc_nodeStatus (sy_node s) = OK \<and>
     StartClient script_env (sy_node s) [CallOk] = (Ret (True, sy_node s), [CallOk])"
proof -
  obtain n1 w1 n2 w2 where f: "fetchCurrentClientStatuses script_env sample_node (Ok200 ''{}'' # stop_script) = (Ret ((True, True), n1), w1)"
    and s: "StopClient script_env n1 w1 = (Ret (True, n2), w2)" by (rule sample_fetch)
  from overtaken_check [OF sample_wf sample_up(1) f s] show ?thesis by blast
qed

section \<open>The program and its goroutines\<close>

text \<open>
  C11: from the command line to the running program. If the configuration file that the flags name
  loads, the program comes to the end of its start unless one of two things that validation lets
  through makes it panic: a proxy with a repeated or an empty path, or a polling interval that
  wraps around to nothing positive in nanoseconds (the ticker of the status monitor panics on it).
  When \<open>main\<close> has come to wait for its end, the RPC service listens, there is a proxy server for
  every configured proxy, with its address and its paths, and however the goroutines of the node
  go on, the controller stays well formed and the inactivity count within its limit.
\<close>

theorem main_waits:
  assumes "parse_flags args default_flags = Inr fl"
    and "readNodeConfigFromFile env tn tp (fl_config fl) w = (Ret (Inr cfg), w1)"
    and "rand_ok env" and "b_InactivityTime (nd_BasicConfig cfg) < 2 ^ 61"
  shows "(returns (fst (main_program env tn tp register_err args w)) \<longleftrightarrow>
      (\<forall>p. Some p \<in> set (b_Proxies (nd_BasicConfig cfg)) \<longrightarrow> '''' \<notin> set (px_ProxyPaths p) \<and> distinct (px_ProxyPaths p)) \<and>
      0 < go_mul (b_UpchkPollingInterval (nd_BasicConfig cfg)) Second) \<and>
    (\<forall>a w2. main_program env tn tp register_err args w = (Ret (Runs a), w2) \<longrightarrow>
      (\<exists>app. a = Some app \<and> app_rpc app \<noteq> None \<and>
         list_all2 proxy_built (b_Proxies (nd_BasicConfig cfg)) (app_proxyServers app) \<and>
         nc_nodeStatus (sv_node (app_service app)) = OK \<and>
         (\<forall>env2 s. svc_reach env2 (app_service app) s \<longrightarrow>
           nc_wf (sv_node s) \<and> 0 \<le> sv_inactiveTimeCount s \<and> sv_inactiveTimeCount s \<le> b_InactivityTime (basic (sv_node s)))))"
proof (intro conjI allI impI)
  show "returns (fst (main_program env tn tp register_err args w)) \<longleftrightarrow>
      (\<forall>p. Some p \<in> set (b_Proxies (nd_BasicConfig cfg)) \<longrightarrow> '''' \<notin> set (px_ProxyPaths p) \<and> distinct (px_ProxyPaths p)) \<and>
      0 < go_mul (b_UpchkPollingInterval (nd_BasicConfig cfg)) Second"
    using main_program_returns [OF assms] by (simp add: startable_def polling_ok_def paths_ok_def)
next
  fix a w2
  assume "main_program env tn tp register_err args w = (Ret (Runs a), w2)"
  then obtain app where app: "a = Some app" "app_rpc app \<noteq> None" "svc_inv (app_service app)"
    "nc_nodeStatus (sv_node (app_service app)) = OK"
    "list_all2 proxy_built (b_Proxies (nd_BasicConfig cfg)) (app_proxyServers app)"
    by (rule main_program_service [OF assms(3) _ assms(1,2,4)])
  have "nc_wf (sv_node s) \<and> 0 \<le> sv_inactiveTimeCount s \<and> sv_inactiveTimeCount s \<le> b_InactivityTime (basic (sv_node s))"
    if "svc_reach env2 (app_service app) s" for env2 s
    using svc_reach_inv [OF that app(3)] by (simp add: svc_inv_def)
  with app show "\<exists>app. a = Some app \<and> app_rpc app \<noteq> None \<and>
      list_all2 proxy_built (b_Proxies (nd_BasicConfig cfg)) (app_proxyServers app) \<and>
      nc_nodeStatus (sv_node (app_service app)) = OK \<and> (\<forall>env2 s. svc_reach env2 (app_service app) s \<longrightarrow>
      nc_wf (sv_node s) \<and> 0 \<le> sv_inactiveTimeCount s \<and> sv_inactiveTimeCount s \<le> b_InactivityTime (basic (sv_node s)))"
    by blast
qed

theorem main_waits_witness:
  "\<exists>app w. main_program script_env sample_toml_node sample_toml_peers None [''--config'', ''config.toml'']
      [Ok200 '''', Ok200 ''''] = (Ret (Runs (Some app)), w) \<and> app_rpc app \<noteq> None \<and>
    list_all2 proxy_built [Some sample_proxy] (app_proxyServers app) \<and> map ps_paths (app_proxyServers app) = [[''/'']] \<and>
    nc_wf (sv_node (app_service app))"
proof -
  have fl: "parse_flags [''--config'', ''config.toml''] default_flags = Inr default_flags" by code_simp
  have ld: "readNodeConfigFromFile script_env sample_toml_node sample_toml_peers (fl_config default_flags)
      [Ok200 '''', Ok200 ''''] = (Ret (Inr sample_config), [])"
    using sample_load by (simp add: default_flags_def)
  have t: "b_InactivityTime (nd_BasicConfig sample_config) < 2 ^ 61" by (simp add: sample_config_def sample_basic_def)
  obtain app w where run: "main_program script_env sample_toml_node sample_toml_peers None [''--config'', ''config.toml'']
      [Ok200 '''', Ok200 ''''] = (Ret (Runs (Some app)), w)" and paths: "map ps_paths (app_proxyServers app) = [[''/'']]"
    using sample_main_runs by (auto split: prod.split_asm go.split_asm main_result.split_asm option.split_asm)
  have px: "b_Proxies (nd_BasicConfig sample_config) = [Some sample_proxy]"
    by (simp add: sample_config_def sample_basic_def)
  from main_waits [OF fl ld rand_ok_script_env t, of None] run have
    "app_rpc app \<noteq> None \<and> list_all2 proxy_built [Some sample_proxy] (app_proxyServers app) \<and>
      (\<forall>env2 s. svc_reach env2 (app_service app) s \<longrightarrow> nc_wf (sv_node s))"
    unfolding px by (elim conjE allE impE) auto
  with run paths svc_reach.refl [of script_env "app_service app"] show ?thesis
    by (intro exI [of _ app] exI [of _ w]) simp
qed

text \<open>
  C12: in every reachable state of the running program the inactivity count is between zero and the
  limit, at most one stop and one start request is outstanding, and the tracker, when it is not
  waiting for an answer, can always take its next step: none of its sends blocks.
\<close>

theorem service_invariant:
  assumes "svc_reach env s0 s" and "svc_inv s0"
  shows "0 \<le> sv_inactiveTimeCount s \<and> sv_inactiveTimeCount s \<le> b_InactivityTime (basic (sv_node s)) \<and>
    (sv_stopClntCh s \<longrightarrow> sv_tracker s = AwaitStop \<and> sv_stopClntCompleteCh s = None) \<and>
    (sv_startClntCh s \<longrightarrow> sv_resync s = AwaitStart \<and> sv_startClntCompleteCh s = None) \<and>
    (sv_tracker s = Ticking \<longrightarrow> returns (fst (inactivity_tick env s w)))"
proof -
  have inv: "svc_inv s" by (rule svc_reach_inv [OF assms])
  have tick: "returns (fst (inactivity_tick env s w))" if ticking: "sv_tracker s = Ticking"
  proof -
    obtain s' w' where "inactivity_tick env s w = (Ret s', w')" by (rule inactivity_tick_returns [OF inv ticking])
    then show ?thesis by simp
  qed
  show ?thesis using inv tick by (auto simp: svc_inv_def split: if_split_asm)
qed

theorem service_invariant_witness:
  "svc_reach script_env sample_service sample_service \<and> sv_inactiveTimeCount sample_service \<le> 60 \<and>
     returns (fst (inactivity_tick script_env sample_service []))"
proof -
  have r: "svc_reach script_env sample_service sample_service" by (rule svc_reach.refl)
  have "sv_tracker sample_service = Ticking" by (simp add: sample_service_def started_def)
  with service_invariant [OF r sample_inv, of "[]"] r show ?thesis
    by (simp add: sample_service_def started_def sample_defs)
qed

text \<open>
  C13: a stop is never requested before a full period of silence: while no more ticks than the
  limit have passed since the count was zero, ticking only counts.
\<close>

theorem no_stop_before_limit:
  assumes "svc_inv s" and "sv_inactiveTimeCount s = 0" and "int k \<le> b_InactivityTime (basic (sv_node s))"
  shows "ticks env k s w = (Ret (s\<lparr>sv_inactiveTimeCount := int k\<rparr>), w)"
  using ticks_below_limit [OF assms(1), of k env w] assms(2,3) by simp

theorem no_stop_before_limit_witness:
  "ticks script_env 60 sample_service [CallOk] = (Ret (sample_service\<lparr>sv_inactiveTimeCount := 60\<rparr>), [CallOk])"
  using no_stop_before_limit [OF sample_inv, of 60]
  by (simp add: sample_service_def started_def sample_defs)

text \<open>
  C14: the resync timer is not periodic: once it has fired, it stays unarmed on every path of the
  program on which no request resets it, however long the node hibernates.
\<close>

theorem resync_fires_once:
  assumes "svc_inv s" and "sv_resync s = ResyncIdle" and "\<not> sv_syncResetCh s" and "resync_fire s = Ret s1"
    and "svc_quiet env s1 s2"
  shows "\<not> sv_timer s2 \<and> \<not> sv_syncResetCh s2"
proof -
  have "svc_inv s1" using resync_fire_inv assms(1,2,4) by blast
  with svc_quiet_unarmed [OF assms(5)] resync_fire_unarmed [OF assms(4,3)] show ?thesis by blast
qed

theorem resync_fires_once_witness:
  "\<exists>s s1 s2. resync_fire s = Ret s1 \<and> svc_step script_env s1 s2 \<and> sv_startClntCh s1 \<and> \<not> sv_timer s2"
proof -
  define s where "s = sample_service\<lparr>sv_resync := ResyncIdle, sv_timer := True\<rparr>"
  have inv: "svc_inv s" using sample_inv by (simp add: s_def sample_service_def svc_inv_def started_def)
  have t: "sv_resync s = ResyncIdle" "\<not> sv_syncResetCh s"
    by (simp_all add: s_def sample_service_def started_def)
  define s1 where "s1 = s\<lparr>sv_timer := False, sv_startClntCh := True, sv_resync := AwaitStart\<rparr>"
  have f: "resync_fire s = Ret s1"
    by (simp add: resync_fire_def processResyncRequest_def RequestStartClient_def ResetInactivity_def s_def s1_def
        sample_service_def started_def IsNodeBusy_def sample_defs)
  obtain s2 where st: "svc_step script_env s1 s2" and r: "\<not> sv_syncResetCh s2"
  proof -
    have i: "inactivity_tick script_env s1 [] = (Ret (s1\<lparr>sv_inactiveTimeCount := 1\<rparr>), [])"
      by (simp add: inactivity_tick_def s1_def s_def sample_service_def started_def sample_defs go_add_def)
    have "sv_tracker s1 = Ticking" by (simp add: s1_def s_def sample_service_def started_def)
    from svc_step.tick [OF this i] show thesis
      by (rule that) (simp add: s1_def s_def sample_service_def started_def)
  qed
  have "svc_quiet script_env s1 s2" by (rule svc_quiet.step [OF svc_quiet.refl st r])
  from resync_fires_once [OF inv t f this] have "\<not> sv_timer s2" by blast
  moreover have "sv_startClntCh s1" by (simp add: s1_def)
  ultimately show ?thesis using f st by blast
qed

section \<open>Several hibernators\<close>

text \<open>
  C15: of two controllers that list and reach each other and whose environments answer a poll with
  the statuses of the peers, never are both past the poll and not yet back from \<open>StopClient\<close>,
  whatever their threads and those of all other nodes do in between.
\<close>

theorem controllers_stop_one_at_a_time:
  assumes "rtranclp (fleet_step peers reach) (\<lambda>i. sys_start (n i) (w i)) f" and "\<And>i. nc_wf (n i) \<and> nc_nodeStatus (n i) = OK"
    and "i \<noteq> j" and "j \<in> peers i" and "i \<in> peers j" and "reach i j" and "reach j i"
    and "owner (f i) = Some p" and "stop_point p" and "owner (f j) = Some q"
  shows "\<not> stop_point q"
  by (rule fleet_never_both [OF assms])

theorem controllers_stop_one_at_a_time_witness:
  "\<exists>f q. rtranclp (fleet_step fleet_peers (\<lambda>i j. True)) fleet_init f \<and> owner (f True) = Some Stop_Procs \<and>
     owner (f False) = Some q \<and> \<not> stop_point q"
proof -
  obtain f where f: "rtranclp (fleet_step fleet_peers (\<lambda>i j. True)) fleet_init f" "owner (f True) = Some Stop_Procs"
    "owner (f False) = Some Stop_Up" by (rule fleet_sample)
  have n: "nc_wf fleet_node \<and> nc_nodeStatus fleet_node = OK" using fleet_node_wf by simp
  have p: "False \<in> fleet_peers True" "True \<in> fleet_peers False" by (simp_all add: fleet_peers_def)
  have "\<not> stop_point Stop_Up"
    by (rule controllers_stop_one_at_a_time [OF f(1) n _ p _ _ f(2) _ f(3)]) simp_all
  with f show ?thesis by blast
qed



text \<open>
  C17: any number of controllers that cannot reach each other stop at the same time, although
  every one of them lists the others: a peer that does not answer counts as one that is not
  shutting down. Here each of them is up and idle, its own consensus check passes, and it can read
  its peers file but every call to one of its peers fails (\<open>silent_stop\<close>); there is a run of their
  threads, the code's own poll included, after which all are past the poll and about to stop their
  processes.
\<close>

theorem unreachable_nodes_both_stop:
  assumes "finite I"
    and "\<And>i. i \<in> I \<Longrightarrow> finite (peers i) \<and> silent_stop (env i) (n i) (w i) (card (peers i - {i}))"
  shows "\<exists>f. rtranclp (fleet_step peers (\<lambda>i j. False)) (\<lambda>i. sys_start (n i) (w i)) f \<and>
    (\<forall>i\<in>I. owner (f i) = Some Stop_Procs \<and> stop_point Stop_Procs)"
proof -
  obtain f where "rtranclp (fleet_step peers (\<lambda>i j. False)) (\<lambda>i. sys_start (n i) (w i)) f"
    and "\<forall>i\<in>I. owner (f i) = Some Stop_Procs"
    using silent_all_pass [OF assms] by blast
  then show ?thesis by (intro exI [of _ f]) simp
qed

theorem unreachable_nodes_both_stop_witness:
  "\<exists>f :: bool \<Rightarrow> script sys. rtranclp (fleet_step fleet_peers (\<lambda>i j. False)) (\<lambda>i. sys_start fleet_node raft_answers) f \<and>
     owner (f True) = Some Stop_Procs \<and> owner (f False) = Some Stop_Procs"
proof -
  have "finite (fleet_peers i) \<and> silent_stop parted_env fleet_node raft_answers (card (fleet_peers i - {i}))" for i
    using parted_stop by (cases i) (simp_all add: fleet_peers_def)
  with unreachable_nodes_both_stop [of "UNIV :: bool set" fleet_peers "\<lambda>i. parted_env" "\<lambda>i. fleet_node" "\<lambda>i. raft_answers"]
  show ?thesis by auto
qed

section \<open>Asking the peers\<close>

text \<open>
  C18: the fan-out of a status query. With as many results as it expects, it is never stuck before
  it returns, every step of its goroutines makes the rest of the run shorter, so that it does
  return, and what it returns are all the results, in an order of arrival. With one more it
  returns as well, but one of the results is lost in the channel. With fewer, or at least two more,
  no run returns. This is what the sequential model of the peer manager (\<open>gather\<close>) computes.
\<close>

theorem fan_out_returns:
  assumes "fan_reach e rs s" and "0 < e"
  shows "(size rs = e \<longrightarrow> (fan_returned s \<or> (\<exists>t. fan_step e s t)) \<and>
      (fan_returned s \<longrightarrow> mset (fan_got s) = rs \<and> gather e (fan_got s) = Ret (fan_got s))) \<and>
    (size rs = e + 1 \<longrightarrow> (fan_returned s \<or> (\<exists>t. fan_step e s t)) \<and>
      (fan_returned s \<longrightarrow> (\<exists>lost. fan_buf s = Some lost \<and> mset (fan_got s @ [lost]) = rs \<and>
         gather e (fan_got s @ [lost]) = Ret (fan_got s)))) \<and>
    (\<forall>t. fan_step e s t \<longrightarrow> fan_measure t < fan_measure s) \<and>
    (size rs < e \<or> e + 1 < size rs \<longrightarrow> \<not> fan_returned s \<and> (mset order = rs \<longrightarrow> gather e order = Hang))"
proof -
  note inv = fan_returned_inv [OF fan_reach_inv [OF assms]]
  have "mset (fan_got s) = rs \<and> gather e (fan_got s) = Ret (fan_got s)" if ret: "fan_returned s" and e: "size rs = e"
  proof -
    from inv [OF ret] have l: "length (fan_got s) = e"
      and r: "rs = mset (fan_got s) + (case fan_buf s of None \<Rightarrow> {#} | Some r \<Rightarrow> {#r#})" by blast+
    from l r e have "fan_buf s = None" by (cases "fan_buf s") auto
    with l r show ?thesis by (auto simp: gather_def)
  qed
  moreover have "\<exists>lost. fan_buf s = Some lost \<and> mset (fan_got s @ [lost]) = rs \<and>
      gather e (fan_got s @ [lost]) = Ret (fan_got s)" if ret: "fan_returned s" and e: "size rs = e + 1"
    using fan_returned_one_more [OF assms ret e] inv [OF ret] by (auto simp: gather_def)
  moreover have "\<not> fan_returned s \<and> (mset order = rs \<longrightarrow> gather e order = Hang)" if "size rs < e \<or> e + 1 < size rs"
    using fan_never_returns [OF assms that] that by (auto simp: gather_Hang_iff)
  ultimately show ?thesis using fan_progress [OF assms(1) _ assms(2)] fan_step_decreases by blast
qed

theorem fan_out_returns_witness:
  "\<exists>s t. fan_reach 2 {#True, False#} s \<and> fan_returned s \<and> mset (fan_got s) = {#True, False#} \<and>
     fan_step 2 (fan_init {#True, False#}) t \<and> fan_measure t < fan_measure (fan_init {#True, False#})"
proof -
  obtain s where s: "fan_reach 2 {#True, False#} s" "fan_returned s"
    using fan_every_order [of "[True, False]"] by (auto simp: numeral_2_eq_2)
  have i: "fan_reach 2 {#True, False#} (fan_init {#True, False#})" by (rule fan_reach.start)
  have sz: "(0::nat) < 2" and n: "size {#True, False#} = 2" by simp_all
  have "\<not> fan_returned (fan_init {#True, False#})" by (simp add: fan_init_def)
  with fan_out_returns [OF i sz] fan_out_returns [OF s(1) sz] s n show ?thesis by blast
qed

text \<open>
  C19: \<open>ValidatePeers\<close> accepts a shutdown exactly when no peer other than the node itself reports
  that it is shutting down or waiting for its turn. A peer that cannot be reached is taken for one
  that reports the status 0, which is neither, so that a node none of whose peers can be reached
  is allowed to stop. The comment of the function and the architecture document say the contrary,
  that a peer that does not respond is an error.
\<close>

theorem validate_peers_verdict:
  assumes "sched_ok env" and "stateless env ans" and "readPeersConfig env pm w = (Ret (ps, pm1), w1)"
    and "req = NodeStatusMethod (b_Name (nd_BasicConfig (mgr_cfg pm)))"
  shows "\<exists>arr e. ValidatePeers env pm w = (Ret ((arr, e), pm1), w1) \<and>
    (e = None \<longleftrightarrow> (\<forall>n. n \<in> set ps \<and> \<not> isPeerSelf pm1 (peer_Name n) \<longrightarrow>
       seen_status env req n w1 \<notin> {ShutdownInprogress, ConsensusWait})) \<and>
    (\<forall>n. unreachable env req n w1 \<longrightarrow> seen_status env req n w1 = 0) \<and>
    ((\<forall>n. n \<in> set ps \<and> \<not> isPeerSelf pm1 (peer_Name n) \<longrightarrow> unreachable env req n w1) \<longrightarrow> e = None)"
proof -
  obtain arr e where v: "ValidatePeers env pm w = (Ret ((arr, e), pm1), w1)"
    and e: "e = None \<longleftrightarrow> (\<forall>n. n \<in> set ps \<and> \<not> isPeerSelf pm1 (peer_Name n) \<longrightarrow>
       seen_status env req n w1 \<notin> {ShutdownInprogress, ConsensusWait})"
    using ValidatePeers_stateless [OF assms(1-3)] by (auto simp: remote_peers_def assms(4))
  have zero: "unreachable env req n w1 \<Longrightarrow> seen_status env req n w1 = 0" for n by (rule seen_status_unreachable)
  then have "unreachable env req n w1 \<Longrightarrow> seen_status env req n w1 \<notin> {ShutdownInprogress, ConsensusWait}" for n by simp
  with v e zero show ?thesis by blast
qed

theorem validate_peers_verdict_witness:
  "\<exists>arr e. ValidatePeers (answering_env sample_busy_body) (sample_manager [sample_peer ''n2'']) [] =
     (Ret ((arr, e), with_peers (sample_manager [sample_peer ''n2'']) [sample_peer ''n2'']), []) \<and> e \<noteq> None"
proof -
  note r = reads_as_read [OF sample_reads(2), of "sample_busy_body" "[]"]
  have "\<not> isPeerSelf (with_peers (sample_manager [sample_peer ''n2'']) [sample_peer ''n2'']) (peer_Name (sample_peer ''n2''))"
    by (simp add: isPeerSelf_def with_peers_def sample_manager_def sample_basic_def sample_peer_def)
  moreover have "NodeStatusMethod ''n1'' =
      NodeStatusMethod (b_Name (nd_BasicConfig (mgr_cfg (sample_manager [sample_peer ''n2'']))))"
    by (simp add: sample_manager_def sample_basic_def)
  ultimately show ?thesis using validate_peers_verdict [OF sample_envs(2,3) r] sample_busy_peer by fastforce
qed

text \<open>
  C20: a private transaction is let through exactly when one of the peers that its keys select
  answers that it is ready and none answers that it is not. A participant that does not answer is
  ignored as long as another one answers.
\<close>

theorem private_tx_participants:
  assumes "sched_ok env" and "stateless env ans" and "reads_as env pm ps"
    and "req = PreparePvtTxMethod (b_Name (nd_BasicConfig (mgr_cfg pm)))"
  shows "\<exists>pm' b. ValidatePeerPrivateTxStatus env pm keys w = (Ret ((b, None), pm'), w) \<and>
    (b \<longleftrightarrow> (\<exists>p\<in>set (participants ps keys). answers env req p w) \<and>
           (\<forall>p\<in>set (participants ps keys). answers env req p w \<longrightarrow> ready env req p w))"
  using private_tx_verdict [OF assms(1,2,3)] assms(4) by simp

theorem private_tx_participants_witness:
  "\<exists>pm'. ValidatePeerPrivateTxStatus (answering_env sample_ready_body) (sample_manager [sample_peer ''n2''])
     [''key n2'', ''key n3''] [] = (Ret ((True, None), pm'), [])"
proof -
  have p: "participants [sample_peer ''n2''] [''key n2'', ''key n3''] = [sample_peer ''n2'']"
    by (simp add: participants_def sample_peer_def map_filter_simps)
  have n: "PreparePvtTxMethod ''n1'' =
      PreparePvtTxMethod (b_Name (nd_BasicConfig (mgr_cfg (sample_manager [sample_peer ''n2'']))))"
    by (simp add: sample_manager_def sample_basic_def)
  from private_tx_participants [OF sample_envs(2,3) sample_reads(2) n, of sample_ready_body "[''key n2'', ''key n3'']" "[]"] p
    sample_ready_peer show ?thesis by fastforce
qed

text \<open>
  C21: the peers file is read once to count the participants and again to ask them; when the
  second reading finds fewer than the first, or at least two more, the request never returns.
\<close>

theorem private_tx_hangs_on_change:
  assumes "sched_ok env"
    and "peersByParticipantKeyCount env pm keys w = (Ret (e, pm1), w1)" and "0 < e"
    and "start_loop env pm1 keys w1 = (Ret (ps, pm2), w2)" and "length ps < e \<or> e + 1 < length ps"
  shows "fst (ValidatePeerPrivateTxStatus env pm keys w) = Hang"
proof -
  obtain r w' where "peerPrivateTxStatus env pm keys w = (r, w')" by fastforce
  with private_tx_hangs [OF assms] show ?thesis by (simp add: ValidatePeerPrivateTxStatus_def)
qed

theorem private_tx_hangs_on_change_witness:
  "fst (ValidatePeerPrivateTxStatus script_env vanishing_manager [''key n2''] [CallOk]) = Hang"
proof -
  have v: "PeerArr_IsValid script_env [] [Some (sample_peer ''n2'')] = Ret (Inr [sample_peer ''n2''])"
    "PeerArr_IsValid script_env [] [] = Ret (Inr [])" by code_simp+
  let ?pm = "vanishing_manager\<lparr>mgr_cfg := (mgr_cfg vanishing_manager)\<lparr>nd_Peers := [sample_peer ''n2'']\<rparr>\<rparr>"
  have c: "peersByParticipantKeyCount script_env vanishing_manager [''key n2''] [CallOk] = (Ret (1, ?pm), [])"
    by (simp add: peersByParticipantKeyCount_def getConfigByPrivManKey_def readPeersConfig_def v
        vanishing_manager_def) (simp add: sample_peer_def)
  have l: "start_loop script_env ?pm [''key n2''] [] = (Ret ([], ?pm\<lparr>mgr_cfg := (mgr_cfg ?pm)\<lparr>nd_Peers := []\<rparr>\<rparr>), [])"
    by (simp add: getConfigByPrivManKey_def readPeersConfig_def v vanishing_manager_def)
  show ?thesis by (rule private_tx_hangs_on_change [OF sched_ok_script_env c _ l]) simp_all
qed

section \<open>Configurations\<close>

text \<open>
  C22: a basic configuration passes \<open>IsValid\<close> exactly when every one of its parts is as \<open>Basic_ok\<close>
  describes it, which is what the code accepts; one that is not is refused with an error or
  panics. The timeouts of a proxy are only compared with 0: a negative one is accepted like a
  positive one, although the message of the error says that it must be greater than 0.
\<close>

theorem config_accepted_iff:
  "((\<exists>c'. Basic_IsValid env w c = Ret (None, c')) \<longleftrightarrow> Basic_ok env w c) \<and>
    Proxy_ok env w (p\<lparr>px_ReadTimeout := - 1, px_WriteTimeout := - 1\<rparr>) =
      Proxy_ok env w (p\<lparr>px_ReadTimeout := 1, px_WriteTimeout := 1\<rparr>)"
  using Basic_valid by (simp add: Proxy_ok_def IsHttp_def IsWS_def)

text \<open>
  C23: a peers list is accepted exactly when it has no null element, no name twice, and only valid
  peers; the result is the list in its order with the TLS settings filled in.
\<close>

theorem peers_accepted_iff:
  "PeerArr_IsValid env w ps = Ret (Inr qs) \<longleftrightarrow>
     (\<exists>as. ps = map Some as \<and> distinct (map peer_Name as) \<and> list_all (Peer_ok env w) as \<and>
        qs = map (\<lambda>a. snd (Peer_IsValid env w a)) as)"
  by (simp add: PeerArr_IsValid_def PeerArr_loop_accepts list_all_iff)

section \<open>Consensus\<close>

text \<open>
  C24: a Raft node that takes part in consensus may be stopped exactly when it is neither a
  learner nor the minter and more than half of the cluster is active without it.
\<close>

theorem raft_shutdown_iff:
  "Raft_ValidateShutdown env client url w = (Ret (True, None), w') \<longleftrightarrow>
    (\<exists>role w1 cluster. getRole env client url w = ((role, None), w1) \<and> role \<noteq> LEARNER \<and> role \<noteq> MINTER \<and>
       getRaftClusterInfo env client url w1 = ((cluster, None), w') \<and>
       int (length cluster) < 2 * (count_if rc_NodeActive cluster - 1))"
  unfolding raft_quorum_check_iff [symmetric]
  by (auto simp: Raft_ValidateShutdown_def Let_def split: prod.splits option.splits if_splits)

text \<open>
  C25: an Istanbul validator may be stopped exactly when blocks are being minted and more than two
  thirds of the validators keep up without it.
\<close>

theorem istanbul_shutdown_iff:
  "Istanbul_ValidateShutdown env client url w = (Ret (True, None), w') \<longleftrightarrow>
    (\<exists>w1 a. getIstanbulIsValidator env client url w = ((True, None), w1) \<and>
       getIstanbulSealerActivity env client url w1 = ((a, None), w') \<and> isa_NumBlocks a \<noteq> 0 \<and>
       2 * int (length (isa_SealerActivity a))
         < 3 * (int (length (isa_SealerActivity a)) - (istanbul_down (isa_SealerActivity a) + 1)))"
  using istanbul_check_iff
  by (fastforce simp: Istanbul_ValidateShutdown_def Let_def split: prod.splits option.splits if_splits)

text \<open>
  C26: a GoQuorum Clique signer may be stopped exactly when more than half of the signers keep up
  without it. The division by the number of signers never fails: a node is only checked when it is
  one of them.
\<close>

theorem clique_shutdown_iff:
  "Clique_ValidateShutdown env client url w = (Ret (True, None), w') \<longleftrightarrow>
    (\<exists>s w1 coinbase n. getConsensusStatus env client url w = ((s, None), w1) \<and>
       getCoinBaseAccount env client url w1 = ((coinbase, None), w') \<and>
       has_key (cst_SealerActivity s) coinbase \<and> n = int (length (cst_SealerActivity s)) \<and>
       n < 2 * (n - (clique_down (wrap64 (cst_NumBlocks s sdiv n)) (cst_SealerActivity s) + 1)))"
proof -
  have "Clique_ValidateShutdown env client url w = (Ret (True, None), w') \<longleftrightarrow>
    (\<exists>s w1 coinbase. getConsensusStatus env client url w = ((s, None), w1) \<and>
       getCoinBaseAccount env client url w1 = ((coinbase, None), w') \<and>
       has_key (cst_SealerActivity s) coinbase \<and> clique_check s = Ret None)"
    by (auto simp: Clique_ValidateShutdown_def Let_def go_bind_eq_Ret split: prod.splits option.splits if_splits)
  moreover have "cst_SealerActivity s \<noteq> []" if "has_key (cst_SealerActivity s) c" for s c
    using that by (auto simp: has_key_def)
  ultimately show ?thesis unfolding clique_check_iff Let_def by blast
qed

text \<open>
  C27: a Besu signer may be stopped exactly when the signer metrics parse and more than half of the
  signers would be left after it and those whose last block is older than one round.
\<close>

theorem besu_shutdown_iff:
  "Besu_ValidateShutdown env client url w = (Ret (True, None), w') \<longleftrightarrow>
    (\<exists>cb w1 sg w2 cur w3 st d. Besu_getCoinBaseAccount env client url w = ((cb, None), w1) \<and>
       getSigners env client url w1 = ((sg, None), w2) \<and> cb \<in> set sg \<and>
       getCurrentBlockNumber env client url w2 = (Ret (cur, None), w3) \<and>
       Besu_getConsensusStatus env client url w3 = ((st, None), w') \<and>
       besu_down cur (int (length sg)) st 0 = Ret (Inr d) \<and>
       d = int (length (filter (besu_lags cur (int (length sg))) st)) \<and>
       int (length sg) < 2 * (int (length sg) - (d + 1)))"
proof -
  have "Besu_ValidateShutdown env client url w = (Ret (True, None), w') \<longleftrightarrow>
    (\<exists>cb w1 sg w2 cur w3 st. Besu_getCoinBaseAccount env client url w = ((cb, None), w1) \<and>
       getSigners env client url w1 = ((sg, None), w2) \<and> cb \<in> set sg \<and>
       getCurrentBlockNumber env client url w2 = (Ret (cur, None), w3) \<and>
       Besu_getConsensusStatus env client url w3 = ((st, None), w') \<and> besu_check cur sg st = Ret None)"
    by (auto simp: Besu_ValidateShutdown_def Let_def go_bind_eq_Ret
        split: prod.splits option.splits if_splits go.splits)
  moreover have "besu_check cur sg st = Ret None \<longleftrightarrow>
      (\<exists>d. besu_down cur (int (length sg)) st 0 = Ret (Inr d) \<and>
         d = int (length (filter (besu_lags cur (int (length sg))) st)) \<and>
         int (length sg) < 2 * (int (length sg) - (d + 1)))" if "cb \<in> set sg" for cb :: string and cur sg st
  proof -
    from that have "sg \<noteq> []" by auto
    from besu_check_iff [OF this] show ?thesis using besu_down_count [of cur "int (length sg)" st 0] by auto
  qed
  ultimately show ?thesis by blast
qed

section \<open>Processes\<close>

text \<open>
  C28: once the stop command of a shell process has ended well, stopping it succeeds exactly when
  one of the 30 checks that follow, a second apart, finds it down.
\<close>

theorem shell_stop_polls:
  assumes "sp_status sp" and "pr_StopCommand (sp_cfg sp) \<noteq> []"
    and "cmd_run env (pr_StopCommand (sp_cfg sp)) w = (Some None, w1)"
  shows "fst (fst (Shell_Stop env sp w)) = Ret None \<longleftrightarrow>
    (\<exists>k<30. \<not> poll_result (Shell_UpdateStatus env) (sleep env Second) k sp w1)"
  by (rule Shell_Stop_ok_iff [OF assms])

theorem shell_stop_polls_witness:
  "fst (fst (Shell_Stop script_env sample_shell [CallOk, CallErr ''down''])) = Ret None \<and>
     (\<exists>k. k < 30 \<and> \<not> poll_result (Shell_UpdateStatus script_env) (sleep script_env Second) k sample_shell [CallErr ''down''])"
proof -
  have "sp_status sample_shell" "pr_StopCommand (sp_cfg sample_shell) \<noteq> []"
    "cmd_run script_env (pr_StopCommand (sp_cfg sample_shell)) [CallOk, CallErr ''down''] = (Some None, [CallErr ''down''])"
    by (simp_all add: sample_shell_def sample_process_def)
  from shell_stop_polls [OF this] sample_loop show ?thesis by blast
qed

text \<open>
  C29: for shell processes and containers alike, a start or stop that reports no error leaves the
  process recorded as up or down, and repeating it does nothing.
\<close>

theorem process_contract:
  assumes "Proc_UpdateStatus env p w = ((s, p'), w')"
  shows "Proc_Status p' = s \<and> proc_cfg p' = proc_cfg p \<and>
    (Proc_Start env p' w' = ((Ret None, q), v) \<longrightarrow> Proc_Status q \<and> Proc_Start env q v = ((Ret None, q), v) \<and>
       (s \<longrightarrow> q = p' \<and> v = w')) \<and>
    (Proc_Stop env p' w' = ((Ret None, q), v) \<longrightarrow> \<not> Proc_Status q \<and> Proc_Stop env q v = ((Ret None, q), v) \<and>
       (\<not> s \<longrightarrow> q = p' \<and> v = w'))"
proof (cases s)
  case True
  have u: "Proc_UpdateStatus env p w = ((True, p'), w')" using assms True by simp
  from managed.update_start [OF u] managed.update_caches [OF assms] managed.update_cfg [OF assms]
  show ?thesis by (auto simp: True dest: managed.start_up managed.start_start managed.stop_down managed.stop_stop)
next
  case False
  have u: "Proc_UpdateStatus env p w = ((False, p'), w')" using assms False by simp
  from managed.update_stop [OF u] managed.update_caches [OF assms] managed.update_cfg [OF assms]
  show ?thesis by (auto simp: False dest: managed.start_up managed.start_start managed.stop_down managed.stop_stop)
qed

theorem process_contract_witness:
  "\<exists>p'. Proc_UpdateStatus script_env (ShellProc sample_shell) [CallErr ''down''] = ((False, p'), []) \<and>
     \<not> Proc_Status p' \<and> proc_cfg p' = sample_process"
proof -
  have u: "Proc_UpdateStatus script_env (ShellProc sample_shell) [CallErr ''down''] =
      ((False, ShellProc (sample_shell\<lparr>sp_status := False\<rparr>)), [])" by code_simp
  from process_contract [OF u] u show ?thesis by (simp add: sample_shell_def)
qed

text \<open>
  C30: a container that the Docker daemon fails to stop is recorded as down although nothing was
  checked: the next request to stop it reports success at once.
\<close>

theorem failed_docker_stop:
  assumes "dc_status dc" and "docker_client env w = (None, w1)"
    and "container_stop env (pr_ContainerId (dc_cfg dc)) w1 = (Some (Some e), w2)"
  shows "\<exists>dc'. Docker_Stop env dc w = ((Ret (Some e), dc'), w2) \<and> \<not> dc_status dc' \<and>
    Docker_Stop env dc' w3 = ((Ret None, dc'), w3)"
  using Docker_Stop_failed [OF assms] docker.stop_idle [of "dc\<lparr>dc_status := False\<rparr>"] by simp

theorem failed_docker_stop_witness:
  "\<exists>dc'. Docker_Stop script_env sample_docker [CallErr ''timeout''] = ((Ret (Some ''timeout''), dc'), []) \<and>
     \<not> dc_status dc' \<and> Docker_Stop script_env dc' [CallOk] = ((Ret None, dc'), [CallOk])"
proof -
  have "dc_status sample_docker" "docker_client script_env [CallErr ''timeout''] = (None, [CallErr ''timeout''])"
    "container_stop script_env (pr_ContainerId (dc_cfg sample_docker)) [CallErr ''timeout''] = (Some (Some ''timeout''), [])"
    by (simp_all add: sample_docker_def)
  from failed_docker_stop [OF this] show ?thesis by blast
qed



section \<open>Requests\<close>

text \<open>
  C32: the participants that are read off a private request: those of the first parameter with a
  \<open>privateFor\<close> member, provided that the method is a private one with the right number of
  parameters. A method that is no string, or a list of participants that is no array of strings,
  panics.
\<close>

theorem private_tx_keys:
  assumes "containsPrivateTxKeyWords body" and "Unmarshal dec_obj body [] = (tx, None)"
  shows "if (\<exists>v. obj_get tx ''method'' = Some v \<and> as_str v = None) \<or> (\<exists>v. participants_of tx = Some v \<and> \<not> string_array v)
    then panics (IsPrivateTx body)
    else IsPrivateTx body = Ret (case participants_of tx of None \<Rightarrow> [] | Some v \<Rightarrow> strings_of v, None)"
proof (cases "\<exists>v. obj_get tx ''method'' = Some v \<and> as_str v = None")
  case True
  with assms show ?thesis by (auto simp: IsPrivateTx_def decodePvtTx_spec)
next
  case False
  then have "\<not> (obj_get tx ''method'' \<noteq> None \<and> Option.bind (obj_get tx ''method'') as_str = None)"
    by (cases "obj_get tx ''method''") auto
  with decodePvtTx_spec [OF assms(2)] assms(1) have p: "IsPrivateTx body = (case participants_of tx of None \<Rightarrow> Ret ([], None)
      | Some v \<Rightarrow> go_bind (privKeys v) (\<lambda>ks. Ret (ks, None)))"
    by (simp add: IsPrivateTx_def del: not_None_eq)
  show ?thesis
  proof (cases "participants_of tx")
    case None
    with p False show ?thesis by simp
  next
    case (Some v)
    from privKeys_spec [of v] have "if string_array v then privKeys v = Ret (strings_of v) else panics (privKeys v)" by auto
    with p False Some show ?thesis by (cases "privKeys v") (auto split: if_split_asm)
  qed
qed

theorem private_tx_keys_witness:
  "IsPrivateTx sample_private_tx = Ret ([''k1'', ''k2''], None)"
proof -
  have u: "Unmarshal dec_obj sample_private_tx [] = (sample_private_obj, None)"
    by (simp add: sample_private_obj_def prod_eq_iff sample_private_decoded)
  from private_tx_keys [OF sample_private_decoded(1) u] sample_private_decoded show ?thesis
    by (simp add: string_array_def strings_of_def as_str_def map_filter_simps)
qed

text \<open>
  C33: a request that is passed on to the client is passed on unchanged and has found the
  hibernator idle. Unless its path is one of those to ignore, it has reset the inactivity timer
  (filled its channel, in a state that the other goroutines have reached, and the one of the resync
  timer if there is one), the \<open>StartClient\<close> of this request has left the client up, and on a node
  with a privacy manager the body carries no private transaction, or one for which the controller
  that \<open>StartClient\<close> left has then asked the participants and found them ready.
\<close>

theorem forwarded_requests:
  assumes "http_handler env turn ps s req w = (Ret (Forward u b, s'), w')" and "svc_inv s" and "turn_ok env turn"
  shows "IsNodeBusy (sv_node s) = None \<and> u = rq_RequestURI req \<and> rq_Body req = Inr b \<and>
    (if CanIgnoreRequest ps (rq_RequestURI req) then s' = s \<and> w' = w
     else \<exists>s0 s1 w1 n2 w2.
       svc_reach env s s0 \<and> \<not> sv_inactivityResetCh s0 \<and> svc_reach env (s0\<lparr>sv_inactivityResetCh := True\<rparr>) s1 \<and>
       (IsResyncTimerSet (basic (sv_node s)) \<longrightarrow> sv_syncResetCh s') \<and>
       ResetInactiveSyncTime turn s w = (Ret s1, w1) \<and>
       StartClient env (sv_node s1) w1 = (Ret (True, n2), w2) \<and> IsClientUp n2 \<and> IsClientUp (sv_node s') \<and>
       (if nc_withPrivMan n2
        then (\<exists>keys. IsPrivateTx b = Ret (keys, None) \<and>
          (keys = [] \<and> s' = s1\<lparr>sv_node := n2\<rparr> \<and> w' = w2 \<or>
           (\<exists>n3. PrepareNodeHibernatorForPrivateTx env keys n2 w2 = (Ret ((True, None), n3), w') \<and> s' = s1\<lparr>sv_node := n3\<rparr>)))
        else s' = s1\<lparr>sv_node := n2\<rparr> \<and> w' = w2))"
proof (cases "CanIgnoreRequest ps (rq_RequestURI req)")
  case True
  with http_handler_Forward(1-4) [OF assms(1)] show ?thesis by simp
next
  case False
  from http_handler_Forward(5) [OF assms(1) False] obtain s1 w1 n2 w2 where
    r: "ResetInactiveSyncTime turn s w = (Ret s1, w1)" and st: "StartClient env (sv_node s1) w1 = (Ret (True, n2), w2)"
    and h: "if nc_withPrivMan n2 then HandlePrivateTx env b (s1\<lparr>sv_node := n2\<rparr>) w2 = (Ret (None, s'), w')
       else s' = s1\<lparr>sv_node := n2\<rparr> \<and> w' = w2" by blast
  obtain s0 where s0: "svc_reach env s s0" "\<not> sv_inactivityResetCh s0"
    "svc_reach env (s0\<lparr>sv_inactivityResetCh := True\<rparr>) s1" "IsResyncTimerSet (basic (sv_node s)) \<longrightarrow> sv_syncResetCh s1"
    by (rule ResetInactiveSyncTime_sends [OF r assms(3,2)]) (simp split: if_split_asm)
  have "nc_wf (sv_node s1)"
    using svc_reach_inv [OF ResetInactiveSyncTime_reach [OF r assms(3,2)] assms(2)] by (simp add: svc_inv_def)
  from StartClient_Ret [OF st this] have up: "IsClientUp n2" by (simp add: start_outcome_def)
  have priv: "\<exists>keys. IsPrivateTx b = Ret (keys, None) \<and>
      (keys = [] \<and> s' = s1\<lparr>sv_node := n2\<rparr> \<and> w' = w2 \<or>
       (\<exists>n3. PrepareNodeHibernatorForPrivateTx env keys n2 w2 = (Ret ((True, None), n3), w') \<and> s' = s1\<lparr>sv_node := n3\<rparr>))"
    if "nc_withPrivMan n2"
    using h that HandlePrivateTx_None(2) [of env b "s1\<lparr>sv_node := n2\<rparr>" w2 s' w'] by auto
  have "sv_syncResetCh s' = sv_syncResetCh s1 \<and> IsClientUp (sv_node s')"
    using h up priv by (cases "nc_withPrivMan n2")
      (auto simp: PrepareNodeHibernatorForPrivateTx_def io_bind_eq_Ret IsClientUp_def)
  with False http_handler_Forward(1-3) [OF assms(1)] s0 r st up h priv show ?thesis by (simp, blast)
qed

theorem forwarded_requests_witness:
  "\<exists>s' w' s1 w1 n2 w2. http_handler (answering_env sample_ready_body) no_turn sample_proxy_server (started private_node)
      sample_request [] = (Ret (Forward ''/'' sample_private_tx, s'), w') \<and> IsClientUp (sv_node s') \<and>
    ResetInactiveSyncTime no_turn (started private_node) [] = (Ret s1, w1) \<and>
    StartClient (answering_env sample_ready_body) (sv_node s1) w1 = (Ret (True, n2), w2) \<and>
    (\<exists>n3. PrepareNodeHibernatorForPrivateTx (answering_env sample_ready_body) [''k1'', ''k2''] n2 w2 =
       (Ret ((True, None), n3), w'))"
proof -
  let ?env = "answering_env sample_ready_body"
  obtain s' w' where h: "http_handler ?env no_turn sample_proxy_server (started private_node) sample_request [] =
      (Ret (Forward ''/'' sample_private_tx, s'), w')" by (rule sample_forward)
  have inv: "svc_inv (started private_node)"
    by (rule svc_inv_start [OF private_node_wf]) (simp_all add: private_node_def sample_defs)
  have ni: "\<not> CanIgnoreRequest sample_proxy_server (rq_RequestURI sample_request)"
    by (simp add: CanIgnoreRequest_def sample_proxy_server_def sample_request_def has_key_def)
  from forwarded_requests [OF h inv no_turn_ok] ni obtain s1 w1 n2 w2 where
    s1: "ResetInactiveSyncTime no_turn (started private_node) [] = (Ret s1, w1)" and
    st: "StartClient ?env (sv_node s1) w1 = (Ret (True, n2), w2)" and up: "IsClientUp (sv_node s')" and
    p: "nc_withPrivMan n2 \<longrightarrow> (\<exists>keys. IsPrivateTx sample_private_tx = Ret (keys, None) \<and>
      (keys = [] \<or> (\<exists>n3. PrepareNodeHibernatorForPrivateTx ?env keys n2 w2 = (Ret ((True, None), n3), w'))))"
    by (auto split: if_split_asm)
  have "s1 = (started private_node)\<lparr>sv_inactivityResetCh := True\<rparr>"
    using s1 by (simp add: ResetInactiveSyncTime_def send_reset_def started_def private_node_def sample_defs IsResyncTimerSet_def)
  with st have "nc_withPrivMan n2"
    by (auto simp: StartClient_def started_def private_node_def sample_defs IsClientUp_def)
  with p sample_keys have "\<exists>n3. PrepareNodeHibernatorForPrivateTx ?env [''k1'', ''k2''] n2 w2 = (Ret ((True, None), n3), w')"
    by simp
  with h up s1 st show ?thesis by blast
qed

text \<open>
  C34: what the websocket proxy writes to the other side are the first messages it has read, in
  their order and unchanged, and after them at most one frame, which closes the connection.
\<close>

theorem websocket_replicates_prefix:
  assumes "replicateWebsocketConn env turn ct wr src ms s w = (Ret ((fs, fin), s'), w')"
  shows "\<exists>xs cs rest. fs = map (\<lambda>(t, m). DataFrame t m) xs @ cs \<and> ms = map Inr xs @ rest \<and>
    length cs \<le> 1 \<and> list_all is_close cs"
  by (rule replicate_prefix [OF assms])

theorem websocket_replicates_prefix_witness:
  "\<exists>fs fin. replicateWebsocketConn script_env no_turn (\<lambda>c t. t) (\<lambda>t m w. (None, w)) False
      [Inr (1, ''hi''), Inl (OtherError ''eof'')] sample_service [] = (Ret ((fs, fin), sample_service), []) \<and>
    (\<exists>xs cs. fs = map (\<lambda>(t, m). DataFrame t m) xs @ cs \<and> length cs \<le> 1 \<and> list_all is_close cs)"
proof -
  obtain fs fin where r: "replicateWebsocketConn script_env no_turn (\<lambda>c t. t) (\<lambda>t m w. (None, w)) False
      [Inr (1, ''hi''), Inl (OtherError ''eof'')] sample_service [] = (Ret ((fs, fin), sample_service), [])" by simp
  from websocket_replicates_prefix [OF r] r show ?thesis by blast
qed

text \<open>
  C35: the headers of a websocket request that reach the backend, key by key: origin,
  authorisation, protocols, cookies and host are passed on, the forwarding headers are computed,
  and every other header is dropped.
\<close>

theorem websocket_headers:
  "header_values (request_header req) k =
    (if k = ''Origin'' \<or> k = ''Authorization'' then
       (if header_Get (wr_Header req) k \<noteq> '''' then [header_Get (wr_Header req) k] else [])
     else if k = ''Sec-Websocket-Protocol'' \<or> k = ''Cookie'' then header_values (wr_Header req) k
     else if k = ''Host'' then (if wr_Host req \<noteq> '''' then [wr_Host req] else [])
     else if k = ''X-Forwarded-For'' then
       (case SplitHostPort (wr_RemoteAddr req) of
          None \<Rightarrow> []
        | Some ip \<Rightarrow> [case map_of (wr_Header req) ''X-Forwarded-For'' of
             None \<Rightarrow> ip | Some prior \<Rightarrow> join_comma prior @ '', '' @ ip])
     else if k = ''X-Forwarded-Proto'' then [if wr_TLS req then ''https'' else ''http'']
     else [])"
  by (simp add: request_header_values header_values_forwarded split: option.split)

text \<open>
  C36: the TLS settings of a websocket proxy leak into the others: the handlers share one dialer,
  and after a handler with TLS settings has dialled, a handler of a proxy without any dials with
  those settings instead of its own.
\<close>

theorem websocket_dialer_is_shared:
  assumes "ws_serve env dial upgrade ps target req u (d, s) w = (Ret (out, d1, s1), w1)" and "IsClientUp (sv_node s)"
    and "px_ClientTLSConfig (ps_proxyCfg ps) = Some t" and "px_ClientTLSConfig (ps_proxyCfg ps2) = None"
  shows "ws_serve env dial2 upgrade2 ps2 target2 req2 u2 (d1, s2) w2 =
    ws_serve env (\<lambda>tls. dial2 (ct_TlsCfg t)) upgrade2 ps2 target2 req2 u2 (d1, s2) w2"
  using ws_serve_no_tls [OF assms(4)] unfolding ws_serve_dialer [OF assms(1-3)] .

theorem websocket_dialer_is_shared_witness:
  "\<exists>out s1. ws_serve script_env sample_dial (\<lambda>h w. (None, w)) sample_tls_proxy_server sample_url sample_ws_request sample_url
       (None, sample_service) [] = (Ret (out, Some zero_tls_config, s1), []) \<and>
     ws_serve script_env sample_dial (\<lambda>h w. (None, w)) sample_proxy_server sample_url sample_ws_request sample_url
       (Some zero_tls_config, sample_service) [] =
     ws_serve script_env (\<lambda>tls. sample_dial (Some zero_tls_config)) (\<lambda>h w. (None, w)) sample_proxy_server sample_url
       sample_ws_request sample_url (Some zero_tls_config, sample_service) []"
proof -
  have up: "IsClientUp (sv_node sample_service)" using sample_up(1) by (simp add: sample_service_def started_def)
  have tls: "px_ClientTLSConfig (ps_proxyCfg sample_tls_proxy_server) = Some sample_client_tls"
    "px_ClientTLSConfig (ps_proxyCfg sample_proxy_server) = None"
    by (simp_all add: sample_tls_proxy_server_def sample_proxy_server_def sample_proxy_def)
  obtain out s1 where s: "ws_serve script_env sample_dial (\<lambda>h w. (None, w)) sample_tls_proxy_server sample_url
      sample_ws_request sample_url (None, sample_service) [] = (Ret (out, Some zero_tls_config, s1), [])"
    using up tls(1) by (simp add: ws_serve_def ws_admit_def PrepareClient_def StartClient_def ws_dialer_tls_def
        sample_dial_def sample_client_tls_def Let_def)
  from websocket_dialer_is_shared [OF s up tls] s show ?thesis by (simp add: sample_client_tls_def)
qed

text \<open>
  C37: the requests that hibernators send each other are the intended JSON documents, for a node
  name without quotes, backslashes and control characters.
\<close>

theorem peer_requests_parse:
  assumes "list_all plain_char name"
  shows "parse_json (NodeStatusMethod name) = Some (rpc_request ''node.NodeStatus'' name) \<and>
    parse_json (PreparePvtTxMethod name) = Some (rpc_request ''node.PrepareForPrivateTx'' name)"
  using request_text_parses [OF plain_methods(1) assms] request_text_parses [OF plain_methods(2) assms]
  by (simp add: NodeStatusMethod_text PreparePvtTxMethod_text)

theorem peer_requests_parse_witness:
  "parse_json (NodeStatusMethod ''node1'') = Some (rpc_request ''node.NodeStatus'' ''node1'')"
proof -
  have "list_all plain_char ''node1''" by code_simp
  from peer_requests_parse [OF this] show ?thesis by blast
qed

section \<open>Start-up\<close>

text \<open>
  C38: a controller made from an accepted configuration is well formed, idle and down, and its
  inactivity time is the configured one with at least a second and at most two percent, or ten
  seconds, added to it.
\<close>

theorem new_controller:
  assumes "Basic_ok env w0 (nd_BasicConfig cfg)" and "NewPeersReader (b_PeersConfigFile (nd_BasicConfig cfg)) = Inr rd"
    and "rand_ok env" and "b_InactivityTime (nd_BasicConfig cfg) < 2 ^ 62"
  shows "\<exists>n w'. NewNodeControl env toml cfg w = (Ret n, w') \<and> nc_wf n \<and> nc_nodeStatus n = OK \<and> \<not> IsClientUp n \<and>
    b_InactivityTime (nd_BasicConfig cfg) < b_InactivityTime (basic n) \<and>
    b_InactivityTime (basic n) \<le> b_InactivityTime (nd_BasicConfig cfg) + max 10 (2 * b_InactivityTime (nd_BasicConfig cfg) div 100)"
proof -
  obtain b where b: "b_BlockchainClient (nd_BasicConfig cfg) = Some b" using assms(1) by (auto simp: Basic_ok_def)
  obtain n w' where "NewNodeControl env toml cfg w = (Ret n, w')" "nc_wf n" "nc_nodeStatus n = OK" "\<not> IsClientUp n"
    "b_InactivityTime (nd_BasicConfig cfg) < b_InactivityTime (basic n)"
    "b_InactivityTime (basic n) \<le> b_InactivityTime (nd_BasicConfig cfg) + max 10 (2 * b_InactivityTime (nd_BasicConfig cfg) div 100)"
    by (rule NewNodeControl_wf [OF assms b])
  then show ?thesis by blast
qed

theorem new_controller_witness:
  "\<exists>n w'. NewNodeControl script_env sample_toml_peers sample_config [] = (Ret n, w') \<and> nc_wf n \<and>
     60 < b_InactivityTime (basic n) \<and> b_InactivityTime (basic n) \<le> 70"
proof -
  have ok: "Basic_ok script_env [] (nd_BasicConfig sample_config)"
    using Basic_IsValid_stable [OF sample_valid] by (simp add: sample_config_def)
  obtain rd where rd: "NewPeersReader (b_PeersConfigFile (nd_BasicConfig sample_config)) = Inr rd"
  proof -
    have "\<not> isl (NewPeersReader (b_PeersConfigFile (nd_BasicConfig sample_config)))" by code_simp
    then show thesis by (cases "NewPeersReader (b_PeersConfigFile (nd_BasicConfig sample_config))") (auto intro: that)
  qed
  have t: "b_InactivityTime (nd_BasicConfig sample_config) = 60" by (simp add: sample_config_def sample_basic_def)
  then have "b_InactivityTime (nd_BasicConfig sample_config) < 2 ^ 62" by simp
  from new_controller [OF ok rd rand_ok_script_env this, of sample_toml_peers "[]"] t show ?thesis by auto
qed

section \<open>Shutdown\<close>

text \<open>
  C39: after a signal or a single error the program comes to its end, in every case: the RPC server
  may still serve, or may have been the one that failed. As long as the RPC listener does not fail
  on its own in the meantime (C40), there is a run to the exit, no run is longer than \<open>life_left\<close> or
  stuck before the exit, and when the program has exited no server listens any more and the
  goroutines of the node have been told to stop.
\<close>

theorem shutdown_completes:
  assumes "life_reach (life_start n) s" and "lf_main s \<noteq> Waiting" and "lf_rpc s \<noteq> Sending"
  shows "(\<exists>t. rtranclp quiet_step s t \<and> lf_main t = Exited) \<and>
    (\<forall>k t. (quiet_step ^^ k) s t \<longrightarrow> k \<le> life_left s \<and>
      (if lf_main t = Exited then \<not> lf_monitors t \<and> Serving \<notin> set (lf_proxies t) \<and> lf_rpc t = Ended
       else \<exists>u. quiet_step t u))"
proof -
  have s: "ending s" using life_reach_inv [OF assms(1) life_inv_start] assms(2,3) by (simp add: ending_def)
  have "k \<le> life_left s \<and>
      (if lf_main t = Exited then \<not> lf_monitors t \<and> Serving \<notin> set (lf_proxies t) \<and> lf_rpc t = Ended
       else \<exists>u. quiet_step t u)" if "(quiet_step ^^ k) s t" for k t
  proof -
    from ending_run [OF that s] have t: "ending t" and "life_left t + k \<le> life_left s" by simp_all
    with ending_progress [OF t] show ?thesis by (auto simp: ending_def life_inv_def)
  qed
  with ending_exits [OF s] show ?thesis by blast
qed

theorem shutdown_completes_witness:
  "\<exists>s t. life_step (life_start 1) s \<and> lf_main s = StopProxy 0 \<and> lf_rpc s = Serving \<and> lf_proxies s = [Serving] \<and>
     rtranclp quiet_step s t \<and> lf_main t = Exited"
proof -
  let ?s = "(life_start 1)\<lparr>lf_main := StopProxy 0\<rparr>"
  have st: "life_step (life_start 1) ?s" by (rule life_step.signal) (simp add: life_start_def)
  have r: "life_reach (life_start 1) ?s" by (rule life_reach.step [OF life_reach.refl st])
  have f: "lf_main ?s = StopProxy 0" "lf_rpc ?s = Serving" "lf_proxies ?s = [Serving]" by (simp_all add: life_start_def)
  then have "lf_main ?s \<noteq> Waiting" "lf_rpc ?s \<noteq> Sending" by simp_all
  from shutdown_completes [OF r this] obtain t where "rtranclp quiet_step ?s t" "lf_main t = Exited" by blast
  with st f show ?thesis by blast
qed

text \<open>
  C40: if the RPC server fails while the program is already shutting down because of another error
  or a signal, nobody receives its error: the program never exits, and the goroutines of the node
  go on.
\<close>

theorem second_error_hangs:
  assumes "life_reach (life_start n) s" and "lf_rpc s = Sending" and "lf_main s \<notin> {Waiting, NodeStop, Exited}"
    and "life_reach s t"
  shows "lf_main t \<noteq> Exited \<and> lf_monitors t"
proof -
  have "rpc_lost s" using assms(2,3) by (simp add: rpc_lost_def)
  with assms(4) have l: "rpc_lost t" by (rule rpc_lost_reach)
  have "life_inv t" by (rule life_reach_inv [OF life_reach_trans [OF assms(4,1)] life_inv_start])
  with l show ?thesis by (auto simp: rpc_lost_def life_inv_def split: main_at.splits)
qed

theorem second_error_hangs_witness:
  "\<exists>s. life_reach (life_start 1) s \<and> lf_rpc s = Sending \<and> lf_main s \<noteq> Exited \<and> lf_monitors s"
proof -
  let ?s = "(life_start 1)\<lparr>lf_main := StopProxy 0, lf_proxies := [Ended], lf_rpc := Sending\<rparr>"
  have r: "life_reach (life_start 1) ?s" using rpc_lost_reachable [of 0] by simp
  have s: "lf_rpc ?s = Sending" "lf_main ?s \<notin> {Waiting, NodeStop, Exited}" by simp_all
  from second_error_hangs [OF r s life_reach.refl] r s show ?thesis by blast
qed

end
